theory Spec2Isabelle
  imports Main
begin

section \<open>The component core of the framework runtime\<close>

text \<open>
  A shallow embedding of \<^verbatim>\<open>src/browser/runtime/lib/component/component.js\<close>.
  Every method of \<^verbatim>\<open>Component\<close> is one definition named after it. The objects the
  methods mutate (virtual-DOM nodes, components, the registry of the data store, the
  scene graph) live in an explicit store, the \<open>world\<close>; a method is a function from
  the world to either an error with the world at the moment of the throw, or a result
  with the world it leaves. Calls into the collaborating modules, which are required
  by the file but are not part of it, are recorded in order in the \<open>trace\<close> of the
  world; what those modules compute is taken from the record \<open>env\<close>.
\<close>

subsection \<open>Values\<close>

type_synonym uid = string
type_synonym nid = nat
type_synonym cid = nat
type_synonym fid = nat

text \<open>What \<^verbatim>\<open>JSON.parse\<close> returns, and the values a piece of state can hold.\<close>

datatype json =
    JNull
  | JBool bool
  | JNum int
  | JStr string
  | JArr "json list"
  | JObj "(string \<times> json) list"

datatype jsval = Undefined | Val json

text \<open>
  The errors the file can raise: the \<^verbatim>\<open>TypeError\<close> of a property read on
  \<^verbatim>\<open>undefined\<close> or \<^verbatim>\<open>null\<close> (with the expression that failed), the
  \<^verbatim>\<open>SyntaxError\<close> of \<^verbatim>\<open>JSON.parse\<close>, and the \<^verbatim>\<open>Error\<close> thrown at line 249,
  \<^verbatim>\<open>'`' + info.message + '` is not a valid Control Flow Message'\<close>, which
  \<open>InvalidControlFlowMessage\<close> holds with the offending \<^verbatim>\<open>info.message\<close>.
  \<open>RouterError\<close> is what the behavior router raises when it fails to interpret a
  behavior. \<open>OutOfFuel\<close> is not an error of the program: it marks a run cut off by
  the bound on the depth of nested constructions and behavior runs.
\<close>

datatype error =
    TypeError string
  | SyntaxError string
  | InvalidControlFlowMessage jsval
  | RouterError string
  | OutOfFuel

datatype behavior_kind = Conditional | Repeat | Custom

record behavior =
  b_name :: string
  b_params :: "string list"
  b_kind :: behavior_kind

record attachment =
  a_selector :: string
  a_executable :: string

text \<open>The module a name and tag resolve to in the data store.\<close>

record module_definition =
  d_tree :: string
  d_states :: "(string \<times> jsval) list"
  d_behaviors :: "behavior list"
  d_events :: "string list"

record node =
  n_tagName :: string
  n_uid :: uid
  n_tag :: string
  n_attributes :: "string \<rightharpoonup> string"
  n_parentNode :: "nid option"
  n_childNodes :: "nid list"

record tree_adapter =
  t_rootNode :: nid
  t_blueprint :: nid
  t_expandedBlueprint :: "nid option"
  t_childrenRoot :: "nid option"

datatype listener = OnBehaviorUpdate | BehaviorListener behavior

record component =
  c_name :: string
  c_uid :: uid
  c_tag :: string
  c_dependencies :: string
  c_definition :: module_definition
  c_timelineSpec :: string
  c_config :: string
  c_attachments :: "attachment list"
  c_surrogateRoot :: "nid option"
  c_tree :: tree_adapter
  c_famousNode :: fid
  c_states :: "(string \<times> jsval) list"
  c_listeners :: "listener list"
  c_behaviors :: "behavior list"
  c_blockControlFlow :: bool

text \<open>
  The third argument of the constructor: a component, or the object with just
  \<^verbatim>\<open>tree\<close> and \<^verbatim>\<open>famousNode\<close> that \<^verbatim>\<open>executeComponent\<close> builds.
\<close>

datatype parent = ParentComponent cid | ParentShim nid fid

text \<open>
  The calls into the collaborators, in the order the core makes them. \<open>Route\<close> holds
  the \<^verbatim>\<open>blockControlFlow\<close> of the component at the call, since the router is handed
  the component and reads the flag from it.
\<close>

datatype event =
    ConsoleError string
  | RegisterComponent uid cid
  | StatesOn cid string
  | CreateBehaviorListener cid behavior
  | TriggerLifecycleEvent string uid
  | TriggerPublicEvent string "nid option" uid
  | InitializeDescendantEvents "nid option" uid
  | SendMessages jsval uid
  | SendMessage string string uid
  | ProcessPassThroughEvents string string "nid option"
  | Route behavior cid bool
  | InitializeSelfContainedFlows nid uid
  | InitializeParentDefinedFlows "nid option" "nid option"
  | ProcessRepeatBehavior behavior "nid option" uid
  | ProcessIfBehavior behavior "nid option" uid
  | StripExpandedBlueprintMessages cid

record world =
  nodes :: "nid \<Rightarrow> node"
  next_nid :: nid
  comps :: "cid \<Rightarrow> component"
  next_cid :: cid
  registry :: "uid \<rightharpoonup> cid"
  famous :: "fid \<Rightarrow> fid list"
  next_fid :: fid
  trace :: "event list"

text \<open>
  What the collaborators and the built-ins compute. None of them is under
  \<^verbatim>\<open>src/\<close>, so each is a parameter: the lookups of the data store by name and tag,
  the blueprint the tree adapter builds and the children it enumerates, the nodes the
  control-flow evaluator returns and the action markers it asks for (node and marker
  text), the node queries of the virtual DOM, the parent lookup of the utilities, and
  whether the behavior router fails on a behavior. \<open>VirtualDOM_under\<close> enumerates the
  nodes under a root in document order from the child lists of the nodes, which is all
  it is given.
  \<open>DataStore_getModule\<close> is \<open>None\<close> where the data store has no module for the
  name and tag (\<^verbatim>\<open>undefined\<close>, so that \<^verbatim>\<open>!this.definition\<close> holds at line 40);
  \<open>JSON_parse\<close> is \<open>None\<close> where \<^verbatim>\<open>JSON.parse\<close> throws.
\<close>

record env =
  toLowerCase :: "string \<Rightarrow> string"
  JSON_parse :: "string \<Rightarrow> json option"
  DataStore_getDependencies :: "string \<Rightarrow> string \<Rightarrow> string"
  DataStore_getModule :: "string \<Rightarrow> string \<Rightarrow> module_definition option"
  DataStore_getTimelines :: "string \<Rightarrow> string \<Rightarrow> string"
  DataStore_getConfig :: "string \<Rightarrow> string \<Rightarrow> string"
  DataStore_getAttachments :: "string \<Rightarrow> string \<Rightarrow> attachment list"
  Tree_blueprint :: "nid \<Rightarrow> string \<Rightarrow> string \<Rightarrow> nid"
  Tree_eachChild :: "world \<Rightarrow> nid option \<Rightarrow> nid list"
  ControlFlow_initializeSelfContainedFlows :: "world \<Rightarrow> nid \<Rightarrow> uid \<Rightarrow> nid"
  ControlFlow_initializeParentDefinedFlows :: "world \<Rightarrow> nid option \<Rightarrow> nid option \<Rightarrow> nid option"
  ControlFlow_processRepeatBehavior :: "world \<Rightarrow> behavior \<Rightarrow> nid option \<Rightarrow> uid \<Rightarrow> (nid \<times> string) list"
  ControlFlow_processIfBehavior :: "world \<Rightarrow> behavior \<Rightarrow> nid option \<Rightarrow> uid \<Rightarrow> (nid \<times> string) list"
  VirtualDOM_under :: "(nid \<Rightarrow> nid list) \<Rightarrow> nid option \<Rightarrow> nid list"
  VirtualDOM_eachNode :: "world \<Rightarrow> nid option \<Rightarrow> string \<Rightarrow> nid list"
  VirtualDOM_nodeByUID :: "world \<Rightarrow> nid option \<Rightarrow> uid \<Rightarrow> nid option"
  Utilities_getParentComponent :: "world \<Rightarrow> nid \<Rightarrow> cid option"
  BehaviorRouter_raises :: "world \<Rightarrow> behavior \<Rightarrow> cid \<Rightarrow> error option"

subsection \<open>Constants of the file (lines 18 to 29)\<close>

abbreviation YIELD_KEY :: string where "YIELD_KEY \<equiv> ''$yield''"
abbreviation REPEAT_INFO_KEY :: string where "REPEAT_INFO_KEY \<equiv> ''repeat-info''"
abbreviation CONTROL_FLOW_ACTION_KEY :: string where "CONTROL_FLOW_ACTION_KEY \<equiv> ''control-flow-action''"
abbreviation CREATE_KEY :: string where "CREATE_KEY \<equiv> ''create''"
abbreviation DELETE_KEY :: string where "DELETE_KEY \<equiv> ''delete''"
abbreviation INDEX_KEY :: string where "INDEX_KEY \<equiv> ''$index''"
abbreviation REPEAT_PAYLOAD_KEY :: string where "REPEAT_PAYLOAD_KEY \<equiv> ''$repeatPayload''"
abbreviation PRELOAD_KEY :: string where "PRELOAD_KEY \<equiv> ''pre-load''"
abbreviation POSTLOAD_KEY :: string where "POSTLOAD_KEY \<equiv> ''post-load''"
abbreviation PREUNLOAD_KEY :: string where "PREUNLOAD_KEY \<equiv> ''pre-unload''"
abbreviation POSTUNLOAD_KEY :: string where "POSTUNLOAD_KEY \<equiv> ''post-unload''"

subsection \<open>Running a method: results, errors and the world\<close>

type_synonym 'a exec = "world \<Rightarrow> (error \<times> world) + ('a \<times> world)"

definition return :: "'a \<Rightarrow> 'a exec" where
  "return x w = Inr (x, w)"

definition throw :: "error \<Rightarrow> 'a exec" where
  "throw e w = Inl (e, w)"

definition bind :: "'a exec \<Rightarrow> ('a \<Rightarrow> 'b exec) \<Rightarrow> 'b exec" where
  "bind m f w = (case m w of Inl ew \<Rightarrow> Inl ew | Inr (x, w') \<Rightarrow> f x w')"

definition gets :: "(world \<Rightarrow> 'a) \<Rightarrow> 'a exec" where
  "gets f w = Inr (f w, w)"

definition modify :: "(world \<Rightarrow> world) \<Rightarrow> unit exec" where
  "modify f w = Inr ((), f w)"

text \<open>A \<^verbatim>\<open>for\<close> loop over an array, left as soon as one round throws.\<close>

fun forEach :: "'a list \<Rightarrow> ('a \<Rightarrow> unit exec) \<Rightarrow> unit exec" where
  "forEach [] f = return ()"
| "forEach (x # xs) f = bind (f x) (\<lambda>_. forEach xs f)"

text \<open>The world a run ends in, whether it returned or threw, and whether it returned.\<close>

definition final :: "'a exec \<Rightarrow> world \<Rightarrow> world" where
  "final m w = (case m w of Inl (e, w') \<Rightarrow> w' | Inr (x, w') \<Rightarrow> w')"

definition returns :: "'a exec \<Rightarrow> world \<Rightarrow> bool" where
  "returns m w = (case m w of Inl ew \<Rightarrow> False | Inr xw \<Rightarrow> True)"

subsection \<open>JavaScript built-ins\<close>

text \<open>
  \<^verbatim>\<open>if (s)\<close> on what \<^verbatim>\<open>getAttribute\<close> returns: \<^verbatim>\<open>null\<close> and the empty string are
  falsy.
\<close>

definition truthy :: "string option \<Rightarrow> bool" where
  "truthy s = (case s of None \<Rightarrow> False | Some t \<Rightarrow> t \<noteq> [])"

text \<open>
  \<^verbatim>\<open>obj[key]\<close> on a parsed value, for the four keys the file reads (\<^verbatim>\<open>$index\<close>,
  \<^verbatim>\<open>$repeatPayload\<close>, \<^verbatim>\<open>message\<close>, \<^verbatim>\<open>parentUID\<close>): a \<^verbatim>\<open>TypeError\<close> on
  \<^verbatim>\<open>null\<close>, the member of an object, and \<^verbatim>\<open>undefined\<close> on a number, a string, a
  boolean or an array, which have none of these properties.
\<close>

fun getProp :: "json \<Rightarrow> string \<Rightarrow> jsval exec" where
  "getProp JNull k = throw (TypeError k)"
| "getProp (JObj kvs) k = return (case map_of kvs k of None \<Rightarrow> Undefined | Some v \<Rightarrow> Val v)"
| "getProp (JBool b) k = return Undefined"
| "getProp (JNum i) k = return Undefined"
| "getProp (JStr s) k = return Undefined"
| "getProp (JArr xs) k = return Undefined"

definition parseJSON :: "env \<Rightarrow> string \<Rightarrow> json exec" where
  "parseJSON E s = (case JSON_parse E s of None \<Rightarrow> throw (SyntaxError s) | Some j \<Rightarrow> return j)"

subsection \<open>The collaborators\<close>

definition logEvent :: "event \<Rightarrow> unit exec" where
  "logEvent e = modify (\<lambda>w. w\<lparr>trace := trace w @ [e]\<rparr>)"

definition upd_node :: "nid \<Rightarrow> (node \<Rightarrow> node) \<Rightarrow> world \<Rightarrow> world" where
  "upd_node n f w = w\<lparr>nodes := (nodes w)(n := f (nodes w n))\<rparr>"

definition upd_comp :: "cid \<Rightarrow> (component \<Rightarrow> component) \<Rightarrow> world \<Rightarrow> world" where
  "upd_comp c f w = w\<lparr>comps := (comps w)(c := f (comps w c))\<rparr>"

text \<open>Node primitives of the virtual DOM.\<close>

definition VirtualDOM_getAttribute :: "nid \<Rightarrow> string \<Rightarrow> string option exec" where
  "VirtualDOM_getAttribute n k = gets (\<lambda>w. n_attributes (nodes w n) k)"

definition removeAttribute :: "nid \<Rightarrow> string \<Rightarrow> unit exec" where
  "removeAttribute n k = modify (upd_node n (\<lambda>x. x\<lparr>n_attributes := (n_attributes x)(k := None)\<rparr>))"

definition setAttribute :: "nid \<Rightarrow> string \<Rightarrow> string \<Rightarrow> unit exec" where
  "setAttribute n k v = modify (upd_node n (\<lambda>x. x\<lparr>n_attributes := (n_attributes x)(k \<mapsto> v)\<rparr>))"

text \<open>
  Modelled from the spec: \<^verbatim>\<open>VirtualDOM.clone\<close> (virtual-dom.js is not under
  \<^verbatim>\<open>src/\<close>), "clone a node". The copy is a new node with the tag name, uid, tag and
  attributes of the original and no parent. The copies of the descendants are not
  represented: both callers drop them at once with \<^verbatim>\<open>removeChildNodes\<close>.
\<close>

definition VirtualDOM_clone :: "nid \<Rightarrow> nid exec" where
  "VirtualDOM_clone n w =
     Inr (next_nid w,
          w\<lparr>nodes := (nodes w)(next_nid w := (nodes w n)\<lparr>n_parentNode := None, n_childNodes := []\<rparr>),
            next_nid := Suc (next_nid w)\<rparr>)"

text \<open>Modelled from the spec: "remove all children of a node".\<close>

definition VirtualDOM_removeChildNodes :: "nid \<Rightarrow> unit exec" where
  "VirtualDOM_removeChildNodes n =
     modify (\<lambda>w. w\<lparr>nodes := (\<lambda>k. if k = n then (nodes w k)\<lparr>n_childNodes := []\<rparr>
                                else if k \<in> set (n_childNodes (nodes w n)) then (nodes w k)\<lparr>n_parentNode := None\<rparr>
                                else nodes w k)\<rparr>)"

text \<open>
  \<^verbatim>\<open>parent.removeChild(child)\<close> and \<^verbatim>\<open>parent.appendChild(child)\<close> of the DOM;
  \<^verbatim>\<open>appendChild\<close> moves a node that has a parent out of the children of that parent.
\<close>

definition Node_removeChild :: "nid \<Rightarrow> nid \<Rightarrow> unit exec" where
  "Node_removeChild p n =
     modify (\<lambda>w. upd_node n (\<lambda>x. x\<lparr>n_parentNode := None\<rparr>)
                  (upd_node p (\<lambda>x. x\<lparr>n_childNodes := removeAll n (n_childNodes x)\<rparr>) w))"

definition Node_appendChild :: "nid \<Rightarrow> nid \<Rightarrow> unit exec" where
  "Node_appendChild p n =
     modify (\<lambda>w. upd_node n (\<lambda>x. x\<lparr>n_parentNode := Some p\<rparr>)
                  (upd_node p (\<lambda>x. x\<lparr>n_childNodes := n_childNodes x @ [n]\<rparr>)
                     (case n_parentNode (nodes w n) of
                        None \<Rightarrow> w
                      | Some q \<Rightarrow> upd_node q (\<lambda>x. x\<lparr>n_childNodes := removeAll n (n_childNodes x)\<rparr>) w)))"

text \<open>
  Modelled from the spec: \<^verbatim>\<open>VirtualDOM.removeNodeByUID\<close>, "remove a node by UID from
  a subtree". Which node of the subtree carries the uid is the lookup of the
  environment; the node found is taken out of its parent.
\<close>

definition VirtualDOM_removeNodeByUID :: "env \<Rightarrow> nid option \<Rightarrow> uid \<Rightarrow> unit exec" where
  "VirtualDOM_removeNodeByUID E root u =
     bind (gets (\<lambda>w. VirtualDOM_nodeByUID E w root u)) (\<lambda>found.
     case found of
       None \<Rightarrow> return ()
     | Some n \<Rightarrow>
         bind (gets (\<lambda>w. n_parentNode (nodes w n))) (\<lambda>p.
         case p of None \<Rightarrow> return () | Some q \<Rightarrow> Node_removeChild q n))"

text \<open>
  Modelled from the spec: \<^verbatim>\<open>VirtualDOM.queryAttribute\<close>, "query nodes by attribute under
  a subtree": the nodes under the root that carry the attribute, in document order.
\<close>

definition VirtualDOM_queryAttribute :: "env \<Rightarrow> world \<Rightarrow> nid option \<Rightarrow> string \<Rightarrow> nid list" where
  "VirtualDOM_queryAttribute E w root k =
     filter (\<lambda>n. n_attributes (nodes w n) k \<noteq> None)
       (VirtualDOM_under E (\<lambda>n. n_childNodes (nodes w n)) root)"

text \<open>
  Modelled from the spec: the registry of the data store (data-store.js is not under
  \<^verbatim>\<open>src/\<close>), a map from uid to component: \<^verbatim>\<open>registerComponent(uid, component)\<close>
  and \<^verbatim>\<open>getComponent(uid)\<close>. A key that is not a string names no component.
\<close>

definition DataStore_registerComponent :: "uid \<Rightarrow> cid \<Rightarrow> unit exec" where
  "DataStore_registerComponent u c =
     modify (\<lambda>w. w\<lparr>registry := (registry w)(u \<mapsto> c), trace := trace w @ [RegisterComponent u c]\<rparr>)"

definition DataStore_getComponent :: "jsval \<Rightarrow> cid option exec" where
  "DataStore_getComponent key =
     gets (\<lambda>w. case key of Val (JStr u) \<Rightarrow> registry w u | _ \<Rightarrow> None)"

text \<open>
  Modelled from the spec: \<^verbatim>\<open>Utilities.getComponent(node)\<close>, "the registry is the only
  way to resolve a tree node back to its owning Component".
\<close>

definition Utilities_getComponent :: "nid \<Rightarrow> cid option exec" where
  "Utilities_getComponent n = gets (\<lambda>w. registry w (n_uid (nodes w n)))"

text \<open>
  Modelled from the spec: the scene-graph connector, "parent/child handles in an
  animation graph": \<^verbatim>\<open>addChild\<close> makes a new handle under the parent's,
  \<^verbatim>\<open>removeChild\<close> takes a handle out of the parent's children.
\<close>

definition FamousConnector_addChild :: "fid \<Rightarrow> fid exec" where
  "FamousConnector_addChild pf w =
     Inr (next_fid w,
          w\<lparr>famous := (famous w)(pf := famous w pf @ [next_fid w]), next_fid := Suc (next_fid w)\<rparr>)"

definition Famous_removeChild :: "fid \<Rightarrow> fid \<Rightarrow> unit exec" where
  "Famous_removeChild pf f = modify (\<lambda>w. w\<lparr>famous := (famous w)(pf := removeAll f (famous w pf))\<rparr>)"

text \<open>
  Modelled from the spec: the tree adapter, "construct(node, definitionTree,
  dependencies, rootNode)", which "owns blueprint + expanded blueprint + root node
  reference + child-root reference" and is "bound to parent's root": the node becomes
  a child of the parent's root node.
\<close>

definition Tree_new :: "env \<Rightarrow> nid \<Rightarrow> string \<Rightarrow> string \<Rightarrow> nid \<Rightarrow> tree_adapter exec" where
  "Tree_new E domNode definitionTree dependencies parentRoot =
     bind (Node_appendChild parentRoot domNode) (\<lambda>_.
     return \<lparr>t_rootNode = domNode,
             t_blueprint = Tree_blueprint E domNode definitionTree dependencies,
             t_expandedBlueprint = None,
             t_childrenRoot = None\<rparr>)"

definition Tree_setExpandedBlueprint :: "cid \<Rightarrow> nid \<Rightarrow> unit exec" where
  "Tree_setExpandedBlueprint c bp =
     modify (upd_comp c (\<lambda>x. x\<lparr>c_tree := (c_tree x)\<lparr>t_expandedBlueprint := Some bp\<rparr>\<rparr>))"

definition Tree_setChildrenRoot :: "cid \<Rightarrow> nid option \<Rightarrow> unit exec" where
  "Tree_setChildrenRoot c r =
     modify (upd_comp c (\<lambda>x. x\<lparr>c_tree := (c_tree x)\<lparr>t_childrenRoot := r\<rparr>\<rparr>))"

definition Tree_getExpandedBlueprint :: "cid \<Rightarrow> nid option exec" where
  "Tree_getExpandedBlueprint c = gets (\<lambda>w. t_expandedBlueprint (c_tree (comps w c)))"

text \<open>
  Modelled from the spec: the state store, a "per-component key\<rightarrow>value map with
  change notification". \<^verbatim>\<open>getNames\<close> lists the keys; \<^verbatim>\<open>set\<close>, which notifies
  the listeners, comes with the methods below, after the handler it calls.
\<close>

fun assign :: "string \<Rightarrow> jsval \<Rightarrow> (string \<times> jsval) list \<Rightarrow> (string \<times> jsval) list" where
  "assign k v [] = [(k, v)]"
| "assign k v (p # ps) = (if fst p = k then (k, v) # ps else p # assign k v ps)"

definition States_get :: "world \<Rightarrow> cid \<Rightarrow> string \<Rightarrow> jsval option" where
  "States_get w c k = map_of (c_states (comps w c)) k"

definition States_getNames :: "cid \<Rightarrow> string list exec" where
  "States_getNames c = gets (\<lambda>w. map fst (c_states (comps w c)))"

text \<open>Modelled from the spec: \<^verbatim>\<open>ArrayUtils.shareValue\<close>, the two arrays "overlap".\<close>

definition shareValue :: "string list \<Rightarrow> string list \<Rightarrow> bool" where
  "shareValue xs ys = (set xs \<inter> set ys \<noteq> {})"

text \<open>
  Modelled from the spec: the control-flow evaluator "re-evaluates the expanded
  blueprint in place, annotating affected nodes with a structured action marker". Which
  nodes it marks and with what text is the answer of the environment; the markers are
  written on the nodes of the expanded blueprint it is given, and a mark on any other
  node is not written.
\<close>

definition annotate :: "env \<Rightarrow> nid option \<Rightarrow> (nid \<times> string) list \<Rightarrow> unit exec" where
  "annotate E root marks =
     bind (gets (\<lambda>w. VirtualDOM_under E (\<lambda>n. n_childNodes (nodes w n)) root)) (\<lambda>under.
     forEach (filter (\<lambda>(n, s). n \<in> set under) marks)
       (\<lambda>(n, s). setAttribute n CONTROL_FLOW_ACTION_KEY s))"

subsection \<open>The methods of Component\<close>

text \<open>
  The constructor and \<^verbatim>\<open>_runBehaviors\<close> are the two methods through which every
  cycle of calls passes (a constructor builds its children; a behavior run, through the
  router, processes control-flow messages, which construct components and run the
  behaviors again). The methods below reach both through a \<open>knot\<close>, tied at the end
  of the section.
\<close>

record knot =
  k_Component :: "nid \<Rightarrow> nid option \<Rightarrow> parent option \<Rightarrow> cid exec"
  k_runBehaviors :: "cid \<Rightarrow> bool \<Rightarrow> unit exec"

definition getRootNode :: "cid \<Rightarrow> nid exec" where
  "getRootNode c = gets (\<lambda>w. t_rootNode (c_tree (comps w c)))"

definition getParentComponent :: "env \<Rightarrow> cid \<Rightarrow> cid option exec" where
  "getParentComponent E c =
     bind (getRootNode c) (\<lambda>rootNode. gets (\<lambda>w. Utilities_getParentComponent E w rootNode))"

definition sendMessage :: "cid \<Rightarrow> string \<Rightarrow> string \<Rightarrow> unit exec" where
  "sendMessage c key message =
     bind (gets (\<lambda>w. c_uid (comps w c))) (\<lambda>uid.
     bind (logEvent (SendMessage key message uid)) (\<lambda>_.
     bind (Tree_getExpandedBlueprint c) (\<lambda>bp.
     logEvent (ProcessPassThroughEvents key message bp))))"

text \<open>\<^verbatim>\<open>_remove\<close>, lines 284 to 301.\<close>

definition remove :: "env \<Rightarrow> cid \<Rightarrow> unit exec" where
  "remove E c =
     bind (gets (\<lambda>w. comps w c)) (\<lambda>this.
     bind (logEvent (TriggerLifecycleEvent PREUNLOAD_KEY (c_uid this))) (\<lambda>_.
     bind (getParentComponent E c) (\<lambda>parentComponent.
     bind (getRootNode c) (\<lambda>rootNode.
     bind (gets (\<lambda>w. n_parentNode (nodes w rootNode))) (\<lambda>parentNode.
     bind (case parentNode of None \<Rightarrow> return () | Some p \<Rightarrow> Node_removeChild p rootNode) (\<lambda>_.
     bind (case parentComponent of
             None \<Rightarrow> throw (TypeError ''parentComponent.famousNode'')
           | Some p \<Rightarrow>
               bind (gets (\<lambda>w. c_famousNode (comps w p))) (\<lambda>pf.
               Famous_removeChild pf (c_famousNode this))) (\<lambda>_.
     logEvent (TriggerLifecycleEvent POSTUNLOAD_KEY (c_uid this)))))))))"

text \<open>
  The static \<^verbatim>\<open>Component._processControlFlowMessage\<close>, lines 230 to 253. It returns
  the new component for a create message and \<^verbatim>\<open>null\<close> otherwise.
\<close>

definition processControlFlowMessage :: "knot \<Rightarrow> env \<Rightarrow> nid \<Rightarrow> nid option \<Rightarrow> cid option exec" where
  "processControlFlowMessage K E node progenitorExpandedBlueprint =
     bind (VirtualDOM_getAttribute node CONTROL_FLOW_ACTION_KEY) (\<lambda>info.
     if truthy info then
       bind (parseJSON E (the info)) (\<lambda>info.
       bind (getProp info ''message'') (\<lambda>message.
       if message = Val (JStr CREATE_KEY) then
         bind (VirtualDOM_clone node) (\<lambda>baseNode.
         bind (VirtualDOM_removeChildNodes baseNode) (\<lambda>_.
         bind (removeAttribute baseNode CONTROL_FLOW_ACTION_KEY) (\<lambda>_.
         bind (getProp info ''parentUID'') (\<lambda>parentUID.
         bind (DataStore_getComponent parentUID) (\<lambda>p.
         bind (k_Component K baseNode (Some node) (map_option ParentComponent p)) (\<lambda>created.
         return (Some created)))))))
       else if message = Val (JStr DELETE_KEY) then
         bind (gets (\<lambda>w. n_uid (nodes w node))) (\<lambda>u.
         bind (VirtualDOM_removeNodeByUID E progenitorExpandedBlueprint u) (\<lambda>_.
         bind (Utilities_getComponent node) (\<lambda>owner.
         bind (case owner of
                 None \<Rightarrow> throw (TypeError ''Utilities.getComponent(node)._remove'')
               | Some c \<Rightarrow> remove E c) (\<lambda>_.
         return None))))
       else throw (InvalidControlFlowMessage message)))
     else return None)"

text \<open>
  The loop of \<^verbatim>\<open>_processControlFlowMessages\<close>, lines 212 to 218;
  \<open>newComponentCreated\<close> is \<open>None\<close> while it is \<^verbatim>\<open>false\<close> or \<^verbatim>\<open>null\<close>.
\<close>

fun processControlFlowMessages_loop ::
  "knot \<Rightarrow> env \<Rightarrow> nid option \<Rightarrow> nid list \<Rightarrow> cid option \<Rightarrow> cid option exec" where
  "processControlFlowMessages_loop K E expandedBlueprint [] newComponentCreated =
     return newComponentCreated"
| "processControlFlowMessages_loop K E expandedBlueprint (n # ns) newComponentCreated =
     bind (processControlFlowMessage K E n expandedBlueprint) (\<lambda>result.
     bind (removeAttribute n CONTROL_FLOW_ACTION_KEY) (\<lambda>_.
     processControlFlowMessages_loop K E expandedBlueprint ns
       (if newComponentCreated = None then result else newComponentCreated)))"

text \<open>\<^verbatim>\<open>_processControlFlowMessages\<close>, lines 207 to 228.\<close>

definition processControlFlowMessages :: "knot \<Rightarrow> env \<Rightarrow> cid \<Rightarrow> unit exec" where
  "processControlFlowMessages K E c =
     bind (Tree_getExpandedBlueprint c) (\<lambda>expandedBlueprint.
     bind (gets (\<lambda>w. VirtualDOM_queryAttribute E w expandedBlueprint CONTROL_FLOW_ACTION_KEY)) (\<lambda>ns.
     bind (processControlFlowMessages_loop K E expandedBlueprint ns None) (\<lambda>newComponentCreated.
     if newComponentCreated \<noteq> None then k_runBehaviors K c True else return ())))"

definition processDynamicRepeat :: "knot \<Rightarrow> env \<Rightarrow> cid \<Rightarrow> behavior \<Rightarrow> unit exec" where
  "processDynamicRepeat K E c b =
     bind (Tree_getExpandedBlueprint c) (\<lambda>expandedBlueprint.
     bind (gets (\<lambda>w. c_uid (comps w c))) (\<lambda>uid.
     bind (logEvent (ProcessRepeatBehavior b expandedBlueprint uid)) (\<lambda>_.
     bind (gets (\<lambda>w. ControlFlow_processRepeatBehavior E w b expandedBlueprint uid)) (\<lambda>marks.
     bind (annotate E expandedBlueprint marks) (\<lambda>_.
     processControlFlowMessages K E c)))))"

definition processDynamicIf :: "knot \<Rightarrow> env \<Rightarrow> cid \<Rightarrow> behavior \<Rightarrow> unit exec" where
  "processDynamicIf K E c b =
     bind (Tree_getExpandedBlueprint c) (\<lambda>expandedBlueprint.
     bind (gets (\<lambda>w. c_uid (comps w c))) (\<lambda>uid.
     bind (logEvent (ProcessIfBehavior b expandedBlueprint uid)) (\<lambda>_.
     bind (gets (\<lambda>w. ControlFlow_processIfBehavior E w b expandedBlueprint uid)) (\<lambda>marks.
     bind (annotate E expandedBlueprint marks) (\<lambda>_.
     processControlFlowMessages K E c)))))"

text \<open>
  Modelled from the spec: \<^verbatim>\<open>BehaviorRouter.route\<close> (behavior-router.js is not under
  \<^verbatim>\<open>src/\<close>). The router "is responsible for interpreting the behavior's declared
  effect"; the two entry points \<^verbatim>\<open>processDynamicRepeat\<close> and \<^verbatim>\<open>processDynamicIf\<close>
  are "invoked by the behavior router when a component's own behavior list contains a
  repeat or conditional behavior", and \<^verbatim>\<open>blockControlFlow\<close> is the "flag suppressing
  nested control-flow triggering". Interpreting a behavior can fail ("all operations run
  to completion or raise a fatal error"): whether the router raises on a behavior is the
  answer of the environment. What else the router does for a behavior that is neither
  a repeat nor a conditional stays outside the core; the call is in the trace.
\<close>

definition BehaviorRouter_route :: "knot \<Rightarrow> env \<Rightarrow> behavior \<Rightarrow> cid \<Rightarrow> unit exec" where
  "BehaviorRouter_route K E b c =
     bind (gets (\<lambda>w. c_blockControlFlow (comps w c))) (\<lambda>blocked.
     bind (logEvent (Route b c blocked)) (\<lambda>_.
     bind (gets (\<lambda>w. BehaviorRouter_raises E w b c)) (\<lambda>failure.
     case failure of
       Some e \<Rightarrow> throw e
     | None \<Rightarrow>
         if blocked then return ()
         else (case b_kind b of
                 Repeat \<Rightarrow> processDynamicRepeat K E c b
               | Conditional \<Rightarrow> processDynamicIf K E c b
               | Custom \<Rightarrow> return ()))))"

text \<open>\<^verbatim>\<open>_handleBehaviorUpdate\<close>, lines 145 to 147.\<close>

definition handleBehaviorUpdate :: "knot \<Rightarrow> env \<Rightarrow> cid \<Rightarrow> behavior \<Rightarrow> unit exec" where
  "handleBehaviorUpdate K E c b = BehaviorRouter_route K E b c"

text \<open>
  Modelled from the spec: \<^verbatim>\<open>states.set\<close>, of the state store "with change
  notification". The listeners are those \<^verbatim>\<open>_setEventListeners\<close> wired (lines 139 to
  142): "any state change tagged behavior-update re-routes the affected behavior; every
  behavior that declares itself listenable registers a state-store listener". Setting a
  key writes the value and then hands every listening behavior that names the key
  among its parameters to the handler of \<^verbatim>\<open>behavior-update\<close>, in the order of
  registration, whether or not the value differs from the one stored.
\<close>

definition States_set :: "knot \<Rightarrow> env \<Rightarrow> cid \<Rightarrow> string \<Rightarrow> jsval \<Rightarrow> unit exec" where
  "States_set K E c k v =
     bind (modify (upd_comp c (\<lambda>x. x\<lparr>c_states := assign k v (c_states x)\<rparr>))) (\<lambda>_.
     bind (gets (\<lambda>w. c_listeners (comps w c))) (\<lambda>listeners.
     forEach listeners (\<lambda>l.
       case l of
         OnBehaviorUpdate \<Rightarrow> return ()
       | BehaviorListener b \<Rightarrow>
           if k \<in> set (b_params b) \<and> OnBehaviorUpdate \<in> set listeners
           then handleBehaviorUpdate K E c b
           else return ())))"

text \<open>
  \<^verbatim>\<open>_runBehaviors\<close>, lines 95 to 114. The argument is \<open>False\<close> for a call without
  argument (\<^verbatim>\<open>undefined\<close>) and \<open>True\<close> for \<^verbatim>\<open>_runBehaviors(true)\<close>.
\<close>

definition setBlockControlFlow :: "cid \<Rightarrow> bool \<Rightarrow> unit exec" where
  "setBlockControlFlow c v = modify (upd_comp c (\<lambda>x. x\<lparr>c_blockControlFlow := v\<rparr>))"

definition runBehaviors :: "knot \<Rightarrow> env \<Rightarrow> cid \<Rightarrow> bool \<Rightarrow> unit exec" where
  "runBehaviors K E c runControlFlow =
     bind (if \<not> runControlFlow then setBlockControlFlow c True else return ()) (\<lambda>_.
     bind (gets (\<lambda>w. c_behaviors (comps w c))) (\<lambda>behaviorList.
     bind (States_getNames c) (\<lambda>stateNames.
     bind (forEach behaviorList (\<lambda>behavior.
             if b_params behavior = [] \<or> shareValue stateNames (b_params behavior)
             then BehaviorRouter_route K E behavior c
             else return ())) (\<lambda>_.
     setBlockControlFlow c False))))"

text \<open>\<^verbatim>\<open>_executeAttachments\<close>, lines 116 to 131.\<close>

definition executeAttachments :: "env \<Rightarrow> cid \<Rightarrow> unit exec" where
  "executeAttachments E c =
     bind (Tree_getExpandedBlueprint c) (\<lambda>nodeToQuery.
     bind (gets (\<lambda>w. c_attachments (comps w c))) (\<lambda>attachments.
     forEach attachments (\<lambda>attachment.
       bind (gets (\<lambda>w. VirtualDOM_eachNode E w nodeToQuery (a_selector attachment))) (\<lambda>ns.
       forEach ns (\<lambda>node.
         bind (Utilities_getComponent node) (\<lambda>target.
         case target of
           None \<Rightarrow> throw (TypeError ''Utilities.getComponent(node).sendMessage'')
         | Some t \<Rightarrow> sendMessage t ''attach'' (a_executable attachment)))))))"

text \<open>\<^verbatim>\<open>_setEventListeners\<close>, lines 137 to 143.\<close>

definition setEventListeners :: "cid \<Rightarrow> unit exec" where
  "setEventListeners c =
     bind (logEvent (StatesOn c ''behavior-update'')) (\<lambda>_.
     bind (modify (upd_comp c (\<lambda>x. x\<lparr>c_listeners := c_listeners x @ [OnBehaviorUpdate]\<rparr>))) (\<lambda>_.
     bind (gets (\<lambda>w. c_behaviors (comps w c))) (\<lambda>items.
     forEach items (\<lambda>item.
       bind (logEvent (CreateBehaviorListener c item)) (\<lambda>_.
       modify (upd_comp c (\<lambda>x. x\<lparr>c_listeners := c_listeners x @ [BehaviorListener item]\<rparr>)))))))"

text \<open>\<^verbatim>\<open>createChild\<close> and \<^verbatim>\<open>_updateChildren\<close>, lines 259 to 261 and 176 to 186.\<close>

definition createChild :: "knot \<Rightarrow> nid \<Rightarrow> nid \<Rightarrow> cid \<Rightarrow> cid exec" where
  "createChild K domNode surrogateRoot parent =
     k_Component K domNode (Some surrogateRoot) (Some (ParentComponent parent))"

definition updateChildren :: "knot \<Rightarrow> env \<Rightarrow> cid \<Rightarrow> nid option \<Rightarrow> unit exec" where
  "updateChildren K E c childrenRoot =
     bind (Tree_setChildrenRoot c childrenRoot) (\<lambda>_.
     bind (gets (\<lambda>w. Tree_eachChild E w childrenRoot)) (\<lambda>children.
     forEach children (\<lambda>node.
       bind (VirtualDOM_clone node) (\<lambda>baseNode.
       bind (VirtualDOM_removeChildNodes baseNode) (\<lambda>_.
       bind (createChild K baseNode node c) (\<lambda>_. return ()))))))"

text \<open>
  \<^verbatim>\<open>_initializeControlFlow\<close>, lines 153 to 174. Modelled from the spec:
  \<^verbatim>\<open>events.getPublicEvent\<close> (events.js is not under \<^verbatim>\<open>src/\<close>), "if this component
  declares a public override for the default content-projection slot": the override is
  there when \<^verbatim>\<open>$yield\<close> is among the events of the definition.
\<close>

definition initializeControlFlow :: "knot \<Rightarrow> env \<Rightarrow> cid \<Rightarrow> unit exec" where
  "initializeControlFlow K E c =
     bind (gets (\<lambda>w. comps w c)) (\<lambda>this.
     bind (logEvent (InitializeSelfContainedFlows (t_blueprint (c_tree this)) (c_uid this))) (\<lambda>_.
     bind (gets (\<lambda>w. ControlFlow_initializeSelfContainedFlows E w (t_blueprint (c_tree this)) (c_uid this))) (\<lambda>expandedBlueprint.
     bind (Tree_setExpandedBlueprint c expandedBlueprint) (\<lambda>_.
     bind (if YIELD_KEY \<in> set (d_events (c_definition this))
           then logEvent (TriggerPublicEvent YIELD_KEY (c_surrogateRoot this) (c_uid this))
           else
             bind (Tree_getExpandedBlueprint c) (\<lambda>bp.
             bind (logEvent (InitializeParentDefinedFlows bp (c_surrogateRoot this))) (\<lambda>_.
             bind (gets (\<lambda>w. ControlFlow_initializeParentDefinedFlows E w bp (c_surrogateRoot this))) (\<lambda>childrenRoot.
             updateChildren K E c childrenRoot)))) (\<lambda>_.
     bind (getRootNode c) (\<lambda>rootNode.
     removeAttribute rootNode CONTROL_FLOW_ACTION_KEY))))))"

text \<open>\<^verbatim>\<open>_processDOMMessages\<close>, lines 72 to 93.\<close>

definition processDOMMessages :: "knot \<Rightarrow> env \<Rightarrow> cid \<Rightarrow> unit exec" where
  "processDOMMessages K E c =
     bind (getRootNode c) (\<lambda>node.
     bind (VirtualDOM_getAttribute node REPEAT_INFO_KEY) (\<lambda>messageStr.
     bind (if truthy messageStr then
             bind (parseJSON E (the messageStr)) (\<lambda>messageObj.
             bind (getProp messageObj INDEX_KEY) (\<lambda>index.
             bind (getProp messageObj REPEAT_PAYLOAD_KEY) (\<lambda>repeatPayload.
             bind (gets (\<lambda>w. c_uid (comps w c))) (\<lambda>uid.
             bind (logEvent (SendMessages repeatPayload uid)) (\<lambda>_.
             bind (removeAttribute node REPEAT_INFO_KEY) (\<lambda>_.
             return (index, repeatPayload)))))))
           else return (Val (JNum 0), Val JNull)) (\<lambda>(index, repeatPayload).
     bind (States_set K E c INDEX_KEY index) (\<lambda>_.
     bind (States_set K E c REPEAT_PAYLOAD_KEY repeatPayload) (\<lambda>_.
     logEvent (StripExpandedBlueprintMessages c))))))"

text \<open>\<^verbatim>\<open>_initialize\<close>, lines 62 to 70.\<close>

definition initialize :: "knot \<Rightarrow> env \<Rightarrow> cid \<Rightarrow> unit exec" where
  "initialize K E c =
     bind (gets (\<lambda>w. c_uid (comps w c))) (\<lambda>uid.
     bind (logEvent (TriggerLifecycleEvent PRELOAD_KEY uid)) (\<lambda>_.
     bind (initializeControlFlow K E c) (\<lambda>_.
     bind (processDOMMessages K E c) (\<lambda>_.
     bind (k_runBehaviors K c False) (\<lambda>_.
     bind (executeAttachments E c) (\<lambda>_.
     bind (Tree_getExpandedBlueprint c) (\<lambda>bp.
     bind (logEvent (InitializeDescendantEvents bp uid)) (\<lambda>_.
     logEvent (TriggerLifecycleEvent POSTLOAD_KEY uid)))))))))"

text \<open>
  The constructor, lines 31 to 56. The object under construction is stored, under the
  next free identity, once its fields are assigned (line 51); nothing reads it through
  the store before. The arguments of \<^verbatim>\<open>new Tree\<close> at line 44 are evaluated from left
  to right, so \<^verbatim>\<open>this.definition.tree\<close> is read before \<^verbatim>\<open>parent.tree.rootNode\<close>.
\<close>

definition parent_tree_rootNode :: "parent option \<Rightarrow> nid exec" where
  "parent_tree_rootNode p =
     (case p of
        None \<Rightarrow> throw (TypeError ''parent.tree'')
      | Some (ParentComponent q) \<Rightarrow> gets (\<lambda>w. t_rootNode (c_tree (comps w q)))
      | Some (ParentShim r f) \<Rightarrow> return r)"

definition parent_famousNode :: "parent option \<Rightarrow> fid exec" where
  "parent_famousNode p =
     (case p of
        None \<Rightarrow> throw (TypeError ''parent.famousNode'')
      | Some (ParentComponent q) \<Rightarrow> gets (\<lambda>w. c_famousNode (comps w q))
      | Some (ParentShim r f) \<Rightarrow> return f)"

definition storeComponent :: "component \<Rightarrow> cid exec" where
  "storeComponent x w =
     Inr (next_cid w, w\<lparr>comps := (comps w)(next_cid w := x), next_cid := Suc (next_cid w)\<rparr>)"

definition Component :: "knot \<Rightarrow> env \<Rightarrow> nid \<Rightarrow> nid option \<Rightarrow> parent option \<Rightarrow> cid exec" where
  "Component K E domNode surrogateRoot parent =
     bind (gets (\<lambda>w. nodes w domNode)) (\<lambda>dn.
     let name = toLowerCase E (n_tagName dn);
         uid = n_uid dn;
         tag = n_tag dn;
         dependencies = DataStore_getDependencies E name tag;
         defn = DataStore_getModule E name tag;
         timelineSpec = DataStore_getTimelines E name tag;
         config = DataStore_getConfig E name tag;
         attachments = DataStore_getAttachments E name tag
     in
     bind (if defn = None
           then logEvent (ConsoleError (''No module found for `'' @ name @ '' ('' @ tag @ '')`''))
           else return ()) (\<lambda>_.
     bind (case defn of
             None \<Rightarrow> throw (TypeError ''this.definition.tree'')
           | Some d \<Rightarrow> return d) (\<lambda>d.
     bind (parent_tree_rootNode parent) (\<lambda>parentRoot.
     bind (Tree_new E domNode (d_tree d) dependencies parentRoot) (\<lambda>tree.
     bind (parent_famousNode parent) (\<lambda>pf.
     bind (FamousConnector_addChild pf) (\<lambda>famousNode.
     bind (storeComponent
             \<lparr>c_name = name, c_uid = uid, c_tag = tag, c_dependencies = dependencies,
              c_definition = d, c_timelineSpec = timelineSpec, c_config = config,
              c_attachments = attachments, c_surrogateRoot = surrogateRoot, c_tree = tree,
              c_famousNode = famousNode, c_states = d_states d, c_listeners = [],
              c_behaviors = d_behaviors d, c_blockControlFlow = False\<rparr>) (\<lambda>this.
     bind (DataStore_registerComponent uid this) (\<lambda>_.
     bind (setEventListeners this) (\<lambda>_.
     bind (initialize K E this) (\<lambda>_.
     return this)))))))))))"

text \<open>
  Tying the knot: \<open>methods E n\<close> are the constructor and \<^verbatim>\<open>_runBehaviors\<close> with at
  most \<open>n\<close> nested constructions and behavior runs below them. The file has no bound
  of its own, so a run that needs more ends in \<open>OutOfFuel\<close>.
\<close>

primrec methods :: "env \<Rightarrow> nat \<Rightarrow> knot" where
  "methods E 0 = \<lparr>k_Component = (\<lambda>domNode surrogateRoot parent. throw OutOfFuel),
                  k_runBehaviors = (\<lambda>c runControlFlow. throw OutOfFuel)\<rparr>"
| "methods E (Suc n) = \<lparr>k_Component = Component (methods E n) E,
                        k_runBehaviors = runBehaviors (methods E n) E\<rparr>"

section \<open>What a run adds, and what every run preserves\<close>

text \<open>
  The events a run appended to the trace, between the world it started in and the
  world it ended in.
\<close>

definition added :: "world \<Rightarrow> world \<Rightarrow> event list" where
  "added w w' = drop (length (trace w)) (trace w')"

text \<open>
  The registry is written by \<^verbatim>\<open>registerComponent\<close> only, which is in the trace:
  replaying the registrations of a run over the registry it started with gives the
  registry it ends with.
\<close>

fun apply_event :: "(uid \<rightharpoonup> cid) \<Rightarrow> event \<Rightarrow> (uid \<rightharpoonup> cid)" where
  "apply_event r (RegisterComponent u c) = r(u \<mapsto> c)"
| "apply_event r e = r"

text \<open>No component has \<^verbatim>\<open>blockControlFlow\<close> set.\<close>

definition unblocked :: "world \<Rightarrow> bool" where
  "unblocked w = (\<forall>c. \<not> c_blockControlFlow (comps w c))"

text \<open>
  What a run from \<open>w\<close> to \<open>w'\<close> keeps, whether it returned or threw: components
  are only added; the trace only grows; the registry is the replay of the registrations
  added; the behaviors routed belong to the components in \<open>X\<close> or to components built
  during the run; and, from a world where no component is blocked, the run has routed
  with \<^verbatim>\<open>blockControlFlow\<close> set only behaviors of the components in \<open>Y\<close> or of
  components built during the run, and, if it returned, it ends in a world where no
  component is blocked.
\<close>

definition frame :: "cid set \<Rightarrow> cid set \<Rightarrow> world \<Rightarrow> bool \<Rightarrow> world \<Rightarrow> bool" where
  "frame X Y w returned w' =
     (next_cid w \<le> next_cid w' \<and>
      trace w' = trace w @ added w w' \<and>
      registry w' = foldl apply_event (registry w) (added w w') \<and>
      (\<forall>b c f. Route b c f \<in> set (added w w') \<longrightarrow> c \<in> X \<or> next_cid w \<le> c) \<and>
      (unblocked w \<longrightarrow>
         (returned \<longrightarrow> unblocked w') \<and>
         (\<forall>b c. Route b c True \<in> set (added w w') \<longrightarrow> c \<in> Y \<or> next_cid w \<le> c)))"

text \<open>
  A method satisfies a relation when every run of it, returning or throwing, relates the
  world it starts in to the way and the world it ends in.
\<close>

definition sat :: "'a exec \<Rightarrow> (world \<Rightarrow> bool \<Rightarrow> world \<Rightarrow> bool) \<Rightarrow> bool" where
  "sat m R = (\<forall>w. R w (returns m w) (final m w))"

text \<open>
  What the methods below assume of the constructor and of \<^verbatim>\<open>_runBehaviors\<close> they
  call through the knot.
\<close>

definition good :: "knot \<Rightarrow> bool" where
  "good K =
     ((\<forall>d s p. sat (k_Component K d s p) (frame {} {})) \<and>
      (\<forall>c. sat (k_runBehaviors K c True) (frame {c} {})) \<and>
      (\<forall>c. sat (k_runBehaviors K c False) (frame {c} {c})))"

text \<open>
  The behaviors \<^verbatim>\<open>_runBehaviors\<close> routes (line 109): those without parameters and
  those whose parameters share a name with a piece of state.
\<close>

definition eligible :: "world \<Rightarrow> cid \<Rightarrow> behavior \<Rightarrow> bool" where
  "eligible w c b = (b_params b = [] \<or> shareValue (map fst (c_states (comps w c))) (b_params b))"

definition routed :: "world \<Rightarrow> cid \<Rightarrow> behavior list" where
  "routed w c = filter (eligible w c) (c_behaviors (comps w c))"

text \<open>
  What a run that returns keeps of the nodes and components that existed when it
  started: nodes and components are only added; outside the nodes in \<open>D\<close> the
  carrier attribute of a node is as before; a node without an action marker has none
  afterwards; a component keeps its root node and its uid and, outside \<open>C\<close>, its
  state.
\<close>

definition keeps :: "nid set \<Rightarrow> cid set \<Rightarrow> world \<Rightarrow> world \<Rightarrow> bool" where
  "keeps D C w w' =
     (next_nid w \<le> next_nid w' \<and> next_cid w \<le> next_cid w' \<and>
      (\<forall>n. n < next_nid w \<and> n \<notin> D \<longrightarrow>
           n_attributes (nodes w' n) REPEAT_INFO_KEY = n_attributes (nodes w n) REPEAT_INFO_KEY) \<and>
      (\<forall>n. n < next_nid w \<and> n_attributes (nodes w n) CONTROL_FLOW_ACTION_KEY = None \<longrightarrow>
           n_attributes (nodes w' n) CONTROL_FLOW_ACTION_KEY = None) \<and>
      (\<forall>c. c < next_cid w \<longrightarrow>
           t_rootNode (c_tree (comps w' c)) = t_rootNode (c_tree (comps w c)) \<and>
           c_uid (comps w' c) = c_uid (comps w c)) \<and>
      (\<forall>c. c < next_cid w \<and> c \<notin> C \<longrightarrow> c_states (comps w' c) = c_states (comps w c)))"

text \<open>
  A method keeps a relation on return when every run of it that returns relates the
  world it starts in to the world it returns.
\<close>

definition rets :: "'a exec \<Rightarrow> (world \<Rightarrow> world \<Rightarrow> bool) \<Rightarrow> bool" where
  "rets m R = (\<forall>w x w'. m w = Inr (x, w') \<longrightarrow> R w w')"

text \<open>
  What the methods below assume, for this, of the constructor and of
  \<^verbatim>\<open>_runBehaviors\<close> they call through the knot.
\<close>

definition gentle :: "knot \<Rightarrow> bool" where
  "gentle K =
     ((\<forall>d s p. rets (k_Component K d s p) (keeps {d} {})) \<and>
      (\<forall>c r. rets (k_runBehaviors K c r) (keeps {} {})))"

section \<open>A small application\<close>

text \<open>
  The concrete inputs of the witnesses and counterexamples below: an \<^verbatim>\<open>app\<close>
  component with a repeat behavior, a behavior without parameters and a behavior whose
  only parameter names no state, one attachment, and \<^verbatim>\<open>item\<close> children. The first
  item arrives with the carrier payload \<^verbatim>\<open>{"$index":2,"$repeatPayload":{"x":7}}\<close>.
  No module is registered for the tag name \<^verbatim>\<open>ghost\<close>. The repeat behavior asks for a
  third item as long as it is not registered; the conditional behavior marks the first
  item for deletion, writes a marker with the message \<^verbatim>\<open>bogus\<close> on the second and
  asks for the third. The expanded blueprint of the app (node 3) holds the three item
  nodes, of which the children root (node 2) holds the first. \<open>parse0\<close> agrees with
  \<^verbatim>\<open>JSON.parse\<close> on the four texts it is applied to. The router of \<open>env0\<close> never
  fails; that of \<open>env_raise\<close> fails on the behavior \<^verbatim>\<open>size\<close>. In \<open>world_dup\<close> the
  first item node has the uid of the app.
\<close>

definition CARRIER :: string where
  "CARRIER = ''{\"$index\":2,\"$repeatPayload\":{\"x\":7}}''"
definition CREATE_MARKER :: string where
  "CREATE_MARKER = ''{\"message\":\"create\",\"parentUID\":\"app1\"}''"
definition DELETE_MARKER :: string where
  "DELETE_MARKER = ''{\"message\":\"delete\",\"parentUID\":\"app1\"}''"
definition BOGUS_MARKER :: string where
  "BOGUS_MARKER = ''{\"message\":\"bogus\",\"parentUID\":\"app1\"}''"

definition parse0 :: "string \<Rightarrow> json option" where
  "parse0 s =
     (if s = CARRIER then Some (JObj [(''$index'', JNum 2), (''$repeatPayload'', JObj [(''x'', JNum 7)])])
      else if s = CREATE_MARKER then Some (JObj [(''message'', JStr ''create''), (''parentUID'', JStr ''app1'')])
      else if s = DELETE_MARKER then Some (JObj [(''message'', JStr ''delete''), (''parentUID'', JStr ''app1'')])
      else if s = BOGUS_MARKER then Some (JObj [(''message'', JStr ''bogus''), (''parentUID'', JStr ''app1'')])
      else None)"

definition b_repeat :: behavior where
  "b_repeat = \<lparr>b_name = ''$repeat'', b_params = [''items''], b_kind = Repeat\<rparr>"
definition b_if :: behavior where
  "b_if = \<lparr>b_name = ''$if'', b_params = [''show''], b_kind = Conditional\<rparr>"
definition b_size :: behavior where
  "b_size = \<lparr>b_name = ''size'', b_params = [], b_kind = Custom\<rparr>"
definition b_opacity :: behavior where
  "b_opacity = \<lparr>b_name = ''opacity'', b_params = [''missingState''], b_kind = Custom\<rparr>"
definition b_label :: behavior where
  "b_label = \<lparr>b_name = ''content'', b_params = [''$index''], b_kind = Custom\<rparr>"

definition app_module :: module_definition where
  "app_module = \<lparr>d_tree = ''<item></item>'',
                  d_states = [(''items'', Val (JArr [JNum 1, JNum 2]))],
                  d_behaviors = [b_repeat, b_size, b_opacity],
                  d_events = []\<rparr>"
definition item_module :: module_definition where
  "item_module = \<lparr>d_tree = [], d_states = [], d_behaviors = [b_label], d_events = []\<rparr>"

definition module0 :: "string \<Rightarrow> string \<Rightarrow> module_definition option" where
  "module0 name tag =
     (if name = ''app'' \<and> tag = ''v1'' then Some app_module
      else if name = ''item'' \<and> tag = ''v1'' then Some item_module
      else None)"

definition blank :: node where
  "blank = \<lparr>n_tagName = ''div'', n_uid = [], n_tag = [], n_attributes = Map.empty,
            n_parentNode = None, n_childNodes = []\<rparr>"

definition nodes0 :: "nid \<Rightarrow> node" where
  "nodes0 k =
     (if k = 0 then blank\<lparr>n_tagName := ''parent-tree:app'', n_uid := ''root''\<rparr>
      else if k = 1 then blank\<lparr>n_tagName := ''app'', n_uid := ''app1'', n_tag := ''v1''\<rparr>
      else if k = 2 then blank\<lparr>n_tagName := ''app'', n_uid := ''app1'', n_tag := ''v1'', n_childNodes := [4]\<rparr>
      else if k = 3 then blank\<lparr>n_tagName := ''app'', n_uid := ''app1'', n_tag := ''v1'', n_childNodes := [4, 5, 6]\<rparr>
      else if k = 4 then blank\<lparr>n_tagName := ''item'', n_uid := ''item1'', n_tag := ''v1'',
                               n_attributes := [REPEAT_INFO_KEY \<mapsto> CARRIER], n_parentNode := Some 3\<rparr>
      else if k = 5 then blank\<lparr>n_tagName := ''item'', n_uid := ''item2'', n_tag := ''v1'', n_parentNode := Some 3\<rparr>
      else if k = 6 then blank\<lparr>n_tagName := ''item'', n_uid := ''item3'', n_tag := ''v1'', n_parentNode := Some 3\<rparr>
      else if k = 7 then blank\<lparr>n_tagName := ''ghost'', n_uid := ''ghost1'', n_tag := ''v1''\<rparr>
      else blank)"

definition env0 :: env where
  "env0 =
     \<lparr>toLowerCase = (\<lambda>s. s),
      JSON_parse = parse0,
      DataStore_getDependencies = (\<lambda>name tag. []),
      DataStore_getModule = module0,
      DataStore_getTimelines = (\<lambda>name tag. []),
      DataStore_getConfig = (\<lambda>name tag. []),
      DataStore_getAttachments = (\<lambda>name tag. if name = ''app'' then [\<lparr>a_selector = ''item'', a_executable = ''exe''\<rparr>] else []),
      Tree_blueprint = (\<lambda>domNode definitionTree dependencies. if domNode = 1 then 2 else 8),
      Tree_eachChild = (\<lambda>w r. case r of None \<Rightarrow> [] | Some n \<Rightarrow> n_childNodes (nodes w n)),
      ControlFlow_initializeSelfContainedFlows = (\<lambda>w bp u. if bp = 2 then 3 else 8),
      ControlFlow_initializeParentDefinedFlows = (\<lambda>w bp surrogateRoot. if bp = Some 3 then Some 2 else bp),
      ControlFlow_processRepeatBehavior = (\<lambda>w b bp u. if registry w ''item3'' = None then [(6, CREATE_MARKER)] else []),
      ControlFlow_processIfBehavior = (\<lambda>w b bp u. [(4, DELETE_MARKER), (5, BOGUS_MARKER), (6, CREATE_MARKER)]),
      VirtualDOM_under = (\<lambda>children root. case root of None \<Rightarrow> [] | Some n \<Rightarrow> children n),
      VirtualDOM_eachNode = (\<lambda>w bp selector. if bp = Some 3 \<and> selector = ''item'' then [4] else []),
      VirtualDOM_nodeByUID = (\<lambda>w bp u. if bp = Some 3 \<and> u = ''item1'' then Some 4 else None),
      Utilities_getParentComponent = (\<lambda>w n. case n_parentNode (nodes w n) of None \<Rightarrow> None | Some p \<Rightarrow> registry w (n_uid (nodes w p))),
      BehaviorRouter_raises = (\<lambda>w b c. None)\<rparr>"

definition env_raise :: env where
  "env_raise = env0\<lparr>BehaviorRouter_raises := (\<lambda>w b c. if b_name b = ''size'' then Some (RouterError ''size'') else None)\<rparr>"

text \<open>The world before anything is constructed.\<close>

definition no_component :: component where
  "no_component =
     \<lparr>c_name = [], c_uid = [], c_tag = [], c_dependencies = [],
      c_definition = \<lparr>d_tree = [], d_states = [], d_behaviors = [], d_events = []\<rparr>,
      c_timelineSpec = [], c_config = [], c_attachments = [], c_surrogateRoot = None,
      c_tree = \<lparr>t_rootNode = 0, t_blueprint = 0, t_expandedBlueprint = None, t_childrenRoot = None\<rparr>,
      c_famousNode = 0, c_states = [], c_listeners = [], c_behaviors = [],
      c_blockControlFlow = False\<rparr>"

definition world0 :: world where
  "world0 = \<lparr>nodes = nodes0, next_nid = 9, comps = (\<lambda>c. no_component), next_cid = 0,
             registry = Map.empty, famous = (\<lambda>f. []), next_fid = 1, trace = []\<rparr>"

text \<open>
  \<open>world1\<close> is the world after \<^verbatim>\<open>app\<close> has been constructed under the wrapper node
  0 (lemma \<open>construct_app\<close> below): the app is component 0, its first item component 1,
  rooted at node 9, the clone of node 4.
\<close>

definition app_component :: component where
  "app_component =
     \<lparr>c_name = ''app'', c_uid = ''app1'', c_tag = ''v1'', c_dependencies = [],
      c_definition = app_module, c_timelineSpec = [], c_config = [],
      c_attachments = [\<lparr>a_selector = ''item'', a_executable = ''exe''\<rparr>],
      c_surrogateRoot = None,
      c_tree = \<lparr>t_rootNode = 1, t_blueprint = 2, t_expandedBlueprint = Some 3, t_childrenRoot = Some 2\<rparr>,
      c_famousNode = 1,
      c_states = [(''items'', Val (JArr [JNum 1, JNum 2])), (INDEX_KEY, Val (JNum 0)),
                  (REPEAT_PAYLOAD_KEY, Val JNull)],
      c_listeners = [OnBehaviorUpdate, BehaviorListener b_repeat, BehaviorListener b_size,
                     BehaviorListener b_opacity],
      c_behaviors = [b_repeat, b_size, b_opacity],
      c_blockControlFlow = False\<rparr>"

definition item1_component :: component where
  "item1_component =
     \<lparr>c_name = ''item'', c_uid = ''item1'', c_tag = ''v1'', c_dependencies = [],
      c_definition = item_module, c_timelineSpec = [], c_config = [],
      c_attachments = [], c_surrogateRoot = Some 4,
      c_tree = \<lparr>t_rootNode = 9, t_blueprint = 8, t_expandedBlueprint = Some 8, t_childrenRoot = Some 8\<rparr>,
      c_famousNode = 2,
      c_states = [(INDEX_KEY, Val (JNum 2)), (REPEAT_PAYLOAD_KEY, Val (JObj [(''x'', JNum 7)]))],
      c_listeners = [OnBehaviorUpdate, BehaviorListener b_label],
      c_behaviors = [b_label],
      c_blockControlFlow = False\<rparr>"

definition nodes1 :: "nid \<Rightarrow> node" where
  "nodes1 =
     nodes0(0 := (nodes0 0)\<lparr>n_childNodes := [1]\<rparr>,
            1 := (nodes0 1)\<lparr>n_parentNode := Some 0, n_childNodes := [9]\<rparr>,
            9 := (nodes0 4)\<lparr>n_attributes := Map.empty, n_parentNode := Some 1\<rparr>)"

definition trace1 :: "event list" where
  "trace1 =
     [RegisterComponent ''app1'' 0, StatesOn 0 ''behavior-update'',
      CreateBehaviorListener 0 b_repeat, CreateBehaviorListener 0 b_size,
      CreateBehaviorListener 0 b_opacity,
      TriggerLifecycleEvent PRELOAD_KEY ''app1'',
      InitializeSelfContainedFlows 2 ''app1'',
      InitializeParentDefinedFlows (Some 3) None,
      RegisterComponent ''item1'' 1, StatesOn 1 ''behavior-update'',
      CreateBehaviorListener 1 b_label,
      TriggerLifecycleEvent PRELOAD_KEY ''item1'',
      InitializeSelfContainedFlows 8 ''item1'',
      InitializeParentDefinedFlows (Some 8) (Some 4),
      SendMessages (Val (JObj [(''x'', JNum 7)])) ''item1'',
      Route b_label 1 False,
      StripExpandedBlueprintMessages 1,
      Route b_label 1 True,
      InitializeDescendantEvents (Some 8) ''item1'',
      TriggerLifecycleEvent POSTLOAD_KEY ''item1'',
      StripExpandedBlueprintMessages 0,
      Route b_repeat 0 True,
      Route b_size 0 True,
      SendMessage ''attach'' ''exe'' ''item1'',
      ProcessPassThroughEvents ''attach'' ''exe'' (Some 8),
      InitializeDescendantEvents (Some 3) ''app1'',
      TriggerLifecycleEvent POSTLOAD_KEY ''app1'']"

definition world1 :: world where
  "world1 =
     \<lparr>nodes = nodes1, next_nid = 10,
      comps = (\<lambda>c. no_component)(0 := app_component, 1 := item1_component), next_cid = 2,
      registry = [''app1'' \<mapsto> 0, ''item1'' \<mapsto> 1],
      famous = (\<lambda>f. [])(0 := [1], 1 := [2]), next_fid = 3,
      trace = trace1\<rparr>"

text \<open>
  \<open>world_child\<close> is \<open>world1\<close> with the first item as it was when its initialization
  started: no state yet, and the carrier still on its root node. In \<open>world_marked\<close> the
  evaluator has asked for the third item; in \<open>world2\<close> it has written the three markers
  of the conditional behavior; \<open>world3\<close> is \<open>world2\<close> after the first item has been
  deleted (lemma \<open>scan_delete\<close> below).
\<close>

definition world_child :: world where
  "world_child =
     world1\<lparr>nodes := nodes1(9 := (nodes0 4)\<lparr>n_parentNode := Some 1\<rparr>),
            comps := (comps world1)(1 := item1_component\<lparr>c_states := []\<rparr>)\<rparr>"

definition world_marked :: world where
  "world_marked =
     world1\<lparr>nodes := nodes1(6 := (nodes0 6)\<lparr>n_attributes := [CONTROL_FLOW_ACTION_KEY \<mapsto> CREATE_MARKER]\<rparr>)\<rparr>"

definition nodes2 :: "nid \<Rightarrow> node" where
  "nodes2 =
     nodes1(4 := (nodes0 4)\<lparr>n_attributes := [REPEAT_INFO_KEY \<mapsto> CARRIER, CONTROL_FLOW_ACTION_KEY \<mapsto> DELETE_MARKER]\<rparr>,
            5 := (nodes0 5)\<lparr>n_attributes := [CONTROL_FLOW_ACTION_KEY \<mapsto> BOGUS_MARKER]\<rparr>,
            6 := (nodes0 6)\<lparr>n_attributes := [CONTROL_FLOW_ACTION_KEY \<mapsto> CREATE_MARKER]\<rparr>)"

definition world2 :: world where
  "world2 = world1\<lparr>nodes := nodes2\<rparr>"

definition nodes3 :: "nid \<Rightarrow> node" where
  "nodes3 =
     nodes2(1 := (nodes1 1)\<lparr>n_childNodes := []\<rparr>,
            3 := (nodes0 3)\<lparr>n_childNodes := [5, 6]\<rparr>,
            4 := (nodes0 4)\<lparr>n_parentNode := None\<rparr>,
            9 := (nodes1 9)\<lparr>n_parentNode := None\<rparr>)"

definition world3 :: world where
  "world3 =
     world1\<lparr>nodes := nodes3, famous := (\<lambda>f. [])(0 := [1]),
            trace := trace1 @ [TriggerLifecycleEvent PREUNLOAD_KEY ''item1'',
                               TriggerLifecycleEvent POSTUNLOAD_KEY ''item1'']\<rparr>"

definition world_dup :: world where
  "world_dup = world0\<lparr>nodes := nodes0(4 := (nodes0 4)\<lparr>n_uid := ''app1''\<rparr>)\<rparr>"

section \<open>Lemmas\<close>

subsection \<open>Running a method\<close>

lemma bind_Inl: "m w = Inl ew \<Longrightarrow> bind m f w = Inl ew"
  by (simp add: bind_def)

lemma bind_Inr: "m w = Inr (x, w') \<Longrightarrow> bind m f w = f x w'"
  by (simp add: bind_def)

lemma bind_return [simp]: "bind (return x) f = f x"
  by (rule ext) (simp add: bind_def return_def)

lemma bind_throw [simp]: "bind (throw e) f = throw e"
  by (rule ext) (simp add: bind_def throw_def)

lemma bind_gets: "bind (gets g) f w = f (g w) w"
  by (simp add: bind_def gets_def)

lemma bind_modify: "bind (modify g) f w = f () (g w)"
  by (simp add: bind_def modify_def)

lemma bind_logEvent: "bind (logEvent e) f w = f () (w\<lparr>trace := trace w @ [e]\<rparr>)"
  by (simp add: logEvent_def bind_modify)

lemma bind_InrE:
  assumes "bind m f w = Inr (y, w'')"
  obtains x w' where "m w = Inr (x, w')" "f x w' = Inr (y, w'')"
  using assms by (auto simp add: bind_def split: sum.splits)

lemma bind_InlE:
  assumes "bind m f w = Inl (e, w'')"
  obtains "m w = Inl (e, w'')" | x w' where "m w = Inr (x, w')" "f x w' = Inl (e, w'')"
  using assms by (auto simp add: bind_def split: sum.splits)

lemma final_return [simp]: "final (return x) w = w"
  by (simp add: final_def return_def)

lemma final_throw [simp]: "final (throw e) w = w"
  by (simp add: final_def throw_def)

lemma final_gets [simp]: "final (gets g) w = w"
  by (simp add: final_def gets_def)

lemma final_modify [simp]: "final (modify g) w = g w"
  by (simp add: final_def modify_def)

lemma returns_simps [simp]:
  "returns (return x) w" "\<not> returns (throw e) w" "returns (gets g) w" "returns (modify h) w"
  by (simp_all add: returns_def return_def throw_def gets_def modify_def)

lemma final_Inr: "m w = Inr (x, w') \<Longrightarrow> final m w = w'"
  by (simp add: final_def)

lemma final_Inl: "m w = Inl (e, w') \<Longrightarrow> final m w = w'"
  by (simp add: final_def)

lemma returns_Inr: "m w = Inr (x, w') \<Longrightarrow> returns m w"
  by (simp add: returns_def)

lemma returns_Inl: "m w = Inl (e, w') \<Longrightarrow> \<not> returns m w"
  by (simp add: returns_def)

lemma final_bind:
  "final (bind m f) w = (case m w of Inl (e, w1) \<Rightarrow> w1 | Inr (x, w1) \<Rightarrow> final (f x) w1)"
  by (simp add: final_def bind_def split: sum.splits prod.splits)

lemma returns_bind:
  "returns (bind m f) w = (case m w of Inl (e, w1) \<Rightarrow> False | Inr (x, w1) \<Rightarrow> returns (f x) w1)"
  by (simp add: returns_def bind_def split: sum.splits prod.splits)

subsection \<open>The relation every run keeps\<close>

lemma added_self [simp]: "added w w = []"
  by (simp add: added_def)

lemma added_append: "trace w' = trace w @ ys \<Longrightarrow> added w w' = ys"
  by (simp add: added_def)

lemma frame_refl: "frame X Y w r w"
  by (simp add: frame_def)

lemma frame_compose:
  assumes a: "frame X Y w True w1" and b: "frame X' Y' w1 r w2"
    and x: "\<And>c. c \<in> X' \<Longrightarrow> c \<in> X \<or> next_cid w \<le> c"
    and y: "\<And>c. c \<in> Y' \<Longrightarrow> c \<in> Y \<or> next_cid w \<le> c"
  shows "frame X Y w r w2"
proof -
  from a have t1: "trace w1 = trace w @ added w w1" by (simp add: frame_def)
  from b have t2: "trace w2 = trace w1 @ added w1 w2" by (simp add: frame_def)
  from t1 t2 have t: "trace w2 = trace w @ (added w w1 @ added w1 w2)" by simp
  then have ad: "added w w2 = added w w1 @ added w1 w2" by (rule added_append)
  from a b have n: "next_cid w \<le> next_cid w1" "next_cid w1 \<le> next_cid w2"
    by (simp_all add: frame_def)
  from a b have rg: "registry w2 = foldl apply_event (registry w) (added w w2)"
    by (simp add: frame_def ad)
  have ro: "\<forall>b c f. Route b c f \<in> set (added w w2) \<longrightarrow> c \<in> X \<or> next_cid w \<le> c"
    using a b n x unfolding frame_def ad by (fastforce)
  have ca: "unblocked w \<longrightarrow>
         (r \<longrightarrow> unblocked w2) \<and> (\<forall>b c. Route b c True \<in> set (added w w2) \<longrightarrow> c \<in> Y \<or> next_cid w \<le> c)"
    using a b n y unfolding frame_def ad by (fastforce)
  show ?thesis
    unfolding frame_def using n t ad rg ro ca by simp
qed

lemma frame_trans: "frame X Y w True w1 \<Longrightarrow> frame X Y w1 r w2 \<Longrightarrow> frame X Y w r w2"
  by (rule frame_compose) auto

lemma frame_mono: "frame X Y w r w' \<Longrightarrow> X \<subseteq> X' \<Longrightarrow> Y \<subseteq> Y' \<Longrightarrow> frame X' Y' w r w'"
  unfolding frame_def by blast

lemma frame_same:
  assumes "trace w' = trace w" "registry w' = registry w" "next_cid w' = next_cid w"
    and "\<And>c. c_blockControlFlow (comps w' c) = c_blockControlFlow (comps w c)"
  shows "frame X Y w r w'"
  using assms by (simp add: frame_def added_def unblocked_def)

lemma frame_log:
  assumes "\<And>b c f. e \<noteq> Route b c f" "\<And>u c. e \<noteq> RegisterComponent u c"
  shows "frame X Y w r (w\<lparr>trace := trace w @ [e]\<rparr>)"
  using assms by (cases e) (auto simp add: frame_def added_def unblocked_def)

subsection \<open>The collaborators keep it\<close>

lemma satI: "(\<And>w. R w (returns m w) (final m w)) \<Longrightarrow> sat m R"
  by (simp add: sat_def)

lemma satD: "sat m R \<Longrightarrow> R w (returns m w) (final m w)"
  by (simp add: sat_def)

lemma sat_Inr: "sat m R \<Longrightarrow> m w = Inr (x, w') \<Longrightarrow> R w True w'"
  using satD [of m R w] by (simp add: returns_def final_def)

lemma sat_Inl: "sat m R \<Longrightarrow> m w = Inl (e, w') \<Longrightarrow> R w False w'"
  using satD [of m R w] by (simp add: returns_def final_def)

lemma sat_return: "sat (return x) (frame X Y)"
  by (simp add: sat_def frame_refl)

lemma sat_throw: "sat (throw e) (frame X Y)"
  by (simp add: sat_def frame_refl)

lemma sat_gets: "sat (gets g) (frame X Y)"
  by (simp add: sat_def frame_refl)

lemma sat_bind:
  assumes "sat m (frame X Y)" and "\<And>x. sat (f x) (frame X Y)"
  shows "sat (bind m f) (frame X Y)"
proof (rule satI)
  fix w :: world
  show "frame X Y w (returns (bind m f) w) (final (bind m f) w)"
  proof (cases "m w")
    case (Inl ew)
    obtain e w1 where ew: "ew = (e, w1)" by (cases ew)
    have "final (bind m f) w = w1" "\<not> returns (bind m f) w"
      using Inl ew by (simp_all add: final_def returns_def bind_def)
    then show ?thesis using sat_Inl [OF assms(1), of w e w1] Inl ew by simp
  next
    case (Inr xw)
    obtain x w1 where xw: "xw = (x, w1)" by (cases xw)
    have 1: "frame X Y w True w1" using sat_Inr [OF assms(1), of w x w1] Inr xw by simp
    have 2: "frame X Y w1 (returns (f x) w1) (final (f x) w1)" using assms(2) by (rule satD)
    have "final (bind m f) w = final (f x) w1" "returns (bind m f) w = returns (f x) w1"
      using Inr xw by (simp_all add: final_bind returns_bind)
    then show ?thesis using frame_trans [OF 1 2] by simp
  qed
qed

lemma sat_if: "(c \<Longrightarrow> sat a R) \<Longrightarrow> (\<not> c \<Longrightarrow> sat b R) \<Longrightarrow> sat (if c then a else b) R"
  by simp

lemma sat_case_option:
  "(x = None \<Longrightarrow> sat a R) \<Longrightarrow> (\<And>y. x = Some y \<Longrightarrow> sat (b y) R) \<Longrightarrow> sat (case x of None \<Rightarrow> a | Some y \<Rightarrow> b y) R"
  by (cases x) simp_all

lemma sat_case_prod: "(\<And>a b. sat (f a b) R) \<Longrightarrow> sat (case p of (a, b) \<Rightarrow> f a b) R"
  by (cases p) simp

lemma sat_forEach:
  assumes "\<And>x. sat (f x) (frame X Y)"
  shows "sat (forEach xs f) (frame X Y)"
  by (induction xs) (simp_all add: sat_return sat_bind assms)

lemma sat_logEvent:
  assumes "\<And>b c f. e \<noteq> Route b c f" "\<And>u c. e \<noteq> RegisterComponent u c"
  shows "sat (logEvent e) (frame X Y)"
  by (simp add: sat_def logEvent_def frame_log assms)

lemma sat_modify_same:
  assumes "\<And>w. trace (g w) = trace w" "\<And>w. registry (g w) = registry w"
    "\<And>w. next_cid (g w) = next_cid w"
    "\<And>w c. c_blockControlFlow (comps (g w) c) = c_blockControlFlow (comps w c)"
  shows "sat (modify g) (frame X Y)"
  by (simp add: sat_def frame_same assms)

lemma upd_node_simps [simp]:
  "trace (upd_node n g w) = trace w" "registry (upd_node n g w) = registry w"
  "next_cid (upd_node n g w) = next_cid w" "comps (upd_node n g w) = comps w"
  "next_nid (upd_node n g w) = next_nid w" "famous (upd_node n g w) = famous w"
  "next_fid (upd_node n g w) = next_fid w"
  by (simp_all add: upd_node_def)

lemma upd_comp_simps [simp]:
  "trace (upd_comp c g w) = trace w" "registry (upd_comp c g w) = registry w"
  "next_cid (upd_comp c g w) = next_cid w" "nodes (upd_comp c g w) = nodes w"
  "next_nid (upd_comp c g w) = next_nid w" "famous (upd_comp c g w) = famous w"
  "next_fid (upd_comp c g w) = next_fid w"
  "comps (upd_comp c g w) c' = (if c' = c then g (comps w c) else comps w c')"
  by (simp_all add: upd_comp_def)

lemma sat_removeAttribute: "sat (removeAttribute n k) (frame X Y)"
  unfolding removeAttribute_def by (rule sat_modify_same) simp_all

lemma sat_setAttribute: "sat (setAttribute n k v) (frame X Y)"
  unfolding setAttribute_def by (rule sat_modify_same) simp_all

lemma sat_getAttribute: "sat (VirtualDOM_getAttribute n k) (frame X Y)"
  unfolding VirtualDOM_getAttribute_def by (rule sat_gets)

lemma sat_clone: "sat (VirtualDOM_clone n) (frame X Y)"
  by (rule satI) (simp add: final_def returns_def VirtualDOM_clone_def frame_same)

lemma sat_removeChildNodes: "sat (VirtualDOM_removeChildNodes n) (frame X Y)"
  unfolding VirtualDOM_removeChildNodes_def by (rule sat_modify_same) simp_all

lemma sat_Node_removeChild: "sat (Node_removeChild p n) (frame X Y)"
  unfolding Node_removeChild_def by (rule sat_modify_same) simp_all

lemma sat_Node_appendChild: "sat (Node_appendChild p n) (frame X Y)"
  unfolding Node_appendChild_def by (rule sat_modify_same) (simp_all split: option.splits)

lemma sat_removeNodeByUID: "sat (VirtualDOM_removeNodeByUID E root u) (frame X Y)"
  unfolding VirtualDOM_removeNodeByUID_def
  by (intro sat_bind sat_gets sat_case_option sat_return sat_Node_removeChild)

lemma sat_registerComponent: "sat (DataStore_registerComponent u c) (frame X Y)"
  by (rule satI) (simp add: DataStore_registerComponent_def frame_def added_def unblocked_def)

lemma sat_getComponent: "sat (DataStore_getComponent key) (frame X Y)"
  unfolding DataStore_getComponent_def by (rule sat_gets)

lemma sat_Utilities_getComponent: "sat (Utilities_getComponent n) (frame X Y)"
  unfolding Utilities_getComponent_def by (rule sat_gets)

lemma sat_addChild: "sat (FamousConnector_addChild pf) (frame X Y)"
  by (rule satI) (simp add: final_def returns_def FamousConnector_addChild_def frame_same)

lemma sat_Famous_removeChild: "sat (Famous_removeChild pf f) (frame X Y)"
  unfolding Famous_removeChild_def by (rule sat_modify_same) simp_all

lemma sat_Tree_new: "sat (Tree_new E d t deps p) (frame X Y)"
  unfolding Tree_new_def by (intro sat_bind sat_Node_appendChild sat_return)

lemma sat_Tree_setExpandedBlueprint: "sat (Tree_setExpandedBlueprint c bp) (frame X Y)"
  unfolding Tree_setExpandedBlueprint_def by (rule sat_modify_same) simp_all

lemma sat_Tree_setChildrenRoot: "sat (Tree_setChildrenRoot c r) (frame X Y)"
  unfolding Tree_setChildrenRoot_def by (rule sat_modify_same) simp_all

lemma sat_Tree_getExpandedBlueprint: "sat (Tree_getExpandedBlueprint c) (frame X Y)"
  unfolding Tree_getExpandedBlueprint_def by (rule sat_gets)

lemma sat_States_getNames: "sat (States_getNames c) (frame X Y)"
  unfolding States_getNames_def by (rule sat_gets)

lemma sat_annotate: "sat (annotate E root marks) (frame X Y)"
  unfolding annotate_def by (intro sat_bind sat_gets sat_forEach sat_case_prod sat_setAttribute)

lemma sat_getProp: "sat (getProp j k) (frame X Y)"
  by (cases j) (simp_all add: sat_return sat_throw)

lemma sat_parseJSON: "sat (parseJSON E s) (frame X Y)"
  unfolding parseJSON_def by (intro sat_case_option sat_return sat_throw)

lemmas sat_prims =
  sat_return sat_throw sat_gets sat_removeAttribute sat_setAttribute sat_getAttribute sat_clone
  sat_removeChildNodes sat_Node_removeChild sat_Node_appendChild sat_removeNodeByUID
  sat_registerComponent sat_getComponent sat_Utilities_getComponent sat_addChild
  sat_Famous_removeChild sat_Tree_new sat_Tree_setExpandedBlueprint sat_Tree_setChildrenRoot
  sat_Tree_getExpandedBlueprint sat_States_getNames sat_annotate sat_getProp
  sat_parseJSON

lemmas sat_struct = sat_bind sat_if sat_case_option sat_case_prod sat_forEach

subsection \<open>The methods keep it\<close>

lemma sat_mono: "sat m (frame X Y) \<Longrightarrow> X \<subseteq> X' \<Longrightarrow> Y \<subseteq> Y' \<Longrightarrow> sat m (frame X' Y')"
  unfolding sat_def by (blast intro: frame_mono)

lemma good_Component: "good K \<Longrightarrow> sat (k_Component K d s p) (frame X Y)"
  unfolding good_def by (rule sat_mono [of _ "{}" "{}"]) auto

lemma good_run_True: "good K \<Longrightarrow> c \<in> X \<Longrightarrow> sat (k_runBehaviors K c True) (frame X Y)"
  unfolding good_def by (rule sat_mono [of _ "{c}" "{}"]) auto

lemma good_run_False: "good K \<Longrightarrow> c \<in> X \<Longrightarrow> c \<in> Y \<Longrightarrow> sat (k_runBehaviors K c False) (frame X Y)"
  unfolding good_def by (rule sat_mono [of _ "{c}" "{c}"]) auto

lemma sat_getRootNode: "sat (getRootNode c) (frame X Y)"
  unfolding getRootNode_def by (rule sat_gets)

lemma sat_getParentComponent: "sat (getParentComponent E c) (frame X Y)"
  unfolding getParentComponent_def by (intro sat_bind sat_getRootNode sat_gets)

lemma sat_sendMessage: "sat (sendMessage c key message) (frame X Y)"
  unfolding sendMessage_def
  by (intro sat_bind sat_gets sat_logEvent sat_Tree_getExpandedBlueprint) simp_all

lemma sat_remove: "sat (remove E c) (frame X Y)"
  unfolding remove_def
  by (intro sat_struct sat_prims sat_logEvent sat_getParentComponent sat_getRootNode) simp_all

lemma sat_processControlFlowMessage:
  "good K \<Longrightarrow> sat (processControlFlowMessage K E node bp) (frame X Y)"
  unfolding processControlFlowMessage_def
  by (intro sat_struct sat_prims sat_remove good_Component)

lemma sat_loop:
  "good K \<Longrightarrow> sat (processControlFlowMessages_loop K E bp ns created) (frame X Y)"
  by (induction ns arbitrary: created)
     (simp_all add: sat_return sat_bind sat_processControlFlowMessage sat_removeAttribute)

lemma sat_processControlFlowMessages:
  "good K \<Longrightarrow> c \<in> X \<Longrightarrow> sat (processControlFlowMessages K E c) (frame X Y)"
  unfolding processControlFlowMessages_def
  by (intro sat_struct sat_prims sat_loop good_run_True)

lemma sat_processDynamicRepeat:
  "good K \<Longrightarrow> c \<in> X \<Longrightarrow> sat (processDynamicRepeat K E c b) (frame X Y)"
  unfolding processDynamicRepeat_def
  by (intro sat_struct sat_prims sat_logEvent sat_processControlFlowMessages) simp_all

lemma sat_processDynamicIf:
  "good K \<Longrightarrow> c \<in> X \<Longrightarrow> sat (processDynamicIf K E c b) (frame X Y)"
  unfolding processDynamicIf_def
  by (intro sat_struct sat_prims sat_logEvent sat_processControlFlowMessages) simp_all

lemma route_blocked:
  "c_blockControlFlow (comps w c) \<Longrightarrow>
   BehaviorRouter_route K E b c w =
     (case BehaviorRouter_raises E (w\<lparr>trace := trace w @ [Route b c True]\<rparr>) b c of
        Some e \<Rightarrow> Inl (e, w\<lparr>trace := trace w @ [Route b c True]\<rparr>)
      | None \<Rightarrow> Inr ((), w\<lparr>trace := trace w @ [Route b c True]\<rparr>))"
  by (simp add: BehaviorRouter_route_def bind_gets bind_logEvent return_def throw_def
      split: option.splits)


lemma frame_route:
  assumes "c \<in> X" "f = c_blockControlFlow (comps w c)"
  shows "frame X Y w r (w\<lparr>trace := trace w @ [Route b c f]\<rparr>)"
  using assms by (auto simp add: frame_def added_def unblocked_def)

lemma sat_route:
  assumes "good K" "c \<in> X"
  shows "sat (BehaviorRouter_route K E b c) (frame X Y)"
proof (rule satI)
  fix w :: world
  let ?f = "c_blockControlFlow (comps w c)"
  let ?w1 = "w\<lparr>trace := trace w @ [Route b c ?f]\<rparr>"
  let ?rest = "bind (gets (\<lambda>w. BehaviorRouter_raises E w b c)) (\<lambda>failure.
     case failure of
       Some e \<Rightarrow> throw e
     | None \<Rightarrow>
         if ?f then return ()
         else (case b_kind b of
                 Repeat \<Rightarrow> processDynamicRepeat K E c b
               | Conditional \<Rightarrow> processDynamicIf K E c b
               | Custom \<Rightarrow> return ()))"
  have 1: "frame X Y w True ?w1" using assms by (simp add: frame_route)
  have k: "sat (case b_kind b of
                 Repeat \<Rightarrow> processDynamicRepeat K E c b
               | Conditional \<Rightarrow> processDynamicIf K E c b
               | Custom \<Rightarrow> return ()) (frame X Y)"
    by (cases "b_kind b") (simp_all add: sat_return sat_processDynamicRepeat sat_processDynamicIf assms)
  have "sat ?rest (frame X Y)"
    by (intro sat_bind sat_gets sat_case_option sat_throw sat_if sat_return k)
  then have 2: "frame X Y ?w1 (returns ?rest ?w1) (final ?rest ?w1)" by (rule satD)
  have e: "BehaviorRouter_route K E b c w = ?rest ?w1"
    by (simp add: BehaviorRouter_route_def bind_gets bind_logEvent)
  have "final (BehaviorRouter_route K E b c) w = final ?rest ?w1"
    "returns (BehaviorRouter_route K E b c) w = returns ?rest ?w1"
    by (simp_all add: final_def returns_def e)
  then show "frame X Y w (returns (BehaviorRouter_route K E b c) w) (final (BehaviorRouter_route K E b c) w)"
    using frame_trans [OF 1 2] by simp
qed

lemma sat_handleBehaviorUpdate:
  "good K \<Longrightarrow> c \<in> X \<Longrightarrow> sat (handleBehaviorUpdate K E c b) (frame X Y)"
  unfolding handleBehaviorUpdate_def by (rule sat_route)

lemma sat_States_set:
  "good K \<Longrightarrow> c \<in> X \<Longrightarrow> sat (States_set K E c k v) (frame X Y)"
  unfolding States_set_def
  apply (rule sat_bind)
   apply (rule sat_modify_same; simp)
  apply (rule sat_bind [OF sat_gets])
  apply (rule sat_forEach)
  subgoal for x listeners l
    by (cases l) (simp_all add: sat_return sat_handleBehaviorUpdate)
  done

text \<open>A run without argument: what it does, returning or throwing.\<close>

lemma route_blocked_Inr:
  assumes "c_blockControlFlow (comps w c)" "BehaviorRouter_route K E b c w = Inr (u, w')"
  shows "w' = w\<lparr>trace := trace w @ [Route b c True]\<rparr>"
  using assms by (auto simp add: route_blocked split: option.splits)

lemma route_blocked_Inl:
  assumes "c_blockControlFlow (comps w c)" "BehaviorRouter_route K E b c w = Inl (e, w')"
  shows "w' = w\<lparr>trace := trace w @ [Route b c True]\<rparr> \<and> BehaviorRouter_raises E w' b c = Some e"
  using assms by (auto simp add: route_blocked split: option.splits)

lemma forEach_blocked_Inr:
  assumes "c_blockControlFlow (comps w c)"
    and "forEach bs (\<lambda>b. if P b then BehaviorRouter_route K E b c else return ()) w = Inr (u, w')"
  shows "w' = w\<lparr>trace := trace w @ map (\<lambda>b. Route b c True) (filter P bs)\<rparr>"
  using assms
proof (induction bs arbitrary: w)
  case Nil
  then show ?case by (simp add: return_def)
next
  case (Cons b bs)
  show ?case
  proof (cases "P b")
    case False
    then show ?thesis using Cons.IH [OF Cons.prems(1)] Cons.prems(2) by simp
  next
    case True
    let ?w1 = "w\<lparr>trace := trace w @ [Route b c True]\<rparr>"
    from Cons.prems(2) True obtain x v where
      1: "BehaviorRouter_route K E b c w = Inr (x, v)" and
      2: "forEach bs (\<lambda>b. if P b then BehaviorRouter_route K E b c else return ()) v = Inr (u, w')"
      by (auto elim!: bind_InrE)
    have v: "v = ?w1" using Cons.prems(1) 1 by (rule route_blocked_Inr)
    have "c_blockControlFlow (comps ?w1 c)" using Cons.prems(1) by simp
    from Cons.IH [OF this] 2 v show ?thesis using True by simp
  qed
qed

lemma forEach_blocked_Inl:
  assumes "c_blockControlFlow (comps w c)"
    and "forEach bs (\<lambda>b. if P b then BehaviorRouter_route K E b c else return ()) w = Inl (e, w')"
  shows "\<exists>k < length (filter P bs).
           w' = w\<lparr>trace := trace w @ map (\<lambda>b. Route b c True) (take (Suc k) (filter P bs))\<rparr> \<and>
           BehaviorRouter_raises E w' (filter P bs ! k) c = Some e"
  using assms
proof (induction bs arbitrary: w)
  case Nil
  then show ?case by (simp add: return_def)
next
  case (Cons b bs)
  show ?case
  proof (cases "P b")
    case False
    then show ?thesis using Cons.IH [OF Cons.prems(1)] Cons.prems(2) by simp
  next
    case True
    let ?w1 = "w\<lparr>trace := trace w @ [Route b c True]\<rparr>"
    from Cons.prems(2) True
    consider (first) "BehaviorRouter_route K E b c w = Inl (e, w')"
      | (later) x v where "BehaviorRouter_route K E b c w = Inr (x, v)"
          "forEach bs (\<lambda>b. if P b then BehaviorRouter_route K E b c else return ()) v = Inl (e, w')"
      by (auto elim!: bind_InlE)
    then show ?thesis
    proof cases
      case first
      from route_blocked_Inl [OF Cons.prems(1) first] show ?thesis
        using True by (intro exI [of _ 0]) auto
    next
      case later
      have v: "v = ?w1" using Cons.prems(1) later(1) by (rule route_blocked_Inr)
      have "c_blockControlFlow (comps ?w1 c)" using Cons.prems(1) by simp
      from Cons.IH [OF this] later(2) v obtain k where
        k: "k < length (filter P bs)"
           "w' = ?w1\<lparr>trace := trace ?w1 @ map (\<lambda>b. Route b c True) (take (Suc k) (filter P bs))\<rparr>"
           "BehaviorRouter_raises E w' (filter P bs ! k) c = Some e"
        by auto
      show ?thesis
        using True k by (intro exI [of _ "Suc k"]) simp
    qed
  qed
qed

lemma runBehaviors_False_eq:
  "runBehaviors K E c False w =
     bind (forEach (c_behaviors (comps w c))
             (\<lambda>b. if eligible w c b then BehaviorRouter_route K E b c else return ()))
          (\<lambda>_. setBlockControlFlow c False)
          (upd_comp c (\<lambda>x. x\<lparr>c_blockControlFlow := True\<rparr>) w)"
  unfolding runBehaviors_def
  by (simp add: setBlockControlFlow_def bind_modify bind_gets States_getNames_def eligible_def [abs_def])

lemma runBehaviors_False_Inr:
  assumes "runBehaviors K E c False w = Inr (u, w')"
  shows "w' = upd_comp c (\<lambda>x. x\<lparr>c_blockControlFlow := False\<rparr>)
              (w\<lparr>trace := trace w @ map (\<lambda>b. Route b c True) (routed w c)\<rparr>)"
proof -
  let ?w1 = "upd_comp c (\<lambda>x. x\<lparr>c_blockControlFlow := True\<rparr>) w"
  have b: "c_blockControlFlow (comps ?w1 c)" by simp
  from assms obtain x v where
    1: "forEach (c_behaviors (comps w c))
          (\<lambda>b. if eligible w c b then BehaviorRouter_route K E b c else return ()) ?w1 = Inr (x, v)" and
    2: "setBlockControlFlow c False v = Inr (u, w')"
    unfolding runBehaviors_False_eq by (rule bind_InrE)
  from forEach_blocked_Inr [OF b 1]
  have "v = ?w1\<lparr>trace := trace ?w1 @ map (\<lambda>b. Route b c True) (routed w c)\<rparr>"
    by (simp add: routed_def)
  then show ?thesis using 2
    by (auto simp add: setBlockControlFlow_def modify_def upd_comp_def)
qed

lemma runBehaviors_False_Inl:
  assumes "runBehaviors K E c False w = Inl (e, w')"
  shows "\<exists>k < length (routed w c).
          w' = upd_comp c (\<lambda>x. x\<lparr>c_blockControlFlow := True\<rparr>)
                 (w\<lparr>trace := trace w @ map (\<lambda>b. Route b c True) (take (Suc k) (routed w c))\<rparr>) \<and>
          BehaviorRouter_raises E w' (routed w c ! k) c = Some e"
proof -
  let ?w1 = "upd_comp c (\<lambda>x. x\<lparr>c_blockControlFlow := True\<rparr>) w"
  have b: "c_blockControlFlow (comps ?w1 c)" by simp
  from assms have
    1: "forEach (c_behaviors (comps w c))
          (\<lambda>b. if eligible w c b then BehaviorRouter_route K E b c else return ()) ?w1 = Inl (e, w')"
    unfolding runBehaviors_False_eq
    by (auto elim!: bind_InlE simp add: setBlockControlFlow_def modify_def)
  from forEach_blocked_Inl [OF b 1] obtain k where
    k: "k < length (routed w c)"
       "w' = ?w1\<lparr>trace := trace ?w1 @ map (\<lambda>b. Route b c True) (take (Suc k) (routed w c))\<rparr>"
       "BehaviorRouter_raises E w' (routed w c ! k) c = Some e"
    by (auto simp add: routed_def)
  show ?thesis
    using k by (intro exI [of _ k]) (simp add: upd_comp_def)
qed

lemma sat_setBlock_False: "sat (setBlockControlFlow c False) (frame X Y)"
  by (rule satI) (auto simp add: setBlockControlFlow_def frame_def added_def unblocked_def)

lemma sat_runBehaviors_True:
  "good K \<Longrightarrow> c \<in> X \<Longrightarrow> sat (runBehaviors K E c True) (frame X Y)"
  unfolding runBehaviors_def
  by (simp, intro sat_struct sat_prims sat_route sat_setBlock_False)

lemma foldl_apply_event_routes [simp]:
  "foldl apply_event r (map (\<lambda>b. Route b c f) bs) = r"
  by (induction bs) simp_all

lemma sat_runBehaviors_False:
  assumes "c \<in> X" "c \<in> Y"
  shows "sat (runBehaviors K E c False) (frame X Y)"
proof (rule satI)
  fix w :: world
  show "frame X Y w (returns (runBehaviors K E c False) w) (final (runBehaviors K E c False) w)"
  proof (cases "runBehaviors K E c False w")
    case (Inr xw)
    obtain x w' where xw: "xw = (x, w')" by (cases xw)
    have "runBehaviors K E c False w = Inr (x, w')" using Inr xw by simp
    from runBehaviors_False_Inr [OF this] Inr xw
    show ?thesis using assms
      by (auto simp add: final_def returns_def frame_def added_def unblocked_def)
  next
    case (Inl ew)
    obtain e w' where ew: "ew = (e, w')" by (cases ew)
    have "runBehaviors K E c False w = Inl (e, w')" using Inl ew by simp
    from runBehaviors_False_Inl [OF this] obtain k where
      "w' = upd_comp c (\<lambda>x. x\<lparr>c_blockControlFlow := True\<rparr>)
                 (w\<lparr>trace := trace w @ map (\<lambda>b. Route b c True) (take (Suc k) (routed w c))\<rparr>)"
      by auto
    then show ?thesis using assms Inl ew
      by (auto simp add: final_def returns_def frame_def added_def unblocked_def)
  qed
qed

lemma sat_executeAttachments: "sat (executeAttachments E c) (frame X Y)"
  unfolding executeAttachments_def
  by (intro sat_struct sat_prims sat_sendMessage)

lemma sat_setEventListeners: "sat (setEventListeners c) (frame X Y)"
  unfolding setEventListeners_def
  by (intro sat_struct sat_prims sat_logEvent sat_modify_same) simp_all

lemma sat_createChild: "good K \<Longrightarrow> sat (createChild K d s p) (frame X Y)"
  unfolding createChild_def by (rule good_Component)

lemma sat_updateChildren: "good K \<Longrightarrow> sat (updateChildren K E c r) (frame X Y)"
  unfolding updateChildren_def
  by (intro sat_struct sat_prims sat_createChild)

lemma sat_initializeControlFlow: "good K \<Longrightarrow> sat (initializeControlFlow K E c) (frame X Y)"
  unfolding initializeControlFlow_def
  by (intro sat_struct sat_prims sat_logEvent sat_updateChildren sat_getRootNode) simp_all

lemma sat_processDOMMessages:
  "good K \<Longrightarrow> c \<in> X \<Longrightarrow> sat (processDOMMessages K E c) (frame X Y)"
  unfolding processDOMMessages_def
  by (intro sat_struct sat_prims sat_logEvent sat_getRootNode sat_States_set) simp_all

lemma sat_initialize:
  "good K \<Longrightarrow> c \<in> X \<Longrightarrow> c \<in> Y \<Longrightarrow> sat (initialize K E c) (frame X Y)"
  unfolding initialize_def
  by (intro sat_struct sat_prims sat_logEvent sat_initializeControlFlow sat_processDOMMessages
        good_run_False sat_executeAttachments) simp_all

lemma sat_parent_tree_rootNode: "sat (parent_tree_rootNode p) (frame X Y)"
  unfolding parent_tree_rootNode_def
  by (auto split: option.splits parent.splits simp add: sat_throw sat_gets sat_return)

lemma sat_parent_famousNode: "sat (parent_famousNode p) (frame X Y)"
  unfolding parent_famousNode_def
  by (auto split: option.splits parent.splits simp add: sat_throw sat_gets sat_return)

lemma sat_bind_storeComponent:
  assumes f: "\<And>this. sat (f this) (frame {this} {this})"
    and x: "\<not> c_blockControlFlow x"
  shows "sat (bind (storeComponent x) f) (frame X Y)"
proof (rule satI)
  fix w :: world
  let ?w1 = "w\<lparr>comps := (comps w)(next_cid w := x), next_cid := Suc (next_cid w)\<rparr>"
  have 1: "frame X Y w True ?w1"
    using x by (simp add: frame_def added_def unblocked_def)
  have 2: "frame {next_cid w} {next_cid w} ?w1 (returns (f (next_cid w)) ?w1) (final (f (next_cid w)) ?w1)"
    using f by (rule satD)
  have "final (bind (storeComponent x) f) w = final (f (next_cid w)) ?w1"
    "returns (bind (storeComponent x) f) w = returns (f (next_cid w)) ?w1"
    by (simp_all add: final_bind returns_bind storeComponent_def)
  then show "frame X Y w (returns (bind (storeComponent x) f) w) (final (bind (storeComponent x) f) w)"
    using frame_compose [OF 1 2] by simp
qed

lemma sat_Component:
  assumes "good K"
  shows "sat (Component K E d s p) (frame X Y)"
  unfolding Component_def Let_def
  apply (rule sat_bind [OF sat_gets])
  apply (rule sat_bind)
   apply (rule sat_if)
    apply (rule sat_logEvent; simp)
   apply (rule sat_return)
  apply (rule sat_bind)
   apply (rule sat_case_option)
    apply (rule sat_throw)
   apply (rule sat_return)
  apply (rule sat_bind [OF sat_parent_tree_rootNode])
  apply (rule sat_bind [OF sat_Tree_new])
  apply (rule sat_bind [OF sat_parent_famousNode])
  apply (rule sat_bind [OF sat_addChild])
  apply (rule sat_bind_storeComponent)
   apply (intro sat_bind sat_registerComponent sat_setEventListeners sat_initialize sat_return assms)
    apply simp_all
  done

lemma good_methods: "good (methods E n)"
proof (induction n)
  case 0
  then show ?case by (simp add: good_def sat_throw)
next
  case (Suc n)
  then show ?case
    by (simp add: good_def sat_Component sat_runBehaviors_True sat_runBehaviors_False)
qed

subsection \<open>The shape of a construction\<close>

lemma listener_step:
  "bind (logEvent e) (\<lambda>_. modify g) w = Inr ((), g (w\<lparr>trace := trace w @ [e]\<rparr>))"
  by (simp add: bind_def logEvent_def modify_def)

lemma forEach_listeners:
  "forEach bs (\<lambda>item. bind (logEvent (CreateBehaviorListener c item))
       (\<lambda>_. modify (upd_comp c (\<lambda>x. x\<lparr>c_listeners := c_listeners x @ [BehaviorListener item]\<rparr>)))) w =
   Inr ((), upd_comp c (\<lambda>x. x\<lparr>c_listeners := c_listeners x @ map BehaviorListener bs\<rparr>)
              (w\<lparr>trace := trace w @ map (CreateBehaviorListener c) bs\<rparr>))"
proof (induction bs arbitrary: w)
  case Nil
  then show ?case by (simp add: return_def upd_comp_def)
next
  case (Cons b bs)
  show ?case
    apply (simp only: forEach.simps)
    apply (subst bind_Inr [OF listener_step])
    apply (subst Cons.IH)
    apply (simp add: upd_comp_def)
    done
qed

lemma setEventListeners_eq:
  "setEventListeners c w =
   Inr ((), upd_comp c (\<lambda>x. x\<lparr>c_listeners := c_listeners x @ OnBehaviorUpdate # map BehaviorListener (c_behaviors x)\<rparr>)
              (w\<lparr>trace := trace w @ StatesOn c ''behavior-update'' # map (CreateBehaviorListener c) (c_behaviors (comps w c))\<rparr>))"
  by (simp add: setEventListeners_def bind_logEvent bind_modify bind_gets forEach_listeners)
     (simp add: upd_comp_def)

lemma Tree_new_eq:
  "Tree_new E d t deps pr w =
     Inr (\<lparr>t_rootNode = d, t_blueprint = Tree_blueprint E d t deps,
           t_expandedBlueprint = None, t_childrenRoot = None\<rparr>,
          upd_node d (\<lambda>x. x\<lparr>n_parentNode := Some pr\<rparr>)
            (upd_node pr (\<lambda>x. x\<lparr>n_childNodes := n_childNodes x @ [d]\<rparr>)
               (case n_parentNode (nodes w d) of
                  None \<Rightarrow> w
                | Some q \<Rightarrow> upd_node q (\<lambda>x. x\<lparr>n_childNodes := removeAll d (n_childNodes x)\<rparr>) w)))"
  by (simp add: Tree_new_def Node_appendChild_def bind_modify return_def)

lemma parent_tree_rootNode_Inr: "parent_tree_rootNode p w = Inr (r, w1) \<Longrightarrow> w1 = w"
  by (auto simp add: parent_tree_rootNode_def throw_def gets_def return_def split: option.splits parent.splits)

lemma parent_famousNode_Inr: "parent_famousNode p w = Inr (r, w1) \<Longrightarrow> w1 = w"
  by (auto simp add: parent_famousNode_def throw_def gets_def return_def split: option.splits parent.splits)

lemma Component_InrD:
  assumes "Component K E d s p w = Inr (c, w')"
  shows "\<exists>defn w2. initialize K E c w2 = Inr ((), w') \<and> c = next_cid w \<and> next_cid w2 = Suc c \<and>
           trace w2 = trace w @ RegisterComponent (n_uid (nodes w d)) c # StatesOn c ''behavior-update'' #
                        map (CreateBehaviorListener c) (d_behaviors defn) \<and>
           registry w2 = (registry w)(n_uid (nodes w d) \<mapsto> c) \<and>
           c_uid (comps w2 c) = n_uid (nodes w d) \<and>
           c_behaviors (comps w2 c) = d_behaviors defn \<and>
           c_states (comps w2 c) = d_states defn \<and>
           DataStore_getModule E (toLowerCase E (n_tagName (nodes w d))) (n_tag (nodes w d)) = Some defn \<and>
           next_nid w2 = next_nid w \<and>
           (\<forall>k. n_attributes (nodes w2 k) = n_attributes (nodes w k)) \<and>
           (\<forall>k. k \<noteq> c \<longrightarrow> comps w2 k = comps w k) \<and>
           t_rootNode (c_tree (comps w2 c)) = d"
proof -
  let ?name = "toLowerCase E (n_tagName (nodes w d))"
  let ?tag = "n_tag (nodes w d)"
  obtain defn where defn: "DataStore_getModule E ?name ?tag = Some defn"
    using assms
    by (cases "DataStore_getModule E ?name ?tag")
       (simp_all add: Component_def bind_gets Let_def bind_logEvent throw_def)
  show ?thesis
    using assms unfolding Component_def Let_def
    apply (elim bind_InrE)
    apply (clarsimp simp add: defn gets_def return_def Tree_new_eq
        FamousConnector_addChild_def storeComponent_def DataStore_registerComponent_def
        modify_def setEventListeners_eq
        dest!: parent_tree_rootNode_Inr parent_famousNode_Inr)
    apply (rule exI, rule conjI, assumption)
    apply (simp add: upd_comp_def upd_node_def split: option.splits)
    done
qed

lemma foldl_apply_event_last:
  assumes "\<And>c'. RegisterComponent u c' \<in> set ys \<Longrightarrow> c' = c"
  shows "foldl apply_event r ys u = (if \<exists>c'. RegisterComponent u c' \<in> set ys then Some c else r u)"
  using assms
proof (induction ys arbitrary: r)
  case Nil
  then show ?case by simp
next
  case (Cons e ys)
  have ih: "foldl apply_event (apply_event r e) ys u =
      (if \<exists>c'. RegisterComponent u c' \<in> set ys then Some c else apply_event r e u)"
    by (rule Cons.IH) (simp add: Cons.prems)
  show ?case
  proof (cases e)
    case (RegisterComponent u' c')
    then show ?thesis using ih Cons.prems [of c'] by auto
  qed (use ih in auto)
qed

lemma frameD_trace: "frame X Y w r w' \<Longrightarrow> trace w' = trace w @ added w w'"
  by (simp add: frame_def)

lemma frameD_registry: "frame X Y w r w' \<Longrightarrow> registry w' = foldl apply_event (registry w) (added w w')"
  by (simp add: frame_def)

lemma frameD_routes: "frame X Y w r w' \<Longrightarrow> Route b c f \<in> set (added w w') \<Longrightarrow> c \<in> X \<or> next_cid w \<le> c"
  unfolding frame_def by blast


lemma frameD_unblocked: "frame X Y w True w' \<Longrightarrow> unblocked w \<Longrightarrow> unblocked w'"
  by (simp add: frame_def)

lemma frameD_calm:
  "frame X Y w r w' \<Longrightarrow> unblocked w \<Longrightarrow> Route b c True \<in> set (added w w') \<Longrightarrow> c \<in> Y \<or> next_cid w \<le> c"
  unfolding frame_def by blast

lemma final_frame: "sat m (frame X Y) \<Longrightarrow> m w = Inr (x, w') \<Longrightarrow> frame X Y w True w'"
  by (rule sat_Inr)

lemma added_cons: "trace w' = trace w @ ys \<Longrightarrow> added w w' = ys"
  by (simp add: added_def)

lemma added_trans:
  assumes "trace w1 = trace w @ added w w1" "trace w2 = trace w1 @ added w1 w2"
  shows "added w w2 = added w w1 @ added w1 w2"
proof -
  have "trace w2 = trace w @ (added w w1 @ added w1 w2)" using assms by simp
  then show ?thesis by (rule added_append)
qed

lemma initialize_InrD:
  assumes "initialize K E c w = Inr ((), w')"
  shows "\<exists>w3 w4 w5 w6.
           initializeControlFlow K E c (w\<lparr>trace := trace w @ [TriggerLifecycleEvent PRELOAD_KEY (c_uid (comps w c))]\<rparr>) = Inr ((), w3) \<and>
           processDOMMessages K E c w3 = Inr ((), w4) \<and>
           k_runBehaviors K c False w4 = Inr ((), w5) \<and>
           executeAttachments E c w5 = Inr ((), w6) \<and>
           w' = w6\<lparr>trace := trace w6 @ [InitializeDescendantEvents (t_expandedBlueprint (c_tree (comps w6 c))) (c_uid (comps w c)),
                                       TriggerLifecycleEvent POSTLOAD_KEY (c_uid (comps w c))]\<rparr>"
  using assms unfolding initialize_def
  apply (elim bind_InrE)
  apply (clarsimp simp add: gets_def logEvent_def modify_def Tree_getExpandedBlueprint_def)
  done

lemma k_run_False_methods:
  assumes "k_runBehaviors (methods E n) c False w = Inr ((), w')"
  shows "w' = upd_comp c (\<lambda>x. x\<lparr>c_blockControlFlow := False\<rparr>)
                (w\<lparr>trace := trace w @ map (\<lambda>b. Route b c True) (routed w c)\<rparr>)"
  using assms by (cases n) (simp_all add: throw_def runBehaviors_False_Inr)

lemma runBehaviors_returns_unblocked:
  assumes "runBehaviors K E c r w = Inr (u, w')"
  shows "\<not> c_blockControlFlow (comps w' c)"
  using assms unfolding runBehaviors_def
  by (elim bind_InrE) (auto simp add: setBlockControlFlow_def modify_def)

lemma loop_append:
  "processControlFlowMessages_loop K E bp (xs @ ys) cr =
     bind (processControlFlowMessages_loop K E bp xs cr) (\<lambda>cr'. processControlFlowMessages_loop K E bp ys cr')"
proof (induction xs arbitrary: cr)
  case Nil
  then show ?case by simp
next
  case (Cons x xs)
  show ?case
    by (rule ext) (simp add: Cons.IH bind_def split: sum.splits)
qed

lemma map_of_assign: "map_of (assign k v ps) k' = (if k' = k then Some v else map_of ps k')"
  by (induction ps) auto

lemma parseJSON_Inr: "parseJSON E s w = Inr (x, w') \<Longrightarrow> w' = w \<and> JSON_parse E s = Some x"
  by (auto simp add: parseJSON_def throw_def return_def split: option.splits)

lemma getProp_Inr: "getProp j k w = Inr (x, w') \<Longrightarrow> w' = w"
  by (cases j) (auto simp add: throw_def return_def)

subsection \<open>What a run that returns leaves alone\<close>

lemma keeps_refl: "keeps D C w w"
  by (simp add: keeps_def)

lemma keeps_trans:
  assumes a: "keeps D C w w1" and b: "keeps D C w1 w2"
  shows "keeps D C w w2"
proof -
  have n: "next_nid w \<le> next_nid w1" and c: "next_cid w \<le> next_cid w1"
    using a by (simp_all add: keeps_def)
  have n2: "next_nid w1 \<le> next_nid w2" and c2: "next_cid w1 \<le> next_cid w2"
    using b by (simp_all add: keeps_def)
  have 1: "n_attributes (nodes w2 k) REPEAT_INFO_KEY = n_attributes (nodes w k) REPEAT_INFO_KEY"
    if "k < next_nid w" "k \<notin> D" for k
  proof -
    have "k < next_nid w1" using that n by simp
    then have "n_attributes (nodes w2 k) REPEAT_INFO_KEY = n_attributes (nodes w1 k) REPEAT_INFO_KEY"
      using b that by (simp add: keeps_def)
    also have "\<dots> = n_attributes (nodes w k) REPEAT_INFO_KEY"
      using a that by (simp add: keeps_def)
    finally show ?thesis .
  qed
  have 4: "n_attributes (nodes w2 k) CONTROL_FLOW_ACTION_KEY = None"
    if "k < next_nid w" "n_attributes (nodes w k) CONTROL_FLOW_ACTION_KEY = None" for k
  proof -
    have "k < next_nid w1" using that n by simp
    moreover have "n_attributes (nodes w1 k) CONTROL_FLOW_ACTION_KEY = None"
      using a that by (simp add: keeps_def)
    ultimately show ?thesis using b by (simp add: keeps_def)
  qed
  have 2: "t_rootNode (c_tree (comps w2 k)) = t_rootNode (c_tree (comps w k)) \<and>
           c_uid (comps w2 k) = c_uid (comps w k)"
    if "k < next_cid w" for k
  proof -
    have "k < next_cid w1" using that c by simp
    then have "t_rootNode (c_tree (comps w2 k)) = t_rootNode (c_tree (comps w1 k)) \<and>
               c_uid (comps w2 k) = c_uid (comps w1 k)"
      using b by (simp add: keeps_def)
    moreover have "t_rootNode (c_tree (comps w1 k)) = t_rootNode (c_tree (comps w k)) \<and>
                   c_uid (comps w1 k) = c_uid (comps w k)"
      using a that by (simp add: keeps_def)
    ultimately show ?thesis by simp
  qed
  have 3: "c_states (comps w2 k) = c_states (comps w k)"
    if "k < next_cid w" "k \<notin> C" for k
  proof -
    have "k < next_cid w1" using that c by simp
    then have "c_states (comps w2 k) = c_states (comps w1 k)"
      using b that by (simp add: keeps_def)
    also have "\<dots> = c_states (comps w k)"
      using a that by (simp add: keeps_def)
    finally show ?thesis .
  qed
  show ?thesis
    unfolding keeps_def using n c n2 c2 1 2 3 4 by simp
qed

lemma keeps_mono:
  assumes "keeps D C w w'" and "D \<subseteq> D'" and "C \<subseteq> C'"
  shows "keeps D' C' w w'"
  using assms by (auto simp add: keeps_def)

lemma keepsD_next: "keeps D C w w' \<Longrightarrow> next_nid w \<le> next_nid w' \<and> next_cid w \<le> next_cid w'"
  by (simp add: keeps_def)

lemma keepsD_attr:
  "keeps D C w w' \<Longrightarrow> n < next_nid w \<Longrightarrow> n \<notin> D \<Longrightarrow>
   n_attributes (nodes w' n) REPEAT_INFO_KEY = n_attributes (nodes w n) REPEAT_INFO_KEY"
  by (simp add: keeps_def)

lemma keepsD_marker:
  "keeps D C w w' \<Longrightarrow> n < next_nid w \<Longrightarrow> n_attributes (nodes w n) CONTROL_FLOW_ACTION_KEY = None \<Longrightarrow>
   n_attributes (nodes w' n) CONTROL_FLOW_ACTION_KEY = None"
  by (simp add: keeps_def)

lemma keepsD_comp:
  "keeps D C w w' \<Longrightarrow> c < next_cid w \<Longrightarrow>
   t_rootNode (c_tree (comps w' c)) = t_rootNode (c_tree (comps w c)) \<and> c_uid (comps w' c) = c_uid (comps w c)"
  by (simp add: keeps_def)

lemma keepsD_states:
  "keeps D C w w' \<Longrightarrow> c < next_cid w \<Longrightarrow> c \<notin> C \<Longrightarrow> c_states (comps w' c) = c_states (comps w c)"
  by (simp add: keeps_def)

lemma retsI: "(\<And>w x w'. m w = Inr (x, w') \<Longrightarrow> R w w') \<Longrightarrow> rets m R"
  by (simp add: rets_def)

lemma retsD: "rets m R \<Longrightarrow> m w = Inr (x, w') \<Longrightarrow> R w w'"
  by (simp add: rets_def)

lemma rets_return: "rets (return x) (keeps D C)"
  by (simp add: rets_def return_def keeps_refl)

lemma rets_throw: "rets (throw e) R"
  by (simp add: rets_def throw_def)

lemma rets_gets: "rets (gets g) (keeps D C)"
  by (simp add: rets_def gets_def keeps_refl)

lemma rets_modify: "(\<And>w. keeps D C w (g w)) \<Longrightarrow> rets (modify g) (keeps D C)"
  by (simp add: rets_def modify_def)

lemma rets_bind:
  assumes "rets m (keeps D C)" and "\<And>x. rets (f x) (keeps D C)"
  shows "rets (bind m f) (keeps D C)"
proof (rule retsI)
  fix w y w'
  assume "bind m f w = Inr (y, w')"
  then obtain x w1 where 1: "m w = Inr (x, w1)" and 2: "f x w1 = Inr (y, w')"
    by (rule bind_InrE)
  from retsD [OF assms(1) 1] retsD [OF assms(2) 2] show "keeps D C w w'"
    by (rule keeps_trans)
qed

lemma rets_if: "(c \<Longrightarrow> rets a R) \<Longrightarrow> (\<not> c \<Longrightarrow> rets b R) \<Longrightarrow> rets (if c then a else b) R"
  by simp

lemma rets_case_option:
  "(x = None \<Longrightarrow> rets a R) \<Longrightarrow> (\<And>y. x = Some y \<Longrightarrow> rets (b y) R) \<Longrightarrow>
   rets (case x of None \<Rightarrow> a | Some y \<Rightarrow> b y) R"
  by (cases x) simp_all

lemma rets_case_prod: "(\<And>a b. rets (f a b) R) \<Longrightarrow> rets (case p of (a, b) \<Rightarrow> f a b) R"
  by (cases p) simp

lemma rets_forEach:
  assumes "\<And>x. rets (f x) (keeps D C)"
  shows "rets (forEach xs f) (keeps D C)"
  by (induction xs) (simp_all add: rets_return rets_bind assms)

lemma rets_logEvent: "rets (logEvent e) (keeps D C)"
  unfolding logEvent_def by (rule rets_modify) (simp add: keeps_def)

lemma rets_removeAttribute_other:
  "k \<noteq> REPEAT_INFO_KEY \<Longrightarrow> rets (removeAttribute n k) (keeps D C)"
  unfolding removeAttribute_def by (rule rets_modify) (simp add: keeps_def upd_node_def)

lemma rets_removeAttribute_in: "n \<in> D \<Longrightarrow> rets (removeAttribute n k) (keeps D C)"
  unfolding removeAttribute_def by (rule rets_modify) (auto simp add: keeps_def upd_node_def)

lemma rets_getAttribute: "rets (VirtualDOM_getAttribute n k) (keeps D C)"
  unfolding VirtualDOM_getAttribute_def by (rule rets_gets)

lemma rets_Utilities_getComponent: "rets (Utilities_getComponent n) (keeps D C)"
  unfolding Utilities_getComponent_def by (rule rets_gets)

lemma rets_Tree_setExpandedBlueprint: "rets (Tree_setExpandedBlueprint c bp) (keeps D C)"
  unfolding Tree_setExpandedBlueprint_def by (rule rets_modify) (simp add: keeps_def upd_comp_def)

lemma rets_Tree_setChildrenRoot: "rets (Tree_setChildrenRoot c r) (keeps D C)"
  unfolding Tree_setChildrenRoot_def by (rule rets_modify) (simp add: keeps_def upd_comp_def)

lemma rets_Tree_getExpandedBlueprint: "rets (Tree_getExpandedBlueprint c) (keeps D C)"
  unfolding Tree_getExpandedBlueprint_def by (rule rets_gets)

lemma rets_getRootNode: "rets (getRootNode c) (keeps D C)"
  unfolding getRootNode_def by (rule rets_gets)

lemma rets_getProp: "rets (getProp j k) (keeps D C)"
  by (cases j) (simp_all add: rets_return rets_throw)

lemma rets_parseJSON: "rets (parseJSON E s) (keeps D C)"
  unfolding parseJSON_def by (simp add: rets_return rets_throw split: option.splits)

lemma rets_sendMessage: "rets (sendMessage c key message) (keeps D C)"
  unfolding sendMessage_def
  by (intro rets_bind rets_gets rets_logEvent rets_Tree_getExpandedBlueprint)

lemma rets_executeAttachments: "rets (executeAttachments E c) (keeps D C)"
  unfolding executeAttachments_def
  by (intro rets_bind rets_forEach rets_case_option rets_gets rets_throw rets_sendMessage
      rets_Tree_getExpandedBlueprint rets_Utilities_getComponent)

lemma rets_removeChildNodes: "rets (VirtualDOM_removeChildNodes n) (keeps D C)"
  unfolding VirtualDOM_removeChildNodes_def by (rule rets_modify) (simp add: keeps_def)

lemma rets_Node_removeChild: "rets (Node_removeChild p n) (keeps D C)"
  unfolding Node_removeChild_def by (rule rets_modify) (simp add: keeps_def upd_node_def)

lemma rets_Famous_removeChild: "rets (Famous_removeChild pf f) (keeps D C)"
  unfolding Famous_removeChild_def by (rule rets_modify) (simp add: keeps_def)

lemma rets_getComponent: "rets (DataStore_getComponent key) (keeps D C)"
  unfolding DataStore_getComponent_def by (rule rets_gets)

lemma rets_getParentComponent: "rets (getParentComponent E c) (keeps D C)"
  unfolding getParentComponent_def by (intro rets_bind rets_getRootNode rets_gets)

lemma rets_removeNodeByUID: "rets (VirtualDOM_removeNodeByUID E root u) (keeps D C)"
  unfolding VirtualDOM_removeNodeByUID_def
  by (intro rets_bind rets_case_option rets_gets rets_return rets_Node_removeChild)

lemma rets_remove: "rets (remove E c) (keeps D C)"
  unfolding remove_def
  by (intro rets_bind rets_case_option rets_gets rets_return rets_throw rets_logEvent
      rets_getParentComponent rets_getRootNode rets_Node_removeChild rets_Famous_removeChild)

lemma rets_clone:
  assumes "\<And>b. rets (f b) (keeps {b} {})"
  shows "rets (bind (VirtualDOM_clone node) f) (keeps {} {})"
proof (rule retsI)
  fix w y w'
  assume "bind (VirtualDOM_clone node) f w = Inr (y, w')"
  then obtain b w1 where 1: "VirtualDOM_clone node w = Inr (b, w1)" and 2: "f b w1 = Inr (y, w')"
    by (rule bind_InrE)
  from 1 have b: "b = next_nid w" and
    w1: "w1 = w\<lparr>nodes := (nodes w)(next_nid w := (nodes w node)\<lparr>n_parentNode := None, n_childNodes := []\<rparr>),
               next_nid := Suc (next_nid w)\<rparr>"
    by (auto simp add: VirtualDOM_clone_def)
  have k: "keeps {b} {} w1 w'" using assms 2 by (rule retsD)
  show "keeps {} {} w w'"
    unfolding keeps_def
  proof (intro conjI allI impI)
    show "next_nid w \<le> next_nid w'" "next_cid w \<le> next_cid w'"
      using keepsD_next [OF k] w1 by simp_all
  next
    fix j assume j: "j < next_nid w \<and> j \<notin> {}"
    then have "n_attributes (nodes w' j) REPEAT_INFO_KEY = n_attributes (nodes w1 j) REPEAT_INFO_KEY"
      using keepsD_attr [OF k, of j] b w1 by simp
    then show "n_attributes (nodes w' j) REPEAT_INFO_KEY = n_attributes (nodes w j) REPEAT_INFO_KEY"
      using j w1 by simp
  next
    fix j assume j: "j < next_nid w \<and> n_attributes (nodes w j) CONTROL_FLOW_ACTION_KEY = None"
    then show "n_attributes (nodes w' j) CONTROL_FLOW_ACTION_KEY = None"
      using keepsD_marker [OF k, of j] w1 by simp
  next
    fix j assume j: "j < next_cid w"
    then show "t_rootNode (c_tree (comps w' j)) = t_rootNode (c_tree (comps w j))"
      "c_uid (comps w' j) = c_uid (comps w j)"
      using keepsD_comp [OF k, of j] w1 by simp_all
  next
    fix j assume j: "j < next_cid w \<and> j \<notin> {}"
    then show "c_states (comps w' j) = c_states (comps w j)"
      using keepsD_states [OF k, of j] w1 by simp
  qed
qed

lemma rets_mono: "rets m (keeps D C) \<Longrightarrow> D \<subseteq> D' \<Longrightarrow> C \<subseteq> C' \<Longrightarrow> rets m (keeps D' C')"
  unfolding rets_def by (blast intro: keeps_mono)

lemma gentle_Component: "gentle K \<Longrightarrow> d \<in> D \<Longrightarrow> rets (k_Component K d s p) (keeps D C)"
  unfolding gentle_def by (rule rets_mono [of _ "{d}" "{}"]) auto

lemma gentle_run: "gentle K \<Longrightarrow> rets (k_runBehaviors K c r) (keeps D C)"
  unfolding gentle_def by (rule rets_mono [of _ "{}" "{}"]) auto

lemma rets_setBlockControlFlow: "rets (setBlockControlFlow c v) (keeps D C)"
  unfolding setBlockControlFlow_def by (rule rets_modify) (simp add: keeps_def upd_comp_def)

lemma rets_States_getNames: "rets (States_getNames c) (keeps D C)"
  unfolding States_getNames_def by (rule rets_gets)

lemma rets_processControlFlowMessage:
  assumes K: "gentle K"
  shows "rets (processControlFlowMessage K E node bp) (keeps {} {})"
  unfolding processControlFlowMessage_def
  apply (rule rets_bind [OF rets_getAttribute])
  apply (rule rets_if)
   apply (rule rets_bind [OF rets_parseJSON])
   apply (rule rets_bind [OF rets_getProp])
   apply (rule rets_if)
    apply (rule rets_clone)
    apply (rule rets_bind [OF rets_removeChildNodes])
    apply (rule rets_bind [OF rets_removeAttribute_in])
     apply simp
    apply (rule rets_bind [OF rets_getProp])
    apply (rule rets_bind [OF rets_getComponent])
    apply (rule rets_bind)
     apply (rule gentle_Component [OF K])
     apply simp
    apply (rule rets_return)
   apply (rule rets_if)
    apply (intro rets_bind rets_case_option rets_gets rets_return rets_throw rets_remove
      rets_removeNodeByUID rets_Utilities_getComponent)
   apply (rule rets_throw)
  apply (rule rets_return)
  done

lemma loop_markers:
  assumes K: "gentle K"
  shows "processControlFlowMessages_loop K E bp ns cr w = Inr (cr', w') \<Longrightarrow>
         keeps {} {} w w' \<and>
         (\<forall>n\<in>set ns. n < next_nid w \<longrightarrow> n_attributes (nodes w' n) CONTROL_FLOW_ACTION_KEY = None)"
proof (induction ns arbitrary: cr w)
  case Nil
  then show ?case by (simp add: return_def keeps_refl)
next
  case (Cons n ns)
  from Cons.prems(1) obtain res w1 w2 where
    1: "processControlFlowMessage K E n bp w = Inr (res, w1)" and
    2: "removeAttribute n CONTROL_FLOW_ACTION_KEY w1 = Inr ((), w2)" and
    3: "processControlFlowMessages_loop K E bp ns (if cr = None then res else cr) w2 = Inr (cr', w')"
    by (auto elim!: bind_InrE)
  have k1: "keeps {} {} w w1" using rets_processControlFlowMessage [OF K] 1 by (rule retsD)
  have k2: "keeps {} {} w1 w2"
    using rets_removeAttribute_other 2 by (rule retsD) simp
  have k12: "keeps {} {} w w2" using k1 k2 by (rule keeps_trans)
  from Cons.IH [OF 3] have k3: "keeps {} {} w2 w'" and
    m: "\<forall>m\<in>set ns. m < next_nid w2 \<longrightarrow> n_attributes (nodes w' m) CONTROL_FLOW_ACTION_KEY = None"
    by simp_all
  have n2: "next_nid w \<le> next_nid w2" using keepsD_next [OF k12] by simp
  have "n_attributes (nodes w2 n) CONTROL_FLOW_ACTION_KEY = None"
    using 2 by (auto simp add: removeAttribute_def modify_def upd_node_def)
  then have "n < next_nid w \<longrightarrow> n_attributes (nodes w' n) CONTROL_FLOW_ACTION_KEY = None"
    using keepsD_marker [OF k3, of n] n2 by simp
  moreover have "\<forall>m\<in>set ns. m < next_nid w \<longrightarrow> n_attributes (nodes w' m) CONTROL_FLOW_ACTION_KEY = None"
    using m n2 by auto
  ultimately show ?case using keeps_trans [OF k12 k3] by simp
qed

lemma rets_loop:
  "gentle K \<Longrightarrow> rets (processControlFlowMessages_loop K E bp ns cr) (keeps {} {})"
  by (rule retsI) (simp add: loop_markers)

lemma rets_processControlFlowMessages:
  assumes K: "gentle K"
  shows "rets (processControlFlowMessages K E c) (keeps {} {})"
  unfolding processControlFlowMessages_def
  by (intro rets_bind rets_Tree_getExpandedBlueprint rets_gets rets_loop rets_if gentle_run
      rets_return K)

lemma forEach_setAttribute:
  "forEach ms (\<lambda>(n, s). setAttribute n k s) w = Inr (u, w') \<Longrightarrow>
     next_nid w' = next_nid w \<and> next_cid w' = next_cid w \<and> comps w' = comps w \<and>
     (\<forall>n. n_childNodes (nodes w' n) = n_childNodes (nodes w n)) \<and>
     (\<forall>n k'. k' \<noteq> k \<longrightarrow> n_attributes (nodes w' n) k' = n_attributes (nodes w n) k') \<and>
     (\<forall>n. n \<notin> fst ` set ms \<longrightarrow> n_attributes (nodes w' n) k = n_attributes (nodes w n) k)"
proof (induction ms arbitrary: w)
  case Nil
  then show ?case by (simp add: return_def)
next
  case (Cons m ms)
  obtain n s where m: "m = (n, s)" by (cases m)
  let ?w1 = "upd_node n (\<lambda>x. x\<lparr>n_attributes := (n_attributes x)(k \<mapsto> s)\<rparr>) w"
  from Cons.prems have "forEach ms (\<lambda>(n, s). setAttribute n k s) ?w1 = Inr (u, w')"
    by (simp add: m setAttribute_def bind_modify)
  from Cons.IH [OF this] show ?case
    by (simp add: m upd_node_def)
qed

lemma annotate_Inr:
  assumes "annotate E root marks w = Inr (u, w')"
  shows "next_nid w' = next_nid w \<and> next_cid w' = next_cid w \<and> comps w' = comps w \<and>
     (\<forall>n. n_childNodes (nodes w' n) = n_childNodes (nodes w n)) \<and>
     (\<forall>n k'. k' \<noteq> CONTROL_FLOW_ACTION_KEY \<longrightarrow> n_attributes (nodes w' n) k' = n_attributes (nodes w n) k') \<and>
     (\<forall>n. n \<notin> set (VirtualDOM_under E (\<lambda>n. n_childNodes (nodes w n)) root) \<longrightarrow>
          n_attributes (nodes w' n) CONTROL_FLOW_ACTION_KEY = n_attributes (nodes w n) CONTROL_FLOW_ACTION_KEY)"
proof -
  let ?under = "VirtualDOM_under E (\<lambda>n. n_childNodes (nodes w n)) root"
  from assms have "forEach (filter (\<lambda>(n, s). n \<in> set ?under) marks)
      (\<lambda>(n, s). setAttribute n CONTROL_FLOW_ACTION_KEY s) w = Inr (u, w')"
    by (simp add: annotate_def bind_gets)
  from forEach_setAttribute [OF this] show ?thesis
    by (auto simp add: image_iff)
qed

lemma annotate_scan_keeps:
  assumes K: "gentle K"
    and a: "annotate E (t_expandedBlueprint (c_tree (comps w c))) marks w = Inr (x, wa)"
    and s: "processControlFlowMessages K E c wa = Inr (u, w')"
  shows "keeps {} {} w w'"
proof -
  let ?bp = "t_expandedBlueprint (c_tree (comps w c))"
  let ?under = "VirtualDOM_under E (\<lambda>n. n_childNodes (nodes w n)) ?bp"
  note f = annotate_Inr [OF a]
  have ch: "(\<lambda>n. n_childNodes (nodes wa n)) = (\<lambda>n. n_childNodes (nodes w n))"
    using f by (intro ext) simp
  have bp: "t_expandedBlueprint (c_tree (comps wa c)) = ?bp" using f by simp
  let ?ns = "VirtualDOM_queryAttribute E wa ?bp CONTROL_FLOW_ACTION_KEY"
  from s obtain cr w1 where
    l: "processControlFlowMessages_loop K E ?bp ?ns None wa = Inr (cr, w1)" and
    r: "(if cr \<noteq> None then k_runBehaviors K c True else return ()) w1 = Inr (u, w')"
    unfolding processControlFlowMessages_def
    by (auto elim!: bind_InrE simp add: Tree_getExpandedBlueprint_def gets_def bp)
  from loop_markers [OF K l] have k1: "keeps {} {} wa w1" and
    m: "\<forall>n\<in>set ?ns. n < next_nid wa \<longrightarrow> n_attributes (nodes w1 n) CONTROL_FLOW_ACTION_KEY = None"
    by simp_all
  have k2: "keeps {} {} w1 w'"
    using r gentle_run [OF K, of c True "{}" "{}"]
    by (cases "cr = None") (auto simp add: return_def keeps_refl dest: retsD)
  have k: "keeps {} {} wa w'" using k1 k2 by (rule keeps_trans)
  show ?thesis
    unfolding keeps_def
  proof (intro conjI allI impI)
    show "next_nid w \<le> next_nid w'" "next_cid w \<le> next_cid w'"
      using keepsD_next [OF k] f by simp_all
  next
    fix n assume n: "n < next_nid w \<and> n \<notin> {}"
    then have "n_attributes (nodes w' n) REPEAT_INFO_KEY = n_attributes (nodes wa n) REPEAT_INFO_KEY"
      using keepsD_attr [OF k, of n] f by simp
    then show "n_attributes (nodes w' n) REPEAT_INFO_KEY = n_attributes (nodes w n) REPEAT_INFO_KEY"
      using f by simp
  next
    fix j assume j: "j < next_cid w"
    then show "t_rootNode (c_tree (comps w' j)) = t_rootNode (c_tree (comps w j))"
      "c_uid (comps w' j) = c_uid (comps w j)"
      using keepsD_comp [OF k, of j] f by simp_all
  next
    fix j assume j: "j < next_cid w \<and> j \<notin> {}"
    then show "c_states (comps w' j) = c_states (comps w j)"
      using keepsD_states [OF k, of j] f by simp
  next
    fix n assume n: "n < next_nid w \<and> n_attributes (nodes w n) CONTROL_FLOW_ACTION_KEY = None"
    then have na: "n < next_nid wa" using f by simp
    show "n_attributes (nodes w' n) CONTROL_FLOW_ACTION_KEY = None"
    proof (cases "n_attributes (nodes wa n) CONTROL_FLOW_ACTION_KEY = None")
      case True
      then show ?thesis using keepsD_marker [OF k na] by simp
    next
      case False
      then have "n \<in> set ?under" using f n by force
      then have "n \<in> set ?ns" using False by (simp add: VirtualDOM_queryAttribute_def ch)
      then have "n_attributes (nodes w1 n) CONTROL_FLOW_ACTION_KEY = None" using m na by simp
      moreover have "n < next_nid w1" using keepsD_next [OF k1] na by simp
      ultimately show ?thesis using keepsD_marker [OF k2] by simp
    qed
  qed
qed

lemma rets_processDynamicRepeat:
  assumes K: "gentle K"
  shows "rets (processDynamicRepeat K E c b) (keeps {} {})"
proof (rule retsI)
  fix w :: world and x w'
  assume r: "processDynamicRepeat K E c b w = Inr (x, w')"
  let ?w0 = "w\<lparr>trace := trace w @ [ProcessRepeatBehavior b (t_expandedBlueprint (c_tree (comps w c))) (c_uid (comps w c))]\<rparr>"
  from r obtain marks y wa where
    a: "annotate E (t_expandedBlueprint (c_tree (comps ?w0 c))) marks ?w0 = Inr (y, wa)" and
    s: "processControlFlowMessages K E c wa = Inr (x, w')"
    unfolding processDynamicRepeat_def
    by (auto elim!: bind_InrE simp add: Tree_getExpandedBlueprint_def gets_def logEvent_def modify_def)
  have "keeps {} {} w ?w0" by (simp add: keeps_def)
  then show "keeps {} {} w w'"
    using annotate_scan_keeps [OF K a s] by (rule keeps_trans)
qed

lemma rets_processDynamicIf:
  assumes K: "gentle K"
  shows "rets (processDynamicIf K E c b) (keeps {} {})"
proof (rule retsI)
  fix w :: world and x w'
  assume r: "processDynamicIf K E c b w = Inr (x, w')"
  let ?w0 = "w\<lparr>trace := trace w @ [ProcessIfBehavior b (t_expandedBlueprint (c_tree (comps w c))) (c_uid (comps w c))]\<rparr>"
  from r obtain marks y wa where
    a: "annotate E (t_expandedBlueprint (c_tree (comps ?w0 c))) marks ?w0 = Inr (y, wa)" and
    s: "processControlFlowMessages K E c wa = Inr (x, w')"
    unfolding processDynamicIf_def
    by (auto elim!: bind_InrE simp add: Tree_getExpandedBlueprint_def gets_def logEvent_def modify_def)
  have "keeps {} {} w ?w0" by (simp add: keeps_def)
  then show "keeps {} {} w w'"
    using annotate_scan_keeps [OF K a s] by (rule keeps_trans)
qed

lemma rets_route:
  assumes K: "gentle K"
  shows "rets (BehaviorRouter_route K E b c) (keeps {} {})"
  unfolding BehaviorRouter_route_def
  apply (rule rets_bind [OF rets_gets])
  apply (rule rets_bind [OF rets_logEvent])
  apply (rule rets_bind [OF rets_gets])
  apply (rule rets_case_option)
   apply (rule rets_if)
    apply (rule rets_return)
   apply (cases "b_kind b")
     apply (simp_all add: rets_return rets_throw rets_processDynamicRepeat rets_processDynamicIf K)
  done

lemma rets_handleBehaviorUpdate:
  "gentle K \<Longrightarrow> rets (handleBehaviorUpdate K E c b) (keeps D C)"
  unfolding handleBehaviorUpdate_def
  by (rule rets_mono [OF rets_route]) simp_all

lemma rets_notify:
  assumes K: "gentle K"
  shows "rets (forEach listeners (\<lambda>l.
       case l of
         OnBehaviorUpdate \<Rightarrow> return ()
       | BehaviorListener b \<Rightarrow>
           if P b then handleBehaviorUpdate K E c b else return ())) (keeps D C)"
  apply (rule rets_forEach)
  subgoal for l
    by (cases l) (simp_all add: rets_return rets_handleBehaviorUpdate K)
  done

lemma States_set_Inr:
  assumes K: "gentle K" and r: "States_set K E c k v w = Inr (u, w')" and c: "c < next_cid w"
  shows "keeps {} {c} w w' \<and> c_states (comps w' c) = assign k v (c_states (comps w c))"
proof -
  let ?w0 = "upd_comp c (\<lambda>x. x\<lparr>c_states := assign k v (c_states x)\<rparr>) w"
  let ?ls = "c_listeners (comps w c)"
  from r have n: "forEach ?ls (\<lambda>l.
       case l of
         OnBehaviorUpdate \<Rightarrow> return ()
       | BehaviorListener b \<Rightarrow>
           if k \<in> set (b_params b) \<and> OnBehaviorUpdate \<in> set ?ls
           then handleBehaviorUpdate K E c b
           else return ()) ?w0 = Inr (u, w')"
    by (simp add: States_set_def bind_modify bind_gets)
  have k0: "keeps {} {c} w ?w0" by (auto simp add: keeps_def)
  have k1: "keeps {} {} ?w0 w'" using rets_notify [OF K] n by (rule retsD)
  have "c_states (comps w' c) = c_states (comps ?w0 c)"
    using keepsD_states [OF k1, of c] c by simp
  then show ?thesis
    using keeps_trans [OF k0 keeps_mono [OF k1]] by simp
qed

lemma rets_States_set:
  assumes K: "gentle K" and c: "c \<in> C"
  shows "rets (States_set K E c k v) (keeps D C)"
  unfolding States_set_def
  apply (rule rets_bind)
   apply (rule rets_modify)
   apply (use c in \<open>auto simp add: keeps_def\<close>)[1]
  apply (rule rets_bind [OF rets_gets])
  apply (rule rets_notify [OF K])
  done

lemma rets_runBehaviors:
  assumes K: "gentle K"
  shows "rets (runBehaviors K E c r) (keeps {} {})"
  unfolding runBehaviors_def
  by (intro rets_bind rets_if rets_setBlockControlFlow rets_return rets_gets rets_States_getNames
      rets_forEach rets_route K)

lemma rets_processDOMMessages_at:
  assumes K: "gentle K"
  shows
  "rets (bind (VirtualDOM_getAttribute node REPEAT_INFO_KEY) (\<lambda>messageStr.
     bind (if truthy messageStr then
             bind (parseJSON E (the messageStr)) (\<lambda>messageObj.
             bind (getProp messageObj INDEX_KEY) (\<lambda>index.
             bind (getProp messageObj REPEAT_PAYLOAD_KEY) (\<lambda>repeatPayload.
             bind (gets (\<lambda>w. c_uid (comps w c))) (\<lambda>uid.
             bind (logEvent (SendMessages repeatPayload uid)) (\<lambda>_.
             bind (removeAttribute node REPEAT_INFO_KEY) (\<lambda>_.
             return (index, repeatPayload)))))))
           else return (Val (JNum 0), Val JNull)) (\<lambda>(index, repeatPayload).
     bind (States_set K E c INDEX_KEY index) (\<lambda>_.
     bind (States_set K E c REPEAT_PAYLOAD_KEY repeatPayload) (\<lambda>_.
     logEvent (StripExpandedBlueprintMessages c)))))) (keeps {node} {c})"
  by (intro rets_bind rets_if rets_case_prod rets_getAttribute rets_parseJSON rets_getProp
      rets_gets rets_logEvent rets_removeAttribute_in rets_return rets_States_set K) simp_all

lemma processDOMMessages_keeps:
  assumes K: "gentle K" and r: "processDOMMessages K E c w = Inr ((), w')"
  shows "keeps {t_rootNode (c_tree (comps w c))} {c} w w'"
proof -
  have "processDOMMessages K E c w =
    (bind (VirtualDOM_getAttribute (t_rootNode (c_tree (comps w c))) REPEAT_INFO_KEY) (\<lambda>messageStr.
     bind (if truthy messageStr then
             bind (parseJSON E (the messageStr)) (\<lambda>messageObj.
             bind (getProp messageObj INDEX_KEY) (\<lambda>index.
             bind (getProp messageObj REPEAT_PAYLOAD_KEY) (\<lambda>repeatPayload.
             bind (gets (\<lambda>w. c_uid (comps w c))) (\<lambda>uid.
             bind (logEvent (SendMessages repeatPayload uid)) (\<lambda>_.
             bind (removeAttribute (t_rootNode (c_tree (comps w c))) REPEAT_INFO_KEY) (\<lambda>_.
             return (index, repeatPayload)))))))
           else return (Val (JNum 0), Val JNull)) (\<lambda>(index, repeatPayload).
     bind (States_set K E c INDEX_KEY index) (\<lambda>_.
     bind (States_set K E c REPEAT_PAYLOAD_KEY repeatPayload) (\<lambda>_.
     logEvent (StripExpandedBlueprintMessages c)))))) w"
    by (simp add: processDOMMessages_def getRootNode_def bind_gets)
  with r show ?thesis
    using retsD [OF rets_processDOMMessages_at [OF K]] by simp
qed

lemma rets_updateChildren:
  assumes K: "gentle K"
  shows "rets (updateChildren K E c r) (keeps {} {})"
  unfolding updateChildren_def createChild_def
  apply (rule rets_bind [OF rets_Tree_setChildrenRoot])
  apply (rule rets_bind [OF rets_gets])
  apply (rule rets_forEach)
  apply (rule rets_clone)
  apply (rule rets_bind [OF rets_removeChildNodes])
  apply (rule rets_bind)
   apply (rule gentle_Component [OF K])
   apply simp
  apply (rule rets_return)
  done

lemma rets_initializeControlFlow:
  assumes K: "gentle K"
  shows "rets (initializeControlFlow K E c) (keeps {} {})"
  unfolding initializeControlFlow_def
  apply (rule rets_bind [OF rets_gets])
  apply (rule rets_bind [OF rets_logEvent])
  apply (rule rets_bind [OF rets_gets])
  apply (rule rets_bind [OF rets_Tree_setExpandedBlueprint])
  apply (rule rets_bind)
   apply (rule rets_if)
    apply (rule rets_logEvent)
   apply (rule rets_bind [OF rets_Tree_getExpandedBlueprint])
   apply (rule rets_bind [OF rets_logEvent])
   apply (rule rets_bind [OF rets_gets])
   apply (rule rets_updateChildren [OF K])
  apply (rule rets_bind [OF rets_getRootNode])
  apply (rule rets_removeAttribute_other)
  apply simp
  done

lemma initialize_keeps:
  assumes K: "gentle K" and r: "initialize K E c w = Inr ((), w')" and c: "c < next_cid w"
  shows "\<exists>w3 w4. initializeControlFlow K E c
                    (w\<lparr>trace := trace w @ [TriggerLifecycleEvent PRELOAD_KEY (c_uid (comps w c))]\<rparr>) = Inr ((), w3) \<and>
           processDOMMessages K E c w3 = Inr ((), w4) \<and>
           keeps {} {} w w3 \<and> keeps {} {} w4 w'"
proof -
  let ?u = "c_uid (comps w c)"
  let ?w0 = "w\<lparr>trace := trace w @ [TriggerLifecycleEvent PRELOAD_KEY ?u]\<rparr>"
  from initialize_InrD [OF r] obtain w3 w4 w5 w6 where
    1: "initializeControlFlow K E c ?w0 = Inr ((), w3)" and
    2: "processDOMMessages K E c w3 = Inr ((), w4)" and
    3: "k_runBehaviors K c False w4 = Inr ((), w5)" and
    4: "executeAttachments E c w5 = Inr ((), w6)" and
    5: "w' = w6\<lparr>trace := trace w6 @ [InitializeDescendantEvents (t_expandedBlueprint (c_tree (comps w6 c))) ?u,
                                       TriggerLifecycleEvent POSTLOAD_KEY ?u]\<rparr>"
    by blast
  have k0: "keeps {} {} w ?w0" by (simp add: keeps_def)
  have k1: "keeps {} {} ?w0 w3"
    using rets_initializeControlFlow [OF K] 1 by (rule retsD)
  have k03: "keeps {} {} w w3" using k0 k1 by (rule keeps_trans)
  have k45: "keeps {} {} w4 w5" using gentle_run [OF K] 3 by (rule retsD)
  have k56: "keeps {} {} w5 w6" using rets_executeAttachments 4 by (rule retsD)
  have k6: "keeps {} {} w6 w'" unfolding 5 by (simp add: keeps_def)
  have k4: "keeps {} {} w4 w'"
    using keeps_trans [OF keeps_trans [OF k45 k56] k6] .
  show ?thesis using 1 2 k03 k4 by blast
qed

lemma Component_keeps_step:
  assumes K: "gentle K"
    and r: "Component K E d s p w = Inr (c, w')"
  shows "keeps {d} {} w w'"
proof -
  from Component_InrD [OF r] obtain w2 where
    i: "initialize K E c w2 = Inr ((), w')" and c: "c = next_cid w" and
    n2: "next_cid w2 = Suc c" and m2: "next_nid w2 = next_nid w" and
    a2: "\<forall>k. n_attributes (nodes w2 k) = n_attributes (nodes w k)" and
    c2: "\<forall>k. k \<noteq> c \<longrightarrow> comps w2 k = comps w k" and
    r2: "t_rootNode (c_tree (comps w2 c)) = d"
    by blast
  have cl: "c < next_cid w2" using n2 by simp
  from initialize_keeps [OF K i cl] obtain w3 w4 where
    p: "processDOMMessages K E c w3 = Inr ((), w4)" and
    k23: "keeps {} {} w2 w3" and k4: "keeps {} {} w4 w'"
    by blast
  have r3: "t_rootNode (c_tree (comps w3 c)) = d"
    using keepsD_comp [OF k23 cl] r2 by simp
  have k34: "keeps {d} {c} w3 w4"
    using processDOMMessages_keeps [OF K p] r3 by simp
  have k24: "keeps {d} {c} w2 w'"
    using keeps_trans [OF keeps_trans [OF keeps_mono [OF k23] k34] keeps_mono [OF k4]] by simp
  show ?thesis
    unfolding keeps_def
  proof (intro conjI allI impI)
    show "next_nid w \<le> next_nid w'" using keepsD_next [OF k24] m2 by simp
    show "next_cid w \<le> next_cid w'" using keepsD_next [OF k24] n2 c by simp
  next
    fix k assume k: "k < next_nid w \<and> k \<notin> {d}"
    then have "n_attributes (nodes w' k) REPEAT_INFO_KEY = n_attributes (nodes w2 k) REPEAT_INFO_KEY"
      using keepsD_attr [OF k24, of k] m2 by simp
    then show "n_attributes (nodes w' k) REPEAT_INFO_KEY = n_attributes (nodes w k) REPEAT_INFO_KEY"
      using a2 by simp
  next
    fix k assume k: "k < next_nid w \<and> n_attributes (nodes w k) CONTROL_FLOW_ACTION_KEY = None"
    then show "n_attributes (nodes w' k) CONTROL_FLOW_ACTION_KEY = None"
      using keepsD_marker [OF k24, of k] m2 a2 by simp
  next
    fix k assume k: "k < next_cid w"
    then have "k < next_cid w2" "k \<noteq> c" using n2 c by simp_all
    then show "t_rootNode (c_tree (comps w' k)) = t_rootNode (c_tree (comps w k))"
      "c_uid (comps w' k) = c_uid (comps w k)"
      using keepsD_comp [OF k24, of k] c2 by simp_all
  next
    fix k assume k: "k < next_cid w \<and> k \<notin> {}"
    then have "k < next_cid w2" "k \<noteq> c" using n2 c by simp_all
    then show "c_states (comps w' k) = c_states (comps w k)"
      using keepsD_states [OF k24, of k] c2 by simp
  qed
qed

lemma gentle_methods: "gentle (methods E n)"
proof (induction n)
  case 0
  show ?case by (simp add: gentle_def rets_throw)
next
  case (Suc n)
  have "rets (Component (methods E n) E d s p) (keeps {d} {})" for d s p
    by (rule retsI) (rule Component_keeps_step [OF Suc])
  then show ?case
    by (simp add: gentle_def rets_runBehaviors [OF Suc])
qed

subsection \<open>The steps of an initialization\<close>

lemma sat_trace: "sat m (frame X Y) \<Longrightarrow> m w = Inr (x, w') \<Longrightarrow> trace w' = trace w @ added w w'"
  by (rule frameD_trace) (rule sat_Inr)

lemma initializeControlFlow_trace:
  assumes g: "good K" and r: "initializeControlFlow K E c w = Inr ((), w')"
  shows "\<exists>cf. added w w' = InitializeSelfContainedFlows (t_blueprint (c_tree (comps w c))) (c_uid (comps w c)) # cf"
proof -
  let ?me = "comps w c"
  let ?w1 = "w\<lparr>trace := trace w @ [InitializeSelfContainedFlows (t_blueprint (c_tree ?me)) (c_uid ?me)]\<rparr>"
  let ?rest = "bind (gets (\<lambda>w. ControlFlow_initializeSelfContainedFlows E w (t_blueprint (c_tree ?me)) (c_uid ?me))) (\<lambda>expandedBlueprint.
     bind (Tree_setExpandedBlueprint c expandedBlueprint) (\<lambda>_.
     bind (if YIELD_KEY \<in> set (d_events (c_definition ?me))
           then logEvent (TriggerPublicEvent YIELD_KEY (c_surrogateRoot ?me) (c_uid ?me))
           else
             bind (Tree_getExpandedBlueprint c) (\<lambda>bp.
             bind (logEvent (InitializeParentDefinedFlows bp (c_surrogateRoot ?me))) (\<lambda>_.
             bind (gets (\<lambda>w. ControlFlow_initializeParentDefinedFlows E w bp (c_surrogateRoot ?me))) (\<lambda>childrenRoot.
             updateChildren K E c childrenRoot)))) (\<lambda>_.
     bind (getRootNode c) (\<lambda>rootNode.
     removeAttribute rootNode CONTROL_FLOW_ACTION_KEY))))"
  have eq: "initializeControlFlow K E c w = ?rest ?w1"
    by (simp add: initializeControlFlow_def bind_gets bind_logEvent)
  have "sat ?rest (frame {} {})"
    by (intro sat_struct sat_prims sat_logEvent sat_updateChildren sat_getRootNode g) simp_all
  from sat_trace [OF this] r eq have "trace w' = trace ?w1 @ added ?w1 w'" by simp
  then have "trace w' = trace w @ InitializeSelfContainedFlows (t_blueprint (c_tree ?me)) (c_uid ?me) # added ?w1 w'"
    by simp
  then show ?thesis by (intro exI) (rule added_cons)
qed

lemma dom_tail_InrD:
  assumes "bind (States_set K E c k1 ix) (\<lambda>_. bind (States_set K E c k2 pl) (\<lambda>_. logEvent e)) w1 = Inr ((), w')"
  shows "\<exists>w2 w3. States_set K E c k1 ix w1 = Inr ((), w2) \<and> States_set K E c k2 pl w2 = Inr ((), w3) \<and>
           w' = w3\<lparr>trace := trace w3 @ [e]\<rparr>"
  using assms by (elim bind_InrE) (auto simp add: logEvent_def modify_def)

lemma dom_head_InrD:
  assumes r: "bind (parseJSON E s) (\<lambda>messageObj.
             bind (getProp messageObj INDEX_KEY) (\<lambda>index.
             bind (getProp messageObj REPEAT_PAYLOAD_KEY) (\<lambda>repeatPayload.
             bind (gets (\<lambda>w. c_uid (comps w c))) (\<lambda>uid.
             bind (logEvent (SendMessages repeatPayload uid)) (\<lambda>_.
             bind (removeAttribute node REPEAT_INFO_KEY) (\<lambda>_.
             return (index, repeatPayload))))))) w = Inr (ip, v)"
  shows "\<exists>j. JSON_parse E s = Some j \<and> getProp j INDEX_KEY w = Inr (fst ip, w) \<and>
             getProp j REPEAT_PAYLOAD_KEY w = Inr (snd ip, w) \<and>
             v = upd_node node (\<lambda>x. x\<lparr>n_attributes := (n_attributes x)(REPEAT_INFO_KEY := None)\<rparr>)
                   (w\<lparr>trace := trace w @ [SendMessages (snd ip) (c_uid (comps w c))]\<rparr>)"
proof -
  from r obtain j va where p: "parseJSON E s w = Inr (j, va)" and
    r1: "bind (getProp j INDEX_KEY) (\<lambda>index.
             bind (getProp j REPEAT_PAYLOAD_KEY) (\<lambda>repeatPayload.
             bind (gets (\<lambda>w. c_uid (comps w c))) (\<lambda>uid.
             bind (logEvent (SendMessages repeatPayload uid)) (\<lambda>_.
             bind (removeAttribute node REPEAT_INFO_KEY) (\<lambda>_.
             return (index, repeatPayload)))))) va = Inr (ip, v)"
    by (rule bind_InrE)
  from parseJSON_Inr [OF p] have va: "va = w" and j: "JSON_parse E s = Some j" by simp_all
  from r1 obtain ix vb where g1: "getProp j INDEX_KEY va = Inr (ix, vb)" and
    r2: "bind (getProp j REPEAT_PAYLOAD_KEY) (\<lambda>repeatPayload.
             bind (gets (\<lambda>w. c_uid (comps w c))) (\<lambda>uid.
             bind (logEvent (SendMessages repeatPayload uid)) (\<lambda>_.
             bind (removeAttribute node REPEAT_INFO_KEY) (\<lambda>_.
             return (ix, repeatPayload))))) vb = Inr (ip, v)"
    by (rule bind_InrE)
  from getProp_Inr [OF g1] have vb: "vb = w" using va by simp
  from r2 obtain pl vc where g2: "getProp j REPEAT_PAYLOAD_KEY vb = Inr (pl, vc)" and
    r3: "bind (gets (\<lambda>w. c_uid (comps w c))) (\<lambda>uid.
             bind (logEvent (SendMessages pl uid)) (\<lambda>_.
             bind (removeAttribute node REPEAT_INFO_KEY) (\<lambda>_.
             return (ix, pl)))) vc = Inr (ip, v)"
    by (rule bind_InrE)
  from getProp_Inr [OF g2] have vc: "vc = w" using vb by simp
  from r3 have "ip = (ix, pl) \<and>
      v = upd_node node (\<lambda>x. x\<lparr>n_attributes := (n_attributes x)(REPEAT_INFO_KEY := None)\<rparr>)
            (w\<lparr>trace := trace w @ [SendMessages pl (c_uid (comps w c))]\<rparr>)"
    unfolding vc by (auto simp add: bind_gets bind_logEvent removeAttribute_def bind_modify return_def)
  with j g1 g2 va vb vc show ?thesis by simp
qed

lemma processDOMMessages_InrD:
  assumes "processDOMMessages K E c w = Inr ((), w')"
  shows "\<exists>ix pl w1 w2 w3.
      (if truthy (n_attributes (nodes w (t_rootNode (c_tree (comps w c)))) REPEAT_INFO_KEY)
       then (\<exists>j. JSON_parse E (the (n_attributes (nodes w (t_rootNode (c_tree (comps w c)))) REPEAT_INFO_KEY)) = Some j \<and>
                 getProp j INDEX_KEY w = Inr (ix, w) \<and> getProp j REPEAT_PAYLOAD_KEY w = Inr (pl, w)) \<and>
            w1 = upd_node (t_rootNode (c_tree (comps w c)))
                   (\<lambda>x. x\<lparr>n_attributes := (n_attributes x)(REPEAT_INFO_KEY := None)\<rparr>)
                   (w\<lparr>trace := trace w @ [SendMessages pl (c_uid (comps w c))]\<rparr>)
       else ix = Val (JNum 0) \<and> pl = Val JNull \<and> w1 = w) \<and>
      States_set K E c INDEX_KEY ix w1 = Inr ((), w2) \<and>
      States_set K E c REPEAT_PAYLOAD_KEY pl w2 = Inr ((), w3) \<and>
      w' = w3\<lparr>trace := trace w3 @ [StripExpandedBlueprintMessages c]\<rparr>"
proof (cases "truthy (n_attributes (nodes w (t_rootNode (c_tree (comps w c)))) REPEAT_INFO_KEY)")
  case False
  with assms have "bind (States_set K E c INDEX_KEY (Val (JNum 0))) (\<lambda>_.
      bind (States_set K E c REPEAT_PAYLOAD_KEY (Val JNull)) (\<lambda>_.
      logEvent (StripExpandedBlueprintMessages c))) w = Inr ((), w')"
    by (simp add: processDOMMessages_def getRootNode_def bind_gets VirtualDOM_getAttribute_def)
  from dom_tail_InrD [OF this] obtain w2 w3 where
    "States_set K E c INDEX_KEY (Val (JNum 0)) w = Inr ((), w2)"
    "States_set K E c REPEAT_PAYLOAD_KEY (Val JNull) w2 = Inr ((), w3)"
    "w' = w3\<lparr>trace := trace w3 @ [StripExpandedBlueprintMessages c]\<rparr>"
    by (elim exE conjE) (rule that)
  with False show ?thesis
    by (intro exI [of _ "Val (JNum 0)"] exI [of _ "Val JNull"] exI [of _ w] exI [of _ w2] exI [of _ w3])
      simp
next
  case True
  let ?node = "t_rootNode (c_tree (comps w c))"
  let ?s = "the (n_attributes (nodes w ?node) REPEAT_INFO_KEY)"
  from assms True have "bind (bind (parseJSON E ?s) (\<lambda>messageObj.
             bind (getProp messageObj INDEX_KEY) (\<lambda>index.
             bind (getProp messageObj REPEAT_PAYLOAD_KEY) (\<lambda>repeatPayload.
             bind (gets (\<lambda>w. c_uid (comps w c))) (\<lambda>uid.
             bind (logEvent (SendMessages repeatPayload uid)) (\<lambda>_.
             bind (removeAttribute ?node REPEAT_INFO_KEY) (\<lambda>_.
             return (index, repeatPayload)))))))) (\<lambda>(index, repeatPayload).
     bind (States_set K E c INDEX_KEY index) (\<lambda>_.
     bind (States_set K E c REPEAT_PAYLOAD_KEY repeatPayload) (\<lambda>_.
     logEvent (StripExpandedBlueprintMessages c)))) w = Inr ((), w')"
    by (simp add: processDOMMessages_def getRootNode_def bind_gets VirtualDOM_getAttribute_def)
  then obtain ip v where h: "bind (parseJSON E ?s) (\<lambda>messageObj.
             bind (getProp messageObj INDEX_KEY) (\<lambda>index.
             bind (getProp messageObj REPEAT_PAYLOAD_KEY) (\<lambda>repeatPayload.
             bind (gets (\<lambda>w. c_uid (comps w c))) (\<lambda>uid.
             bind (logEvent (SendMessages repeatPayload uid)) (\<lambda>_.
             bind (removeAttribute ?node REPEAT_INFO_KEY) (\<lambda>_.
             return (index, repeatPayload))))))) w = Inr (ip, v)" and
    t: "(case ip of (index, repeatPayload) \<Rightarrow>
     bind (States_set K E c INDEX_KEY index) (\<lambda>_.
     bind (States_set K E c REPEAT_PAYLOAD_KEY repeatPayload) (\<lambda>_.
     logEvent (StripExpandedBlueprintMessages c)))) v = Inr ((), w')"
    by (rule bind_InrE)
  from t have t': "bind (States_set K E c INDEX_KEY (fst ip)) (\<lambda>_.
     bind (States_set K E c REPEAT_PAYLOAD_KEY (snd ip)) (\<lambda>_.
     logEvent (StripExpandedBlueprintMessages c))) v = Inr ((), w')"
    by (simp add: case_prod_beta)
  from dom_head_InrD [OF h] obtain j where
    j: "JSON_parse E ?s = Some j" "getProp j INDEX_KEY w = Inr (fst ip, w)"
      "getProp j REPEAT_PAYLOAD_KEY w = Inr (snd ip, w)"
      "v = upd_node ?node (\<lambda>x. x\<lparr>n_attributes := (n_attributes x)(REPEAT_INFO_KEY := None)\<rparr>)
                   (w\<lparr>trace := trace w @ [SendMessages (snd ip) (c_uid (comps w c))]\<rparr>)"
    by (elim exE conjE) (rule that)
  from dom_tail_InrD [OF t'] obtain w2 w3 where
    "States_set K E c INDEX_KEY (fst ip) v = Inr ((), w2)"
    "States_set K E c REPEAT_PAYLOAD_KEY (snd ip) w2 = Inr ((), w3)"
    "w' = w3\<lparr>trace := trace w3 @ [StripExpandedBlueprintMessages c]\<rparr>"
    by (elim exE conjE) (rule that)
  with True j show ?thesis
    by (intro exI [of _ "fst ip"] exI [of _ "snd ip"] exI [of _ v] exI [of _ w2] exI [of _ w3])
      simp
qed

lemma forEach_logs:
  assumes f: "\<And>x w u w'. f x w = Inr (u, w') \<Longrightarrow> \<exists>evs. w' = w\<lparr>trace := trace w @ evs\<rparr> \<and> (\<forall>e\<in>set evs. P e)"
  shows "forEach xs f w = Inr (u, w') \<Longrightarrow> \<exists>evs. w' = w\<lparr>trace := trace w @ evs\<rparr> \<and> (\<forall>e\<in>set evs. P e)"
proof (induction xs arbitrary: w)
  case Nil
  then show ?case by (auto simp add: return_def intro: exI [of _ "[]"])
next
  case (Cons x xs)
  from Cons.prems obtain y v where 1: "f x w = Inr (y, v)" and 2: "forEach xs f v = Inr (u, w')"
    by (auto elim!: bind_InrE)
  from f [OF 1] obtain e1 where e1: "v = w\<lparr>trace := trace w @ e1\<rparr>" "\<forall>e\<in>set e1. P e" by blast
  from Cons.IH [OF 2] obtain e2 where e2: "w' = v\<lparr>trace := trace v @ e2\<rparr>" "\<forall>e\<in>set e2. P e" by blast
  show ?case
    using e1 e2 by (intro exI [of _ "e1 @ e2"]) auto
qed

lemma sendMessage_eq:
  "sendMessage t k m w =
     Inr ((), w\<lparr>trace := trace w @ [SendMessage k m (c_uid (comps w t)),
                                     ProcessPassThroughEvents k m (t_expandedBlueprint (c_tree (comps w t)))]\<rparr>)"
  by (simp add: sendMessage_def bind_gets bind_logEvent Tree_getExpandedBlueprint_def logEvent_def modify_def bind_def gets_def)

lemma executeAttachments_Inr:
  assumes "executeAttachments E c w = Inr (u, w')"
  shows "\<exists>evs. w' = w\<lparr>trace := trace w @ evs\<rparr> \<and>
           (\<forall>e\<in>set evs. \<exists>m t bp. e = SendMessage ''attach'' m t \<or> e = ProcessPassThroughEvents ''attach'' m bp)"
proof -
  let ?P = "\<lambda>e. \<exists>m t bp. e = SendMessage ''attach'' m t \<or> e = ProcessPassThroughEvents ''attach'' m bp"
  have inner: "\<exists>evs. v' = v\<lparr>trace := trace v @ evs\<rparr> \<and> (\<forall>e\<in>set evs. ?P e)"
    if "bind (Utilities_getComponent node) (\<lambda>target.
         case target of
           None \<Rightarrow> throw (TypeError ''Utilities.getComponent(node).sendMessage'')
         | Some t \<Rightarrow> sendMessage t ''attach'' exe) v = Inr (y, v')" for node exe v y v'
  proof (cases "registry v (n_uid (nodes v node))")
    case None
    with that show ?thesis by (simp add: Utilities_getComponent_def bind_gets throw_def)
  next
    case (Some t)
    with that have "v' = v\<lparr>trace := trace v @ [SendMessage ''attach'' exe (c_uid (comps v t)),
         ProcessPassThroughEvents ''attach'' exe (t_expandedBlueprint (c_tree (comps v t)))]\<rparr>"
      by (simp add: Utilities_getComponent_def bind_gets sendMessage_eq)
    then show ?thesis
      by (intro exI [of _ "[SendMessage ''attach'' exe (c_uid (comps v t)),
         ProcessPassThroughEvents ''attach'' exe (t_expandedBlueprint (c_tree (comps v t)))]"]) auto
  qed
  have outer: "\<exists>evs. v' = v\<lparr>trace := trace v @ evs\<rparr> \<and> (\<forall>e\<in>set evs. ?P e)"
    if o: "bind (gets (\<lambda>w. VirtualDOM_eachNode E w bp (a_selector a))) (\<lambda>ns.
       forEach ns (\<lambda>node.
         bind (Utilities_getComponent node) (\<lambda>target.
         case target of
           None \<Rightarrow> throw (TypeError ''Utilities.getComponent(node).sendMessage'')
         | Some t \<Rightarrow> sendMessage t ''attach'' (a_executable a)))) v = Inr (y, v')" for bp a v y v'
  proof -
    let ?g = "\<lambda>node. bind (Utilities_getComponent node) (\<lambda>target.
         case target of
           None \<Rightarrow> throw (TypeError ''Utilities.getComponent(node).sendMessage'')
         | Some t \<Rightarrow> sendMessage t ''attach'' (a_executable a))"
    from o have fe: "forEach (VirtualDOM_eachNode E v bp (a_selector a)) ?g v = Inr (y, v')"
      by (simp only: bind_gets)
    show ?thesis
      by (rule forEach_logs [where f = ?g and P = ?P, OF _ fe]) (rule inner)
  qed
  let ?f = "\<lambda>attachment.
       bind (gets (\<lambda>v. VirtualDOM_eachNode E v (t_expandedBlueprint (c_tree (comps w c))) (a_selector attachment))) (\<lambda>ns.
       forEach ns (\<lambda>node.
         bind (Utilities_getComponent node) (\<lambda>target.
         case target of
           None \<Rightarrow> throw (TypeError ''Utilities.getComponent(node).sendMessage'')
         | Some t \<Rightarrow> sendMessage t ''attach'' (a_executable attachment))))"
  have "executeAttachments E c w = forEach (c_attachments (comps w c)) ?f w"
    unfolding executeAttachments_def Tree_getExpandedBlueprint_def
    by (simp only: bind_gets)
  with assms have fe: "forEach (c_attachments (comps w c)) ?f w = Inr (u, w')" by simp
  show ?thesis
    by (rule forEach_logs [where f = ?f and P = ?P, OF _ fe]) (rule outer)
qed

lemma initialize_shape:
  assumes r: "initialize (methods E n) E c w = Inr ((), w')"
  shows "\<exists>w2 w3 w4 w5.
      initializeControlFlow (methods E n) E c (w\<lparr>trace := trace w @ [TriggerLifecycleEvent PRELOAD_KEY (c_uid (comps w c))]\<rparr>) = Inr ((), w2) \<and>
      processDOMMessages (methods E n) E c w2 = Inr ((), w3) \<and>
      k_runBehaviors (methods E n) c False w3 = Inr ((), w4) \<and>
      w4 = upd_comp c (\<lambda>x. x\<lparr>c_blockControlFlow := False\<rparr>)
             (w3\<lparr>trace := trace w3 @ map (\<lambda>b. Route b c True) (routed w3 c)\<rparr>) \<and>
      executeAttachments E c w4 = Inr ((), w5) \<and>
      w' = w5\<lparr>trace := trace w5 @
             [InitializeDescendantEvents (t_expandedBlueprint (c_tree (comps w5 c))) (c_uid (comps w c)),
              TriggerLifecycleEvent POSTLOAD_KEY (c_uid (comps w c))]\<rparr> \<and>
      added w w' =
        TriggerLifecycleEvent PRELOAD_KEY (c_uid (comps w c)) #
        added (w\<lparr>trace := trace w @ [TriggerLifecycleEvent PRELOAD_KEY (c_uid (comps w c))]\<rparr>) w2 @ added w2 w3 @ added w3 w4 @ added w4 w5 @
        [InitializeDescendantEvents (t_expandedBlueprint (c_tree (comps w5 c))) (c_uid (comps w c)),
         TriggerLifecycleEvent POSTLOAD_KEY (c_uid (comps w c))] \<and>
      added (w\<lparr>trace := trace w @ [TriggerLifecycleEvent PRELOAD_KEY (c_uid (comps w c))]\<rparr>) w2 =
         InitializeSelfContainedFlows (t_blueprint (c_tree (comps w c))) (c_uid (comps w c)) #
         tl (added (w\<lparr>trace := trace w @ [TriggerLifecycleEvent PRELOAD_KEY (c_uid (comps w c))]\<rparr>) w2) \<and>
      added w2 w3 = butlast (added w2 w3) @ [StripExpandedBlueprintMessages c] \<and>
      added w3 w4 = map (\<lambda>b. Route b c True) (routed w3 c) \<and>
      (\<forall>e\<in>set (added w4 w5).
         \<exists>m t bp. e = SendMessage ''attach'' m t \<or> e = ProcessPassThroughEvents ''attach'' m bp) \<and>
      trace w2 = trace (w\<lparr>trace := trace w @ [TriggerLifecycleEvent PRELOAD_KEY (c_uid (comps w c))]\<rparr>) @ added (w\<lparr>trace := trace w @ [TriggerLifecycleEvent PRELOAD_KEY (c_uid (comps w c))]\<rparr>) w2 \<and> trace w3 = trace w2 @ added w2 w3 \<and>
      trace w' = trace w @ added w w'"
proof -
  let ?K = "methods E n"
  let ?u = "c_uid (comps w c)"
  let ?w1 = "w\<lparr>trace := trace w @ [TriggerLifecycleEvent PRELOAD_KEY ?u]\<rparr>"
  note g = good_methods [of E n]
  from initialize_InrD [OF r] obtain w2 w3 w4 w5 where
    1: "initializeControlFlow ?K E c ?w1 = Inr ((), w2)" and
    2: "processDOMMessages ?K E c w2 = Inr ((), w3)" and
    3: "k_runBehaviors ?K c False w3 = Inr ((), w4)" and
    4: "executeAttachments E c w4 = Inr ((), w5)" and
    5: "w' = w5\<lparr>trace := trace w5 @ [InitializeDescendantEvents (t_expandedBlueprint (c_tree (comps w5 c))) ?u,
                                       TriggerLifecycleEvent POSTLOAD_KEY ?u]\<rparr>"
    by blast
  have t2: "trace w2 = trace ?w1 @ added ?w1 w2"
    using sat_initializeControlFlow [OF g] 1 by (rule sat_trace)
  have sd: "sat (processDOMMessages ?K E c) (frame {c} {})"
    by (rule sat_processDOMMessages [OF g]) simp
  have ss: "sat (States_set ?K E c k v) (frame {c} {})" for k v
    by (rule sat_States_set [OF g]) simp
  have t3: "trace w3 = trace w2 @ added w2 w3"
    using sd 2 by (rule sat_trace)
  have w4: "w4 = upd_comp c (\<lambda>x. x\<lparr>c_blockControlFlow := False\<rparr>)
                (w3\<lparr>trace := trace w3 @ map (\<lambda>b. Route b c True) (routed w3 c)\<rparr>)"
    using 3 by (rule k_run_False_methods)
  have a4: "added w3 w4 = map (\<lambda>b. Route b c True) (routed w3 c)"
    unfolding w4 by (simp add: added_def)
  have t4: "trace w4 = trace w3 @ added w3 w4" unfolding a4 unfolding w4 by simp
  from executeAttachments_Inr [OF 4] obtain evs where
    evs: "w5 = w4\<lparr>trace := trace w4 @ evs\<rparr>"
      "\<forall>e\<in>set evs. \<exists>m t bp. e = SendMessage ''attach'' m t \<or> e = ProcessPassThroughEvents ''attach'' m bp"
    by blast
  have a5: "added w4 w5 = evs" using evs(1) by (simp add: added_def)
  have t5: "trace w5 = trace w4 @ added w4 w5" unfolding a5 using evs(1) by simp
  have tw: "trace w' = trace w @
        (TriggerLifecycleEvent PRELOAD_KEY ?u #
        added ?w1 w2 @ added w2 w3 @ added w3 w4 @ added w4 w5 @
        [InitializeDescendantEvents (t_expandedBlueprint (c_tree (comps w5 c))) ?u,
         TriggerLifecycleEvent POSTLOAD_KEY ?u])"
    unfolding 5 using t2 t3 t4 t5 by simp
  then have a: "added w w' =
        TriggerLifecycleEvent PRELOAD_KEY ?u #
        added ?w1 w2 @ added w2 w3 @ added w3 w4 @ added w4 w5 @
        [InitializeDescendantEvents (t_expandedBlueprint (c_tree (comps w5 c))) ?u,
         TriggerLifecycleEvent POSTLOAD_KEY ?u]"
    by (rule added_cons)
  from initializeControlFlow_trace [OF g 1] obtain cfl where
    "added ?w1 w2 = InitializeSelfContainedFlows (t_blueprint (c_tree (comps w c))) ?u # cfl"
    by auto
  then have cf: "added ?w1 w2 = InitializeSelfContainedFlows (t_blueprint (c_tree (comps w c))) ?u #
                   tl (added ?w1 w2)"
    by simp
  from processDOMMessages_InrD [OF 2] obtain ix pl wa wb wc where
    c: "if truthy (n_attributes (nodes w2 (t_rootNode (c_tree (comps w2 c)))) REPEAT_INFO_KEY)
       then (\<exists>j. JSON_parse E (the (n_attributes (nodes w2 (t_rootNode (c_tree (comps w2 c)))) REPEAT_INFO_KEY)) = Some j \<and>
                 getProp j INDEX_KEY w2 = Inr (ix, w2) \<and> getProp j REPEAT_PAYLOAD_KEY w2 = Inr (pl, w2)) \<and>
            wa = upd_node (t_rootNode (c_tree (comps w2 c)))
                   (\<lambda>x. x\<lparr>n_attributes := (n_attributes x)(REPEAT_INFO_KEY := None)\<rparr>)
                   (w2\<lparr>trace := trace w2 @ [SendMessages pl (c_uid (comps w2 c))]\<rparr>)
       else ix = Val (JNum 0) \<and> pl = Val JNull \<and> wa = w2" and
    s1: "States_set ?K E c INDEX_KEY ix wa = Inr ((), wb)" and
    s2: "States_set ?K E c REPEAT_PAYLOAD_KEY pl wb = Inr ((), wc)" and
    e: "w3 = wc\<lparr>trace := trace wc @ [StripExpandedBlueprintMessages c]\<rparr>"
    by (elim exE conjE) (rule that)
  from c obtain pre where pre: "trace wa = trace w2 @ pre"
    by (cases "truthy (n_attributes (nodes w2 (t_rootNode (c_tree (comps w2 c)))) REPEAT_INFO_KEY)")
      (simp_all add: upd_node_def)
  have ta: "trace wb = trace wa @ added wa wb" using ss s1 by (rule sat_trace)
  have tb: "trace wc = trace wb @ added wb wc" using ss s2 by (rule sat_trace)
  have "trace w3 = trace w2 @ (pre @ added wa wb @ added wb wc) @ [StripExpandedBlueprintMessages c]"
    unfolding e using pre ta tb by simp
  then have "added w2 w3 = (pre @ added wa wb @ added wb wc) @ [StripExpandedBlueprintMessages c]"
    by (rule added_cons)
  then have dm: "added w2 w3 = butlast (added w2 w3) @ [StripExpandedBlueprintMessages c]"
    by (simp add: butlast_append)
  show ?thesis
    apply (intro exI conjI)
              apply (rule 1)
             apply (rule 2)
            apply (rule 3)
           apply (rule w4)
          apply (rule 4)
         apply (rule 5)
        apply (rule a)
       apply (rule cf)
      apply (rule dm)
        apply (rule a4)
       apply (unfold a5)
       apply (rule evs(2))
      apply (rule t2)
     apply (rule t3)
    apply (unfold a)
    apply (rule tw)
    done
qed

subsection \<open>Evaluating the small application\<close>

lemma env0_sel [simp]:
  "toLowerCase env0 = (\<lambda>s. s)"
  "JSON_parse env0 = parse0"
  "DataStore_getDependencies env0 = (\<lambda>name tag. [])"
  "DataStore_getModule env0 = module0"
  "DataStore_getTimelines env0 = (\<lambda>name tag. [])"
  "DataStore_getConfig env0 = (\<lambda>name tag. [])"
  "DataStore_getAttachments env0 = (\<lambda>name tag. if name = ''app'' then [\<lparr>a_selector = ''item'', a_executable = ''exe''\<rparr>] else [])"
  "Tree_blueprint env0 = (\<lambda>domNode definitionTree dependencies. if domNode = 1 then 2 else 8)"
  "Tree_eachChild env0 = (\<lambda>w r. case r of None \<Rightarrow> [] | Some n \<Rightarrow> n_childNodes (nodes w n))"
  "ControlFlow_initializeSelfContainedFlows env0 = (\<lambda>w bp u. if bp = 2 then 3 else 8)"
  "ControlFlow_initializeParentDefinedFlows env0 = (\<lambda>w bp surrogateRoot. if bp = Some 3 then Some 2 else bp)"
  "ControlFlow_processRepeatBehavior env0 = (\<lambda>w b bp u. if registry w ''item3'' = None then [(6, CREATE_MARKER)] else [])"
  "ControlFlow_processIfBehavior env0 = (\<lambda>w b bp u. [(4, DELETE_MARKER), (5, BOGUS_MARKER), (6, CREATE_MARKER)])"
  "VirtualDOM_under env0 = (\<lambda>children root. case root of None \<Rightarrow> [] | Some n \<Rightarrow> children n)"
  "BehaviorRouter_raises env0 = (\<lambda>w b c. None)"
  "VirtualDOM_eachNode env0 = (\<lambda>w bp selector. if bp = Some 3 \<and> selector = ''item'' then [4] else [])"
  "VirtualDOM_nodeByUID env0 = (\<lambda>w bp u. if bp = Some 3 \<and> u = ''item1'' then Some 4 else None)"
  "Utilities_getParentComponent env0 = (\<lambda>w n. case n_parentNode (nodes w n) of None \<Rightarrow> None | Some p \<Rightarrow> registry w (n_uid (nodes w p)))"
  by (simp_all add: env0_def)

lemmas method_app =
  Component_def [THEN fun_cong] initialize_def [THEN fun_cong]
  initializeControlFlow_def [THEN fun_cong] updateChildren_def [THEN fun_cong]
  createChild_def [THEN fun_cong] processDOMMessages_def [THEN fun_cong]
  runBehaviors_def [THEN fun_cong] BehaviorRouter_route_def [THEN fun_cong]
  executeAttachments_def [THEN fun_cong] setEventListeners_def [THEN fun_cong]
  sendMessage_def [THEN fun_cong] remove_def [THEN fun_cong]
  processControlFlowMessage_def [THEN fun_cong] processControlFlowMessages_def [THEN fun_cong]
  processDynamicRepeat_def [THEN fun_cong] processDynamicIf_def [THEN fun_cong]
  handleBehaviorUpdate_def [THEN fun_cong] States_set_def [THEN fun_cong]
  getParentComponent_def [THEN fun_cong] parent_tree_rootNode_def [THEN fun_cong]
  parent_famousNode_def [THEN fun_cong] Tree_new_def [THEN fun_cong]
  VirtualDOM_removeNodeByUID_def [THEN fun_cong] annotate_def [THEN fun_cong]
  parseJSON_def [THEN fun_cong]
  forEach.simps [THEN fun_cong] processControlFlowMessages_loop.simps [THEN fun_cong]
  getProp.simps [THEN fun_cong]

lemmas prim_app =
  bind_def return_def throw_def gets_def modify_def final_def
  logEvent_def getRootNode_def storeComponent_def Tree_setExpandedBlueprint_def
  Tree_setChildrenRoot_def Tree_getExpandedBlueprint_def States_getNames_def
  shareValue_def VirtualDOM_getAttribute_def removeAttribute_def setAttribute_def
  VirtualDOM_clone_def VirtualDOM_removeChildNodes_def Node_removeChild_def Node_appendChild_def
  DataStore_registerComponent_def DataStore_getComponent_def Utilities_getComponent_def
  FamousConnector_addChild_def Famous_removeChild_def setBlockControlFlow_def
  upd_node_def upd_comp_def truthy_def Let_def VirtualDOM_queryAttribute_def returns_def

lemma behavior_sel [simp]:
  "b_kind b_repeat = Repeat" "b_params b_repeat = [''items'']"
  "b_kind b_if = Conditional" "b_params b_if = [''show'']"
  "b_kind b_size = Custom" "b_params b_size = []"
  "b_kind b_opacity = Custom" "b_params b_opacity = [''missingState'']"
  "b_kind b_label = Custom" "b_params b_label = [INDEX_KEY]"
  by (simp_all add: b_repeat_def b_if_def b_size_def b_opacity_def b_label_def)

lemma module_sel [simp]:
  "d_tree app_module = ''<item></item>''"
  "d_states app_module = [(''items'', Val (JArr [JNum 1, JNum 2]))]"
  "d_behaviors app_module = [b_repeat, b_size, b_opacity]"
  "d_events app_module = []"
  "d_tree item_module = []" "d_states item_module = []"
  "d_behaviors item_module = [b_label]" "d_events item_module = []"
  by (simp_all add: app_module_def item_module_def)

lemma marker_simps [simp]:
  "CARRIER \<noteq> []" "CREATE_MARKER \<noteq> []" "DELETE_MARKER \<noteq> []" "BOGUS_MARKER \<noteq> []"
  "parse0 CARRIER = Some (JObj [(INDEX_KEY, JNum 2), (REPEAT_PAYLOAD_KEY, JObj [(''x'', JNum 7)])])"
  "parse0 CREATE_MARKER = Some (JObj [(''message'', JStr CREATE_KEY), (''parentUID'', JStr ''app1'')])"
  "parse0 DELETE_MARKER = Some (JObj [(''message'', JStr DELETE_KEY), (''parentUID'', JStr ''app1'')])"
  "parse0 BOGUS_MARKER = Some (JObj [(''message'', JStr ''bogus''), (''parentUID'', JStr ''app1'')])"
  by (simp_all add: parse0_def CARRIER_def CREATE_MARKER_def DELETE_MARKER_def BOGUS_MARKER_def)

lemma nodes0_simps [simp]:
  "nodes0 0 = blank\<lparr>n_tagName := ''parent-tree:app'', n_uid := ''root''\<rparr>"
  "nodes0 1 = blank\<lparr>n_tagName := ''app'', n_uid := ''app1'', n_tag := ''v1''\<rparr>"
  "nodes0 2 = blank\<lparr>n_tagName := ''app'', n_uid := ''app1'', n_tag := ''v1'', n_childNodes := [4]\<rparr>"
  "nodes0 3 = blank\<lparr>n_tagName := ''app'', n_uid := ''app1'', n_tag := ''v1'', n_childNodes := [4, 5, 6]\<rparr>"
  "nodes0 4 = blank\<lparr>n_tagName := ''item'', n_uid := ''item1'', n_tag := ''v1'',
                     n_attributes := [REPEAT_INFO_KEY \<mapsto> CARRIER], n_parentNode := Some 3\<rparr>"
  "nodes0 5 = blank\<lparr>n_tagName := ''item'', n_uid := ''item2'', n_tag := ''v1'', n_parentNode := Some 3\<rparr>"
  "nodes0 6 = blank\<lparr>n_tagName := ''item'', n_uid := ''item3'', n_tag := ''v1'', n_parentNode := Some 3\<rparr>"
  "nodes0 7 = blank\<lparr>n_tagName := ''ghost'', n_uid := ''ghost1'', n_tag := ''v1''\<rparr>"
  "nodes0 8 = blank" "nodes0 9 = blank"
  "nodes0 (Suc 0) = blank\<lparr>n_tagName := ''app'', n_uid := ''app1'', n_tag := ''v1''\<rparr>"
  by (simp_all add: nodes0_def)

lemma blank_sel [simp]:
  "n_tagName blank = ''div''" "n_uid blank = []" "n_tag blank = []" "n_attributes blank = Map.empty"
  "n_parentNode blank = None" "n_childNodes blank = []"
  by (simp_all add: blank_def)

lemma app_component_sel [simp]:
  "c_uid app_component = ''app1''"
  "c_tree app_component = \<lparr>t_rootNode = 1, t_blueprint = 2, t_expandedBlueprint = Some 3, t_childrenRoot = Some 2\<rparr>"
  "c_famousNode app_component = 1"
  "c_states app_component = [(''items'', Val (JArr [JNum 1, JNum 2])), (INDEX_KEY, Val (JNum 0)), (REPEAT_PAYLOAD_KEY, Val JNull)]"
  "c_behaviors app_component = [b_repeat, b_size, b_opacity]"
  "c_attachments app_component = [\<lparr>a_selector = ''item'', a_executable = ''exe''\<rparr>]"
  "c_definition app_component = app_module"
  "c_surrogateRoot app_component = None"
  "c_blockControlFlow app_component = False"
  "c_listeners app_component = [OnBehaviorUpdate, BehaviorListener b_repeat, BehaviorListener b_size,
                                BehaviorListener b_opacity]"
  by (simp_all add: app_component_def)

lemma item1_component_sel [simp]:
  "c_uid item1_component = ''item1''"
  "c_tree item1_component = \<lparr>t_rootNode = 9, t_blueprint = 8, t_expandedBlueprint = Some 8, t_childrenRoot = Some 8\<rparr>"
  "c_famousNode item1_component = 2"
  "c_states item1_component = [(INDEX_KEY, Val (JNum 2)), (REPEAT_PAYLOAD_KEY, Val (JObj [(''x'', JNum 7)]))]"
  "c_behaviors item1_component = [b_label]"
  "c_attachments item1_component = []"
  "c_definition item1_component = item_module"
  "c_surrogateRoot item1_component = Some 4"
  "c_blockControlFlow item1_component = False"
  "c_listeners item1_component = [OnBehaviorUpdate, BehaviorListener b_label]"
  by (simp_all add: item1_component_def)

lemma no_component_sel [simp]:
  "c_blockControlFlow no_component = False" "c_listeners no_component = []"
  by (simp_all add: no_component_def)

lemma world1_sel [simp]:
  "nodes world1 = nodes1" "next_nid world1 = 10"
  "comps world1 = (\<lambda>c. no_component)(0 := app_component, 1 := item1_component)"
  "next_cid world1 = 2" "registry world1 = [''app1'' \<mapsto> 0, ''item1'' \<mapsto> 1]"
  "famous world1 = (\<lambda>f. [])(0 := [1], 1 := [2])" "next_fid world1 = 3" "trace world1 = trace1"
  by (simp_all add: world1_def)

lemma nodes1_simps [simp]:
  "nodes1 0 = (nodes0 0)\<lparr>n_childNodes := [1]\<rparr>"
  "nodes1 1 = (nodes0 1)\<lparr>n_parentNode := Some 0, n_childNodes := [9]\<rparr>"
  "nodes1 (Suc 0) = (nodes0 1)\<lparr>n_parentNode := Some 0, n_childNodes := [9]\<rparr>"
  "nodes1 3 = nodes0 3" "nodes1 4 = nodes0 4" "nodes1 5 = nodes0 5" "nodes1 6 = nodes0 6"
  "nodes1 8 = nodes0 8"
  "nodes1 9 = (nodes0 4)\<lparr>n_attributes := Map.empty, n_parentNode := Some 1\<rparr>"
  "nodes1 10 = nodes0 10"
  by (simp_all add: nodes1_def)

lemma nodes2_simps [simp]:
  "nodes2 0 = nodes1 0" "nodes2 1 = nodes1 1" "nodes2 (Suc 0) = nodes1 1" "nodes2 3 = nodes1 3"
  "nodes2 4 = (nodes0 4)\<lparr>n_attributes := [REPEAT_INFO_KEY \<mapsto> CARRIER, CONTROL_FLOW_ACTION_KEY \<mapsto> DELETE_MARKER]\<rparr>"
  "nodes2 5 = (nodes0 5)\<lparr>n_attributes := [CONTROL_FLOW_ACTION_KEY \<mapsto> BOGUS_MARKER]\<rparr>"
  "nodes2 6 = (nodes0 6)\<lparr>n_attributes := [CONTROL_FLOW_ACTION_KEY \<mapsto> CREATE_MARKER]\<rparr>"
  "nodes2 9 = nodes1 9"
  by (simp_all add: nodes2_def)

lemma world2_sel [simp]:
  "nodes world2 = nodes2" "next_nid world2 = 10" "comps world2 = comps world1"
  "next_cid world2 = 2" "registry world2 = registry world1"
  "famous world2 = famous world1" "next_fid world2 = 3" "trace world2 = trace1"
  by (simp_all add: world2_def)

lemma world3_sel [simp]:
  "nodes world3 = nodes3" "next_nid world3 = 10" "comps world3 = comps world1"
  "next_cid world3 = 2" "registry world3 = registry world1"
  "famous world3 = (\<lambda>f. [])(0 := [1])" "next_fid world3 = 3"
  "trace world3 = trace1 @ [TriggerLifecycleEvent PREUNLOAD_KEY ''item1'',
                            TriggerLifecycleEvent POSTUNLOAD_KEY ''item1'']"
  by (simp_all add: world3_def)

lemma nodes3_simps [simp]:
  "nodes3 3 = (nodes0 3)\<lparr>n_childNodes := [5, 6]\<rparr>"
  "nodes3 4 = (nodes0 4)\<lparr>n_parentNode := None\<rparr>"
  "nodes3 5 = nodes2 5" "nodes3 6 = nodes2 6"
  by (simp_all add: nodes3_def)

lemma world_marked_sel [simp]:
  "nodes world_marked = nodes1(6 := (nodes0 6)\<lparr>n_attributes := [CONTROL_FLOW_ACTION_KEY \<mapsto> CREATE_MARKER]\<rparr>)"
  "next_nid world_marked = 10" "comps world_marked = comps world1"
  "next_cid world_marked = 2" "registry world_marked = registry world1"
  "famous world_marked = famous world1" "next_fid world_marked = 3" "trace world_marked = trace1"
  by (simp_all add: world_marked_def)

lemma world_child_sel [simp]:
  "nodes world_child = nodes1(9 := (nodes0 4)\<lparr>n_parentNode := Some 1\<rparr>)"
  "comps world_child = (comps world1)(1 := item1_component\<lparr>c_states := []\<rparr>)"
  "trace world_child = trace1"
  by (simp_all add: world_child_def)

lemma query_sel [simp]:
  "VirtualDOM_queryAttribute env0 world2 (Some 3) CONTROL_FLOW_ACTION_KEY = [4, 5, 6]"
  "VirtualDOM_queryAttribute env0 world_marked (Some 3) CONTROL_FLOW_ACTION_KEY = [6]"
  by (simp_all add: VirtualDOM_queryAttribute_def)

lemma construct_app:
  "Component (methods env0 (Suc (Suc 0))) env0 1 None (Some (ParentShim 0 0)) world0 = Inr (0, world1)"
  apply (simp add: method_app prim_app world0_def module0_def)
  apply (simp add: world1_def nodes1_def trace1_def fun_eq_iff)
  apply (intro conjI allI impI)
       apply (simp_all add: nodes0_def blank_def app_component_def item1_component_def)
  done

lemma scan_delete:
  "processControlFlowMessages_loop K env0 (Some 3) [4] None world2 = Inr (None, world3)"
  apply (simp add: method_app prim_app)
  apply (simp add: world3_def world2_def world1_def nodes3_def fun_eq_iff)
  done

lemma bogus_message:
  "processControlFlowMessage K env0 5 (Some 3) world3 =
     Inl (InvalidControlFlowMessage (Val (JStr ''bogus'')), world3)"
  by (simp add: method_app prim_app)

lemma scan_create:
  "\<exists>w1. processControlFlowMessages_loop (methods env0 (Suc (Suc 0))) env0 (Some 3) [6] None world_marked =
          Inr (Some 2, w1)"
  by (simp add: method_app prim_app module0_def)


lemma unblocked_world1: "unblocked world1"
  by (simp add: unblocked_def)

lemma scan_bogus:
  "processControlFlowMessages K env0 0 world2 =
     Inl (InvalidControlFlowMessage (Val (JStr ''bogus'')), world3)"
  apply (simp add: method_app prim_app)
  apply (simp add: world3_def world2_def world1_def nodes3_def fun_eq_iff)
  done

lemma remove_item1: "\<exists>w'. remove env0 1 world1 = Inr ((), w')"
  by (simp add: method_app prim_app)

lemma initialize_item1:
  "\<exists>w'. initialize (methods env0 (Suc 0)) env0 1 world_child = Inr ((), w') \<and>
        added world_child w' =
          [TriggerLifecycleEvent PRELOAD_KEY ''item1'',
           InitializeSelfContainedFlows 8 ''item1'',
           InitializeParentDefinedFlows (Some 8) (Some 4),
           SendMessages (Val (JObj [(''x'', JNum 7)])) ''item1'',
           Route b_label 1 False,
           StripExpandedBlueprintMessages 1,
           Route b_label 1 True,
           InitializeDescendantEvents (Some 8) ''item1'',
           TriggerLifecycleEvent POSTLOAD_KEY ''item1'']"
  by (simp add: method_app prim_app added_def world_child_def item1_component_def)

lemma construct_item:
  "\<exists>w'. Component (methods env0 (Suc 0)) env0 4 None (Some (ParentShim 0 0)) world0 = Inr (0, w')"
  by (simp add: method_app prim_app world0_def module0_def)

lemma scan_two:
  "\<exists>w'. processControlFlowMessages_loop (methods env0 (Suc (Suc 0))) env0 (Some 3) [4, 6] None world2 =
          Inr (Some 2, w')"
proof -
  have [simp]: "nodes2 8 = blank" by (simp add: nodes2_def nodes1_def)
  show ?thesis
    by (simp add: method_app prim_app module0_def)
qed

text \<open>The evaluations the witnesses of the claims on the state and on the flag use.\<close>

lemma world_child_next [simp]: "next_nid world_child = 10" "next_cid world_child = 2"
  by (simp_all add: world_child_def)

lemma dom_item1:
  "\<exists>w'. processDOMMessages (methods env0 (Suc 0)) env0 1 world_child = Inr ((), w') \<and>
        added world_child w' =
          [SendMessages (Val (JObj [(''x'', JNum 7)])) ''item1'', Route b_label 1 False,
           StripExpandedBlueprintMessages 1]"
  by (simp add: method_app prim_app added_def world_child_def item1_component_def)

lemma dom_app:
  "\<exists>w'. processDOMMessages (methods env0 (Suc 0)) env0 0 world1 = Inr ((), w')"
  by (simp add: method_app prim_app)

lemma run_raise:
  "runBehaviors (methods env_raise 0) env_raise 0 False world1 =
     Inl (RouterError ''size'',
          upd_comp 0 (\<lambda>x. x\<lparr>c_blockControlFlow := True\<rparr>)
            (world1\<lparr>trace := trace world1 @ [Route b_repeat 0 True, Route b_size 0 True]\<rparr>))"
  by (simp add: method_app prim_app env_raise_def b_size_def b_repeat_def)

lemma returns_construct: "returns (Component (methods env0 (Suc (Suc 0))) env0 6 (Some 6) (Some (ParentComponent 0))) world1"
  by (simp add: method_app prim_app module0_def)

lemma returns_run: "returns (runBehaviors (methods env0 (Suc (Suc 0))) env0 0 True) world1"
  by (simp add: method_app prim_app module0_def)

lemma returns_update: "returns (handleBehaviorUpdate (methods env0 (Suc (Suc 0))) env0 0 b_repeat) world1"
  by (simp add: method_app prim_app module0_def)

lemma returns_repeat: "returns (processDynamicRepeat (methods env0 (Suc (Suc 0))) env0 0 b_repeat) world1"
  by (simp add: method_app prim_app module0_def)

lemma returns_if:
  "returns (processDynamicIf (methods (env0\<lparr>ControlFlow_processIfBehavior := (\<lambda>w b bp u. [])\<rparr>) (Suc (Suc 0)))
              (env0\<lparr>ControlFlow_processIfBehavior := (\<lambda>w b bp u. [])\<rparr>) 0 b_if) world1"
  by (simp add: method_app prim_app module0_def)

lemma returns_remove: "returns (remove env0 1) world1"
  by (simp add: method_app prim_app)

subsection \<open>A forced run\<close>

lemma route_first:
  assumes g: "good K" and r: "BehaviorRouter_route K E b c w = Inr (y, v)"
  shows "\<exists>evs. added w v = Route b c (c_blockControlFlow (comps w c)) # evs"
proof -
  let ?f = "c_blockControlFlow (comps w c)"
  let ?w1 = "w\<lparr>trace := trace w @ [Route b c ?f]\<rparr>"
  let ?rest = "bind (gets (\<lambda>w. BehaviorRouter_raises E w b c)) (\<lambda>failure.
     case failure of
       Some e \<Rightarrow> throw e
     | None \<Rightarrow>
         if ?f then return ()
         else (case b_kind b of
                 Repeat \<Rightarrow> processDynamicRepeat K E c b
               | Conditional \<Rightarrow> processDynamicIf K E c b
               | Custom \<Rightarrow> return ()))"
  have eq: "BehaviorRouter_route K E b c w = ?rest ?w1"
    by (simp add: BehaviorRouter_route_def bind_gets bind_logEvent)
  have k: "sat (case b_kind b of
                 Repeat \<Rightarrow> processDynamicRepeat K E c b
               | Conditional \<Rightarrow> processDynamicIf K E c b
               | Custom \<Rightarrow> return ()) (frame {c} {})"
    by (cases "b_kind b") (simp_all add: sat_return sat_processDynamicRepeat sat_processDynamicIf g)
  have "sat ?rest (frame {c} {})"
    by (intro sat_bind sat_gets sat_case_option sat_throw sat_if sat_return k)
  from sat_trace [OF this] r eq have "trace v = trace ?w1 @ added ?w1 v" by simp
  then have "trace v = trace w @ Route b c ?f # added ?w1 v" by simp
  then show ?thesis by (intro exI) (rule added_cons)
qed

lemma forEach_routes_unblocked:
  assumes g: "good K"
  shows "unblocked w \<Longrightarrow>
         forEach bs (\<lambda>b. if P b then BehaviorRouter_route K E b c else return ()) w = Inr (x, w') \<Longrightarrow>
         frame {c} {} w True w' \<and> (\<forall>b\<in>set (filter P bs). Route b c False \<in> set (added w w'))"
proof (induction bs arbitrary: w)
  case Nil
  then show ?case by (simp add: return_def frame_refl)
next
  case (Cons b bs)
  show ?case
  proof (cases "P b")
    case False
    with Cons.prems(2) have "forEach bs (\<lambda>b. if P b then BehaviorRouter_route K E b c else return ()) w = Inr (x, w')"
      by simp
    from Cons.IH [OF Cons.prems(1) this] False show ?thesis by simp
  next
    case True
    with Cons.prems(2) obtain y v where
      1: "BehaviorRouter_route K E b c w = Inr (y, v)" and
      2: "forEach bs (\<lambda>b. if P b then BehaviorRouter_route K E b c else return ()) v = Inr (x, w')"
      by (auto elim!: bind_InrE)
    have s: "sat (BehaviorRouter_route K E b c) (frame {c} {})"
      by (rule sat_route [OF g]) simp
    have f1: "frame {c} {} w True v" using s 1 by (rule sat_Inr)
    have u1: "unblocked v" using f1 Cons.prems(1) by (rule frameD_unblocked)
    from Cons.IH [OF u1 2] have f2: "frame {c} {} v True w'" and
      r2: "\<forall>b\<in>set (filter P bs). Route b c False \<in> set (added v w')"
      by simp_all
    have a: "added w w' = added w v @ added v w'"
      using frameD_trace [OF f1] frameD_trace [OF f2] by (rule added_trans)
    have nb: "\<not> c_blockControlFlow (comps w c)" using Cons.prems(1) by (simp add: unblocked_def)
    from route_first [OF g 1] nb obtain evs where "added w v = Route b c False # evs" by auto
    then have "Route b c False \<in> set (added w w')" using a by simp
    moreover have "frame {c} {} w True w'" using f1 f2 by (rule frame_trans)
    ultimately show ?thesis using True r2 a by auto
  qed
qed

lemma runBehaviors_True_routes:
  assumes g: "good K" and u: "unblocked w" and r: "runBehaviors K E c True w = Inr (y, w')"
  shows "\<forall>b\<in>set (routed w c). Route b c False \<in> set (added w w')"
proof -
  have eq: "runBehaviors K E c True w =
     bind (forEach (c_behaviors (comps w c))
             (\<lambda>b. if eligible w c b then BehaviorRouter_route K E b c else return ()))
          (\<lambda>_. setBlockControlFlow c False) w"
    unfolding runBehaviors_def
    by (simp add: bind_gets States_getNames_def eligible_def [abs_def])
  from r obtain x v where
    1: "forEach (c_behaviors (comps w c))
          (\<lambda>b. if eligible w c b then BehaviorRouter_route K E b c else return ()) w = Inr (x, v)" and
    2: "setBlockControlFlow c False v = Inr (y, w')"
    unfolding eq by (rule bind_InrE)
  from 2 have "trace w' = trace v" by (auto simp add: setBlockControlFlow_def modify_def upd_comp_def)
  then have "added w w' = added w v" by (simp add: added_def)
  with forEach_routes_unblocked [OF g u 1] show ?thesis by (simp add: routed_def)
qed

lemma k_run_True_routes:
  assumes u: "unblocked w" and r: "k_runBehaviors (methods E n) c True w = Inr (y, w')"
  shows "\<not> c_blockControlFlow (comps w' c) \<and> (\<forall>b\<in>set (routed w c). Route b c False \<in> set (added w w'))"
proof (cases n)
  case 0
  with r show ?thesis by (simp add: throw_def)
next
  case (Suc m)
  with r have r': "runBehaviors (methods E m) E c True w = Inr (y, w')" by simp
  from runBehaviors_returns_unblocked [OF r'] runBehaviors_True_routes [OF good_methods u r']
  show ?thesis by simp
qed

subsection \<open>Setting a state\<close>

lemma forEach_return: "(\<And>x. x \<in> set xs \<Longrightarrow> f x = return ()) \<Longrightarrow> forEach xs f = return ()"
  by (induction xs) simp_all

lemma States_set_quiet:
  assumes "\<forall>b. BehaviorListener b \<in> set (c_listeners (comps w c)) \<longrightarrow> k \<notin> set (b_params b)"
  shows "States_set K E c k v w = Inr ((), upd_comp c (\<lambda>x. x\<lparr>c_states := assign k v (c_states x)\<rparr>) w)"
proof -
  let ?ls = "c_listeners (comps w c)"
  have "forEach ?ls (\<lambda>l.
       case l of
         OnBehaviorUpdate \<Rightarrow> return ()
       | BehaviorListener b \<Rightarrow>
           if k \<in> set (b_params b) \<and> OnBehaviorUpdate \<in> set ?ls
           then handleBehaviorUpdate K E c b
           else return ()) = return ()"
  proof (rule forEach_return)
    fix l assume "l \<in> set ?ls"
    with assms show "(case l of
         OnBehaviorUpdate \<Rightarrow> return ()
       | BehaviorListener b \<Rightarrow>
           if k \<in> set (b_params b) \<and> OnBehaviorUpdate \<in> set ?ls
           then handleBehaviorUpdate K E c b
           else return ()) = return ()"
      by (cases l) auto
  qed
  then show ?thesis
    by (simp add: States_set_def bind_modify bind_gets return_def)
qed

lemma processDOMMessages_present_Inr:
  assumes K: "gentle K" and G: "good K"
    and r: "processDOMMessages K E c w = Inr ((), w')"
    and c: "c < next_cid w" and d: "t_rootNode (c_tree (comps w c)) < next_nid w"
    and a: "n_attributes (nodes w (t_rootNode (c_tree (comps w c)))) REPEAT_INFO_KEY = Some s" "s \<noteq> []"
      "JSON_parse E s = Some (JObj kvs)" "map_of kvs INDEX_KEY = Some i" "map_of kvs REPEAT_PAYLOAD_KEY = Some p"
  shows "c_states (comps w' c) = assign REPEAT_PAYLOAD_KEY (Val p) (assign INDEX_KEY (Val i) (c_states (comps w c))) \<and>
         t_rootNode (c_tree (comps w' c)) = t_rootNode (c_tree (comps w c)) \<and>
         n_attributes (nodes w' (t_rootNode (c_tree (comps w c)))) REPEAT_INFO_KEY = None \<and>
         trace w' = trace w @ added w w' \<and>
         (\<exists>ev. added w w' = SendMessages (Val p) (c_uid (comps w c)) # ev @ [StripExpandedBlueprintMessages c])"
proof -
  let ?root = "t_rootNode (c_tree (comps w c))"
  have t: "truthy (n_attributes (nodes w ?root) REPEAT_INFO_KEY)" using a by (simp add: truthy_def)
  from processDOMMessages_InrD [OF r] t obtain ix pl w1 w2 w3 j where
    j: "JSON_parse E (the (n_attributes (nodes w ?root) REPEAT_INFO_KEY)) = Some j" and
    gi: "getProp j INDEX_KEY w = Inr (ix, w)" and gp: "getProp j REPEAT_PAYLOAD_KEY w = Inr (pl, w)" and
    w1: "w1 = upd_node ?root (\<lambda>x. x\<lparr>n_attributes := (n_attributes x)(REPEAT_INFO_KEY := None)\<rparr>)
                   (w\<lparr>trace := trace w @ [SendMessages pl (c_uid (comps w c))]\<rparr>)" and
    s1: "States_set K E c INDEX_KEY ix w1 = Inr ((), w2)" and
    s2: "States_set K E c REPEAT_PAYLOAD_KEY pl w2 = Inr ((), w3)" and
    e: "w' = w3\<lparr>trace := trace w3 @ [StripExpandedBlueprintMessages c]\<rparr>"
    by (simp only: if_True) (elim exE conjE, rule that)
  have jj: "j = JObj kvs" using j a by simp
  have ix: "ix = Val i" using gi a unfolding jj by (simp add: return_def)
  have pl: "pl = Val p" using gp a unfolding jj by (simp add: return_def)
  have c1: "c < next_cid w1" using c w1 by (simp add: upd_node_def)
  from States_set_Inr [OF K s1 c1] have k12: "keeps {} {c} w1 w2" and
    st2: "c_states (comps w2 c) = assign INDEX_KEY ix (c_states (comps w1 c))" by simp_all
  have c2: "c < next_cid w2" using keepsD_next [OF k12] c1 by simp
  from States_set_Inr [OF K s2 c2] have k23: "keeps {} {c} w2 w3" and
    st3: "c_states (comps w3 c) = assign REPEAT_PAYLOAD_KEY pl (c_states (comps w2 c))" by simp_all
  have k13: "keeps {} {c} w1 w3" using k12 k23 by (rule keeps_trans)
  have 1: "c_states (comps w' c) = assign REPEAT_PAYLOAD_KEY (Val p) (assign INDEX_KEY (Val i) (c_states (comps w c)))"
    unfolding e using st3 st2 w1 ix pl by (simp add: upd_node_def)
  have 2: "t_rootNode (c_tree (comps w' c)) = ?root"
    unfolding e using keepsD_comp [OF k13 c1] w1 by (simp add: upd_node_def)
  have d1: "?root < next_nid w1" using d w1 by (simp add: upd_node_def)
  have 3: "n_attributes (nodes w' ?root) REPEAT_INFO_KEY = None"
    unfolding e using keepsD_attr [OF k13 d1] w1 by (simp add: upd_node_def)
  have ss: "sat (States_set K E c k v) (frame {c} {})" for k v
    by (rule sat_States_set [OF G]) simp
  have ta: "trace w2 = trace w1 @ added w1 w2" using ss s1 by (rule sat_trace)
  have tb: "trace w3 = trace w2 @ added w2 w3" using ss s2 by (rule sat_trace)
  have tr: "trace w' = trace w @ SendMessages (Val p) (c_uid (comps w c)) # (added w1 w2 @ added w2 w3) @
               [StripExpandedBlueprintMessages c]"
    unfolding e using ta tb w1 pl by (simp add: upd_node_def)
  then have ad: "added w w' = SendMessages (Val p) (c_uid (comps w c)) # (added w1 w2 @ added w2 w3) @
               [StripExpandedBlueprintMessages c]"
    by (rule added_cons)
  have 4: "trace w' = trace w @ added w w'" unfolding ad by (rule tr)
  show ?thesis
    apply (intro conjI)
        apply (rule 1)
       apply (rule 2)
      apply (rule 3)
     apply (rule 4)
    apply (rule exI)
    apply (rule ad)
    done
qed

lemma processDOMMessages_absent_Inr:
  assumes K: "gentle K" and G: "good K"
    and r: "processDOMMessages K E c w = Inr ((), w')"
    and c: "c < next_cid w" and d: "t_rootNode (c_tree (comps w c)) < next_nid w"
    and a: "n_attributes (nodes w (t_rootNode (c_tree (comps w c)))) REPEAT_INFO_KEY = None"
  shows "c_states (comps w' c) = assign REPEAT_PAYLOAD_KEY (Val JNull) (assign INDEX_KEY (Val (JNum 0)) (c_states (comps w c))) \<and>
         t_rootNode (c_tree (comps w' c)) = t_rootNode (c_tree (comps w c)) \<and>
         n_attributes (nodes w' (t_rootNode (c_tree (comps w c)))) REPEAT_INFO_KEY = None \<and>
         trace w' = trace w @ added w w' \<and>
         (\<exists>ev. added w w' = ev @ [StripExpandedBlueprintMessages c])"
proof -
  let ?root = "t_rootNode (c_tree (comps w c))"
  have t: "\<not> truthy (n_attributes (nodes w ?root) REPEAT_INFO_KEY)" using a by (simp add: truthy_def)
  from processDOMMessages_InrD [OF r] t have "\<exists>w2 w3.
      States_set K E c INDEX_KEY (Val (JNum 0)) w = Inr ((), w2) \<and>
      States_set K E c REPEAT_PAYLOAD_KEY (Val JNull) w2 = Inr ((), w3) \<and>
      w' = w3\<lparr>trace := trace w3 @ [StripExpandedBlueprintMessages c]\<rparr>"
    by simp
  then obtain w2 w3 where
    s1: "States_set K E c INDEX_KEY (Val (JNum 0)) w = Inr ((), w2)" and
    s2: "States_set K E c REPEAT_PAYLOAD_KEY (Val JNull) w2 = Inr ((), w3)" and
    e: "w' = w3\<lparr>trace := trace w3 @ [StripExpandedBlueprintMessages c]\<rparr>"
    by (elim exE conjE) (rule that)
  from States_set_Inr [OF K s1 c] have k12: "keeps {} {c} w w2" and
    st2: "c_states (comps w2 c) = assign INDEX_KEY (Val (JNum 0)) (c_states (comps w c))" by simp_all
  have c2: "c < next_cid w2" using keepsD_next [OF k12] c by simp
  from States_set_Inr [OF K s2 c2] have k23: "keeps {} {c} w2 w3" and
    st3: "c_states (comps w3 c) = assign REPEAT_PAYLOAD_KEY (Val JNull) (c_states (comps w2 c))" by simp_all
  have k13: "keeps {} {c} w w3" using k12 k23 by (rule keeps_trans)
  have 1: "c_states (comps w' c) = assign REPEAT_PAYLOAD_KEY (Val JNull) (assign INDEX_KEY (Val (JNum 0)) (c_states (comps w c)))"
    unfolding e using st3 st2 by simp
  have 2: "t_rootNode (c_tree (comps w' c)) = ?root"
    unfolding e using keepsD_comp [OF k13 c] by simp
  have 3: "n_attributes (nodes w' ?root) REPEAT_INFO_KEY = None"
    unfolding e using keepsD_attr [OF k13 d] a by simp
  have ss: "sat (States_set K E c k v) (frame {c} {})" for k v
    by (rule sat_States_set [OF G]) simp
  have ta: "trace w2 = trace w @ added w w2" using ss s1 by (rule sat_trace)
  have tb: "trace w3 = trace w2 @ added w2 w3" using ss s2 by (rule sat_trace)
  have tr: "trace w' = trace w @ (added w w2 @ added w2 w3) @ [StripExpandedBlueprintMessages c]"
    unfolding e using ta tb by simp
  then have ad: "added w w' = (added w w2 @ added w2 w3) @ [StripExpandedBlueprintMessages c]"
    by (rule added_cons)
  have 4: "trace w' = trace w @ added w w'" unfolding ad by (rule tr)
  show ?thesis
    apply (intro conjI)
        apply (rule 1)
       apply (rule 2)
      apply (rule 3)
     apply (rule 4)
    apply (rule exI)
    apply (rule ad)
    done
qed

lemma processDOMMessages_quiet_present:
  assumes q: "\<forall>b. BehaviorListener b \<in> set (c_listeners (comps w c)) \<longrightarrow>
                INDEX_KEY \<notin> set (b_params b) \<and> REPEAT_PAYLOAD_KEY \<notin> set (b_params b)"
    and a: "n_attributes (nodes w (t_rootNode (c_tree (comps w c)))) REPEAT_INFO_KEY = Some s" "s \<noteq> []"
      "JSON_parse E s = Some (JObj kvs)" "map_of kvs INDEX_KEY = Some i" "map_of kvs REPEAT_PAYLOAD_KEY = Some p"
  shows "processDOMMessages K E c w =
           Inr ((), upd_comp c (\<lambda>x. x\<lparr>c_states := assign REPEAT_PAYLOAD_KEY (Val p)
                                          (assign INDEX_KEY (Val i) (c_states x))\<rparr>)
                 (upd_node (t_rootNode (c_tree (comps w c))) (\<lambda>x. x\<lparr>n_attributes := (n_attributes x)(REPEAT_INFO_KEY := None)\<rparr>)
                   (w\<lparr>trace := trace w @ [SendMessages (Val p) (c_uid (comps w c)),
                                        StripExpandedBlueprintMessages c]\<rparr>)))"
proof -
  let ?root = "t_rootNode (c_tree (comps w c))"
  let ?w1 = "upd_node ?root (\<lambda>x. x\<lparr>n_attributes := (n_attributes x)(REPEAT_INFO_KEY := None)\<rparr>)
                   (w\<lparr>trace := trace w @ [SendMessages (Val p) (c_uid (comps w c))]\<rparr>)"
  let ?w2 = "upd_comp c (\<lambda>x. x\<lparr>c_states := assign INDEX_KEY (Val i) (c_states x)\<rparr>) ?w1"
  have l1: "c_listeners (comps ?w1 c) = c_listeners (comps w c)" by (simp add: upd_node_def)
  have l2: "c_listeners (comps ?w2 c) = c_listeners (comps w c)" by (simp add: upd_node_def upd_comp_def)
  have s1: "States_set K E c INDEX_KEY (Val i) ?w1 = Inr ((), ?w2)"
    by (rule States_set_quiet) (use q l1 in simp)
  have s2: "States_set K E c REPEAT_PAYLOAD_KEY (Val p) ?w2 =
              Inr ((), upd_comp c (\<lambda>x. x\<lparr>c_states := assign REPEAT_PAYLOAD_KEY (Val p) (c_states x)\<rparr>) ?w2)"
    by (rule States_set_quiet) (use q l2 in simp)
  have "processDOMMessages K E c w =
     bind (States_set K E c INDEX_KEY (Val i)) (\<lambda>_.
     bind (States_set K E c REPEAT_PAYLOAD_KEY (Val p)) (\<lambda>_.
     logEvent (StripExpandedBlueprintMessages c))) ?w1"
    using a
    by (simp add: processDOMMessages_def getRootNode_def bind_gets VirtualDOM_getAttribute_def truthy_def
        parseJSON_def bind_logEvent removeAttribute_def bind_modify)
       (simp add: bind_def return_def)
  also have "\<dots> = Inr ((), (upd_comp c (\<lambda>x. x\<lparr>c_states := assign REPEAT_PAYLOAD_KEY (Val p) (c_states x)\<rparr>) ?w2)
                   \<lparr>trace := trace ?w2 @ [StripExpandedBlueprintMessages c]\<rparr>)"
    by (simp add: bind_def s1 s2 logEvent_def modify_def)
  finally show ?thesis
    by (simp add: upd_comp_def upd_node_def)
qed

lemma processDOMMessages_quiet_absent:
  assumes q: "\<forall>b. BehaviorListener b \<in> set (c_listeners (comps w c)) \<longrightarrow>
                INDEX_KEY \<notin> set (b_params b) \<and> REPEAT_PAYLOAD_KEY \<notin> set (b_params b)"
    and a: "\<not> truthy (n_attributes (nodes w (t_rootNode (c_tree (comps w c)))) REPEAT_INFO_KEY)"
  shows "processDOMMessages K E c w =
           Inr ((), upd_comp c (\<lambda>x. x\<lparr>c_states := assign REPEAT_PAYLOAD_KEY (Val JNull)
                                          (assign INDEX_KEY (Val (JNum 0)) (c_states x))\<rparr>)
                   (w\<lparr>trace := trace w @ [StripExpandedBlueprintMessages c]\<rparr>))"
proof -
  let ?w2 = "upd_comp c (\<lambda>x. x\<lparr>c_states := assign INDEX_KEY (Val (JNum 0)) (c_states x)\<rparr>) w"
  have l2: "c_listeners (comps ?w2 c) = c_listeners (comps w c)" by (simp add: upd_comp_def)
  have s1: "States_set K E c INDEX_KEY (Val (JNum 0)) w = Inr ((), ?w2)"
    by (rule States_set_quiet) (use q in simp)
  have s2: "States_set K E c REPEAT_PAYLOAD_KEY (Val JNull) ?w2 =
              Inr ((), upd_comp c (\<lambda>x. x\<lparr>c_states := assign REPEAT_PAYLOAD_KEY (Val JNull) (c_states x)\<rparr>) ?w2)"
    by (rule States_set_quiet) (use q l2 in simp)
  have "processDOMMessages K E c w =
     bind (States_set K E c INDEX_KEY (Val (JNum 0))) (\<lambda>_.
     bind (States_set K E c REPEAT_PAYLOAD_KEY (Val JNull)) (\<lambda>_.
     logEvent (StripExpandedBlueprintMessages c))) w"
    using a
    by (simp add: processDOMMessages_def getRootNode_def bind_gets VirtualDOM_getAttribute_def)
  also have "\<dots> = Inr ((), (upd_comp c (\<lambda>x. x\<lparr>c_states := assign REPEAT_PAYLOAD_KEY (Val JNull) (c_states x)\<rparr>) ?w2)
                   \<lparr>trace := trace ?w2 @ [StripExpandedBlueprintMessages c]\<rparr>)"
    by (simp add: bind_def s1 s2 logEvent_def modify_def)
  finally show ?thesis
    by (simp add: upd_comp_def)
qed

subsection \<open>The calls of a construction\<close>

lemma Component_shape:
  assumes r: "Component (methods E n) E d s p w = Inr (c, w')"
  shows "\<exists>ls w0 w1 w2 w3 w4 w5.
      initialize (methods E n) E c w0 = Inr ((), w') \<and>
      registry w0 (n_uid (nodes w d)) = Some c \<and>
      trace w1 = trace w @ RegisterComponent (n_uid (nodes w d)) c # StatesOn c ''behavior-update'' #
                   map (CreateBehaviorListener c) ls @ [TriggerLifecycleEvent PRELOAD_KEY (n_uid (nodes w d))] \<and>
      initializeControlFlow (methods E n) E c w1 = Inr ((), w2) \<and>
      processDOMMessages (methods E n) E c w2 = Inr ((), w3) \<and>
      k_runBehaviors (methods E n) c False w3 = Inr ((), w4) \<and>
      w4 = upd_comp c (\<lambda>x. x\<lparr>c_blockControlFlow := False\<rparr>)
             (w3\<lparr>trace := trace w3 @ map (\<lambda>b. Route b c True) (routed w3 c)\<rparr>) \<and>
      executeAttachments E c w4 = Inr ((), w5) \<and>
      added w w' =
        RegisterComponent (n_uid (nodes w d)) c # StatesOn c ''behavior-update'' #
        map (CreateBehaviorListener c) ls @
        TriggerLifecycleEvent PRELOAD_KEY (n_uid (nodes w d)) #
        added w1 w2 @ added w2 w3 @ added w3 w4 @ added w4 w5 @
        [InitializeDescendantEvents (t_expandedBlueprint (c_tree (comps w' c))) (n_uid (nodes w d)),
         TriggerLifecycleEvent POSTLOAD_KEY (n_uid (nodes w d))] \<and>
      added w1 w2 = InitializeSelfContainedFlows (t_blueprint (c_tree (comps w1 c))) (n_uid (nodes w d)) #
                      tl (added w1 w2) \<and>
      added w2 w3 = butlast (added w2 w3) @ [StripExpandedBlueprintMessages c] \<and>
      added w3 w4 = map (\<lambda>b. Route b c True) (routed w3 c) \<and>
      (\<forall>e\<in>set (added w4 w5).
         \<exists>m t bp. e = SendMessage ''attach'' m t \<or> e = ProcessPassThroughEvents ''attach'' m bp)"
proof -
  let ?u = "n_uid (nodes w d)"
  from Component_InrD [OF r] obtain defn w0 where all:
    "initialize (methods E n) E c w0 = Inr ((), w') \<and> c = next_cid w \<and> next_cid w0 = Suc c \<and>
           trace w0 = trace w @ RegisterComponent (n_uid (nodes w d)) c # StatesOn c ''behavior-update'' #
                        map (CreateBehaviorListener c) (d_behaviors defn) \<and>
           registry w0 = (registry w)(n_uid (nodes w d) \<mapsto> c) \<and>
           c_uid (comps w0 c) = n_uid (nodes w d) \<and>
           c_behaviors (comps w0 c) = d_behaviors defn \<and>
           c_states (comps w0 c) = d_states defn \<and>
           DataStore_getModule E (toLowerCase E (n_tagName (nodes w d))) (n_tag (nodes w d)) = Some defn \<and>
           next_nid w0 = next_nid w \<and>
           (\<forall>k. n_attributes (nodes w0 k) = n_attributes (nodes w k)) \<and>
           (\<forall>k. k \<noteq> c \<longrightarrow> comps w0 k = comps w k) \<and>
           t_rootNode (c_tree (comps w0 c)) = d"
    by (elim exE) (rule that)
  from all have
    i: "initialize (methods E n) E c w0 = Inr ((), w')" and
    t0: "trace w0 = trace w @ RegisterComponent ?u c # StatesOn c ''behavior-update'' #
                        map (CreateBehaviorListener c) (d_behaviors defn)" and
    g0: "registry w0 = (registry w)(?u \<mapsto> c)" and
    u0: "c_uid (comps w0 c) = ?u"
    by blast+
  let ?w1 = "w0\<lparr>trace := trace w0 @ [TriggerLifecycleEvent PRELOAD_KEY (c_uid (comps w0 c))]\<rparr>"
  from initialize_shape [OF i] obtain w2 w3 w4 w5 where
    1: "initializeControlFlow (methods E n) E c ?w1 = Inr ((), w2)" and
    2: "processDOMMessages (methods E n) E c w2 = Inr ((), w3)" and
    3: "k_runBehaviors (methods E n) c False w3 = Inr ((), w4)" and
    4: "w4 = upd_comp c (\<lambda>x. x\<lparr>c_blockControlFlow := False\<rparr>)
             (w3\<lparr>trace := trace w3 @ map (\<lambda>b. Route b c True) (routed w3 c)\<rparr>)" and
    5: "executeAttachments E c w4 = Inr ((), w5)" and
    6: "w' = w5\<lparr>trace := trace w5 @
             [InitializeDescendantEvents (t_expandedBlueprint (c_tree (comps w5 c))) (c_uid (comps w0 c)),
              TriggerLifecycleEvent POSTLOAD_KEY (c_uid (comps w0 c))]\<rparr>" and
    a: "added w0 w' =
        TriggerLifecycleEvent PRELOAD_KEY (c_uid (comps w0 c)) #
        added ?w1 w2 @ added w2 w3 @ added w3 w4 @ added w4 w5 @
        [InitializeDescendantEvents (t_expandedBlueprint (c_tree (comps w5 c))) (c_uid (comps w0 c)),
         TriggerLifecycleEvent POSTLOAD_KEY (c_uid (comps w0 c))]" and
    cf: "added ?w1 w2 =
         InitializeSelfContainedFlows (t_blueprint (c_tree (comps w0 c))) (c_uid (comps w0 c)) #
         tl (added ?w1 w2)" and
    dm: "added w2 w3 = butlast (added w2 w3) @ [StripExpandedBlueprintMessages c]" and
    rb: "added w3 w4 = map (\<lambda>b. Route b c True) (routed w3 c)" and
    at: "\<forall>e\<in>set (added w4 w5).
         \<exists>m t bp. e = SendMessage ''attach'' m t \<or> e = ProcessPassThroughEvents ''attach'' m bp" and
    tw: "trace w' = trace w0 @ added w0 w'"
    by (elim exE conjE) (rule that)
  have bp: "t_expandedBlueprint (c_tree (comps w' c)) = t_expandedBlueprint (c_tree (comps w5 c))"
    unfolding 6 by simp
  have t1: "trace ?w1 = trace w @ RegisterComponent ?u c # StatesOn c ''behavior-update'' #
                   map (CreateBehaviorListener c) (d_behaviors defn) @ [TriggerLifecycleEvent PRELOAD_KEY ?u]"
    using t0 u0 by simp
  have "trace w' = trace w @ (RegisterComponent ?u c # StatesOn c ''behavior-update'' #
        map (CreateBehaviorListener c) (d_behaviors defn) @
        TriggerLifecycleEvent PRELOAD_KEY ?u #
        added ?w1 w2 @ added w2 w3 @ added w3 w4 @ added w4 w5 @
        [InitializeDescendantEvents (t_expandedBlueprint (c_tree (comps w' c))) ?u,
         TriggerLifecycleEvent POSTLOAD_KEY ?u])"
    unfolding tw a bp using t0 u0 by simp
  then have ad: "added w w' = RegisterComponent ?u c # StatesOn c ''behavior-update'' #
        map (CreateBehaviorListener c) (d_behaviors defn) @
        TriggerLifecycleEvent PRELOAD_KEY ?u #
        added ?w1 w2 @ added w2 w3 @ added w3 w4 @ added w4 w5 @
        [InitializeDescendantEvents (t_expandedBlueprint (c_tree (comps w' c))) ?u,
         TriggerLifecycleEvent POSTLOAD_KEY ?u]"
    by (rule added_cons)
  have g: "registry w0 ?u = Some c" using g0 by simp
  from cf have cf': "added ?w1 w2 =
         InitializeSelfContainedFlows (t_blueprint (c_tree (comps ?w1 c))) ?u # tl (added ?w1 w2)"
    using u0 by simp
  show ?thesis
    apply (rule exI [of _ "d_behaviors defn"])
    apply (rule exI [of _ w0])
    apply (rule exI [of _ ?w1])
    apply (rule exI [of _ w2])
    apply (rule exI [of _ w3])
    apply (rule exI [of _ w4])
    apply (rule exI [of _ w5])
    apply (intro conjI)
                apply (rule i)
               apply (rule g)
              apply (rule t1)
             apply (rule 1)
            apply (rule 2)
           apply (rule 3)
          apply (rule 4)
         apply (rule 5)
        apply (rule ad)
       apply (rule cf')
      apply (rule dm)
     apply (rule rb)
    apply (rule at)
    done
qed

lemma Component_carrier:
  assumes r: "Component (methods E n) E d s p w = Inr (c, w')" and d: "d < next_nid w"
  shows "\<exists>w3 w4. processDOMMessages (methods E n) E c w3 = Inr ((), w4) \<and>
           c < next_cid w3 \<and> d < next_nid w3 \<and>
           t_rootNode (c_tree (comps w3 c)) = d \<and> c_uid (comps w3 c) = n_uid (nodes w d) \<and>
           n_attributes (nodes w3 d) REPEAT_INFO_KEY = n_attributes (nodes w d) REPEAT_INFO_KEY \<and>
           keeps {} {} w4 w' \<and>
           (\<exists>pre. trace w3 = trace w @ pre) \<and> (\<exists>post. trace w' = trace w4 @ post)"
proof -
  let ?K = "methods E n"
  note K = gentle_methods [of E n]
  from Component_InrD [OF r] obtain defn w0 where all:
    "initialize (methods E n) E c w0 = Inr ((), w') \<and> c = next_cid w \<and> next_cid w0 = Suc c \<and>
           trace w0 = trace w @ RegisterComponent (n_uid (nodes w d)) c # StatesOn c ''behavior-update'' #
                        map (CreateBehaviorListener c) (d_behaviors defn) \<and>
           registry w0 = (registry w)(n_uid (nodes w d) \<mapsto> c) \<and>
           c_uid (comps w0 c) = n_uid (nodes w d) \<and>
           c_behaviors (comps w0 c) = d_behaviors defn \<and>
           c_states (comps w0 c) = d_states defn \<and>
           DataStore_getModule E (toLowerCase E (n_tagName (nodes w d))) (n_tag (nodes w d)) = Some defn \<and>
           next_nid w0 = next_nid w \<and>
           (\<forall>k. n_attributes (nodes w0 k) = n_attributes (nodes w k)) \<and>
           (\<forall>k. k \<noteq> c \<longrightarrow> comps w0 k = comps w k) \<and>
           t_rootNode (c_tree (comps w0 c)) = d"
    by (elim exE) (rule that)
  from all have
    i: "initialize ?K E c w0 = Inr ((), w')" and c: "c = next_cid w" and
    n0: "next_cid w0 = Suc c" and m0: "next_nid w0 = next_nid w" and
    a0: "\<forall>k. n_attributes (nodes w0 k) = n_attributes (nodes w k)" and
    r0: "t_rootNode (c_tree (comps w0 c)) = d" and
    u0: "c_uid (comps w0 c) = n_uid (nodes w d)" and
    t0: "trace w0 = trace w @ RegisterComponent (n_uid (nodes w d)) c # StatesOn c ''behavior-update'' #
                        map (CreateBehaviorListener c) (d_behaviors defn)"
    by blast+
  let ?w1 = "w0\<lparr>trace := trace w0 @ [TriggerLifecycleEvent PRELOAD_KEY (c_uid (comps w0 c))]\<rparr>"
  from initialize_shape [OF i] obtain w2 w3 w4 w5 where
    1: "initializeControlFlow ?K E c ?w1 = Inr ((), w2)" and
    2: "processDOMMessages ?K E c w2 = Inr ((), w3)" and
    3: "k_runBehaviors ?K c False w3 = Inr ((), w4)" and
    5: "executeAttachments E c w4 = Inr ((), w5)" and
    6: "w' = w5\<lparr>trace := trace w5 @
             [InitializeDescendantEvents (t_expandedBlueprint (c_tree (comps w5 c))) (c_uid (comps w0 c)),
              TriggerLifecycleEvent POSTLOAD_KEY (c_uid (comps w0 c))]\<rparr>" and
    rb: "added w3 w4 = map (\<lambda>b. Route b c True) (routed w3 c)" and
    w4: "w4 = upd_comp c (\<lambda>x. x\<lparr>c_blockControlFlow := False\<rparr>)
             (w3\<lparr>trace := trace w3 @ map (\<lambda>b. Route b c True) (routed w3 c)\<rparr>)" and
    t2: "trace w2 = trace ?w1 @ added ?w1 w2"
    by (elim exE conjE) (rule that)
  have cl: "c < next_cid ?w1" using n0 by simp
  have dl: "d < next_nid ?w1" using m0 d by simp
  have k12: "keeps {} {} ?w1 w2"
    using rets_initializeControlFlow [OF K] 1 by (rule retsD)
  have c2: "c < next_cid w2" using keepsD_next [OF k12] cl by simp
  have d2: "d < next_nid w2" using keepsD_next [OF k12] dl by simp
  have r2: "t_rootNode (c_tree (comps w2 c)) = d" "c_uid (comps w2 c) = n_uid (nodes w d)"
    using keepsD_comp [OF k12 cl] r0 u0 by simp_all
  have a2: "n_attributes (nodes w2 d) REPEAT_INFO_KEY = n_attributes (nodes w d) REPEAT_INFO_KEY"
    using keepsD_attr [OF k12 dl] a0 by simp
  have k34: "keeps {} {} w3 w4" using gentle_run [OF K] 3 by (rule retsD)
  have k45: "keeps {} {} w4 w5" using rets_executeAttachments 5 by (rule retsD)
  have k5: "keeps {} {} w5 w'" unfolding 6 by (simp add: keeps_def)
  have k3: "keeps {} {} w3 w'"
    using keeps_trans [OF keeps_trans [OF k34 k45] k5] .
  from executeAttachments_Inr [OF 5] obtain evs where w5: "w5 = w4\<lparr>trace := trace w4 @ evs\<rparr>" by blast
  have t3: "\<exists>post. trace w' = trace w3 @ post"
    unfolding 6 w5 w4 by simp
  have tp: "\<exists>pre. trace w2 = trace w @ pre"
    using t2 t0 by simp
  show ?thesis
    using 2 c2 d2 r2 a2 k3 tp t3 by blast
qed

subsection \<open>What a forced run routes\<close>






subsection \<open>A run without argument\<close>

lemma forEach_blocked_total:
  assumes "c_blockControlFlow (comps w c)"
    and "\<forall>b\<in>set (filter P bs). \<forall>v. BehaviorRouter_raises E v b c = None"
  shows "forEach bs (\<lambda>b. if P b then BehaviorRouter_route K E b c else return ()) w =
           Inr ((), w\<lparr>trace := trace w @ map (\<lambda>b. Route b c True) (filter P bs)\<rparr>)"
  using assms
proof (induction bs arbitrary: w)
  case Nil
  then show ?case by (simp add: return_def)
next
  case (Cons b bs)
  show ?case
  proof (cases "P b")
    case False
    then show ?thesis using Cons by simp
  next
    case True
    let ?w1 = "w\<lparr>trace := trace w @ [Route b c True]\<rparr>"
    have 1: "BehaviorRouter_route K E b c w = Inr ((), ?w1)"
      using Cons.prems True by (simp add: route_blocked)
    have b1: "c_blockControlFlow (comps ?w1 c)" using Cons.prems(1) by simp
    have "forEach bs (\<lambda>b. if P b then BehaviorRouter_route K E b c else return ()) ?w1 =
           Inr ((), ?w1\<lparr>trace := trace ?w1 @ map (\<lambda>b. Route b c True) (filter P bs)\<rparr>)"
      by (rule Cons.IH [OF b1]) (use Cons.prems(2) in simp)
    then show ?thesis using True 1 by (simp add: bind_def)
  qed
qed

lemma runBehaviors_False_total:
  assumes "\<forall>b\<in>set (routed w c). \<forall>v. BehaviorRouter_raises E v b c = None"
  shows "runBehaviors K E c False w =
           Inr ((), upd_comp c (\<lambda>x. x\<lparr>c_blockControlFlow := False\<rparr>)
                      (w\<lparr>trace := trace w @ map (\<lambda>b. Route b c True) (routed w c)\<rparr>))"
proof -
  let ?w1 = "upd_comp c (\<lambda>x. x\<lparr>c_blockControlFlow := True\<rparr>) w"
  have b: "c_blockControlFlow (comps ?w1 c)" by simp
  have "forEach (c_behaviors (comps w c))
          (\<lambda>b. if eligible w c b then BehaviorRouter_route K E b c else return ()) ?w1 =
        Inr ((), ?w1\<lparr>trace := trace ?w1 @ map (\<lambda>b. Route b c True) (filter (eligible w c) (c_behaviors (comps w c)))\<rparr>)"
    by (rule forEach_blocked_total [OF b]) (use assms in \<open>simp add: routed_def\<close>)
  then show ?thesis
    unfolding runBehaviors_False_eq
    by (simp add: bind_def setBlockControlFlow_def modify_def routed_def upd_comp_def)
qed

section \<open>The claims\<close>

text \<open>
  Claim C1 (construction without a definition). The spec calls a missing definition
  non-fatal. The constructor does log the diagnostic with \<^verbatim>\<open>console.error\<close>
  (line 41) and does not return there, but it goes on to read
  \<^verbatim>\<open>this.definition.tree\<close> at line 44, which raises a \<^verbatim>\<open>TypeError\<close> when the
  data store has no module for the name and tag: the diagnostic is in the trace, nothing
  else has changed (no component is stored or registered), and the constructor does not
  return.
\<close>

theorem Component_without_definition_throws:
  assumes "DataStore_getModule E (toLowerCase E (n_tagName (nodes w domNode))) (n_tag (nodes w domNode)) = None"
  shows "Component K E domNode surrogateRoot parent w =
           Inl (TypeError ''this.definition.tree'',
                w\<lparr>trace := trace w @
                   [ConsoleError (''No module found for `'' @ toLowerCase E (n_tagName (nodes w domNode)) @
                                  '' ('' @ n_tag (nodes w domNode) @ '')`'')]\<rparr>)"
  using assms
  by (simp add: Component_def bind_gets Let_def bind_logEvent throw_def)

theorem Component_without_definition_throws_witness:
  "DataStore_getModule env0 (toLowerCase env0 (n_tagName (nodes world0 7))) (n_tag (nodes world0 7)) = None \<and>
   Component (methods env0 (Suc (Suc 0))) env0 7 None (Some (ParentShim 0 0)) world0 =
     Inl (TypeError ''this.definition.tree'',
          world0\<lparr>trace := [ConsoleError ''No module found for `ghost (v1)`'']\<rparr>)"
proof -
  have h: "DataStore_getModule env0 (toLowerCase env0 (n_tagName (nodes world0 7))) (n_tag (nodes world0 7)) = None"
    by (simp add: world0_def module0_def)
  show ?thesis
    using h Component_without_definition_throws
      [OF h, of "methods env0 (Suc (Suc 0))" None "Some (ParentShim 0 0)"]
    by (simp add: world0_def)
qed




text \<open>
  Claim C3 (registry invariant). The registration is the first call a construction
  makes: it comes before the listeners are wired and before pre-load, the first call of
  \<^verbatim>\<open>_initialize\<close>, and when \<^verbatim>\<open>_initialize\<close> starts the registry maps the uid of
  the node to the new component. The claim says that after any construction the registry
  maps the uid to the component. That holds when the uid has been registered for no
  other component during the construction; a component constructed meanwhile for a node
  with the same uid overwrites the entry, and the constructor still returns.
\<close>

theorem registered_under_uid:
  assumes r: "Component (methods E n) E d s p w = Inr (c, w')"
  shows "(\<exists>w2. initialize (methods E n) E c w2 = Inr ((), w') \<and>
               registry w2 (n_uid (nodes w d)) = Some c) \<and>
         (\<exists>ls rest. added w w' =
            RegisterComponent (n_uid (nodes w d)) c # StatesOn c ''behavior-update'' #
            map (CreateBehaviorListener c) ls @
            TriggerLifecycleEvent PRELOAD_KEY (n_uid (nodes w d)) # rest) \<and>
         ((\<forall>c'. RegisterComponent (n_uid (nodes w d)) c' \<in> set (added w w') \<longrightarrow> c' = c) \<longrightarrow>
            registry w' (n_uid (nodes w d)) = Some c)"
proof -
  let ?u = "n_uid (nodes w d)"
  have f: "frame {} {} w True w'"
    using sat_Component [OF good_methods] r by (rule final_frame)
  from Component_shape [OF r] obtain ls w0 w1 w2 w3 w4 w5 where
    i: "initialize (methods E n) E c w0 = Inr ((), w')" and g: "registry w0 ?u = Some c" and
    a: "added w w' =
        RegisterComponent ?u c # StatesOn c ''behavior-update'' #
        map (CreateBehaviorListener c) ls @
        TriggerLifecycleEvent PRELOAD_KEY ?u #
        added w1 w2 @ added w2 w3 @ added w3 w4 @ added w4 w5 @
        [InitializeDescendantEvents (t_expandedBlueprint (c_tree (comps w' c))) ?u,
         TriggerLifecycleEvent POSTLOAD_KEY ?u]"
    by (elim exE conjE) (rule that)
  have 1: "\<exists>w2. initialize (methods E n) E c w2 = Inr ((), w') \<and> registry w2 ?u = Some c"
    using i g by (intro exI [of _ w0]) simp
  have 2: "\<exists>ls rest. added w w' =
            RegisterComponent ?u c # StatesOn c ''behavior-update'' #
            map (CreateBehaviorListener c) ls @
            TriggerLifecycleEvent PRELOAD_KEY ?u # rest"
    by (intro exI) (rule a)
  have 3: "registry w' ?u = Some c"
    if unique: "\<forall>c'. RegisterComponent ?u c' \<in> set (added w w') \<longrightarrow> c' = c"
  proof -
    have "registry w' ?u = foldl apply_event (registry w) (added w w') ?u"
      using frameD_registry [OF f] by simp
    also have "\<dots> = (if \<exists>c'. RegisterComponent ?u c' \<in> set (added w w') then Some c else registry w ?u)"
      by (rule foldl_apply_event_last) (use unique in blast)
    also have "\<dots> = Some c" using a by auto
    finally show ?thesis .
  qed
  show ?thesis using 1 2 3 by blast
qed

text \<open>
  The counterexample: in \<open>world_dup\<close> the first item node has the uid of the app. The
  construction of the app builds the item, which registers itself under that uid; the
  constructor returns component 0, and the registry maps the uid of its node to
  component 1.
\<close>

theorem registered_duplicate_counterexample:
  "n_uid (nodes world_dup 1) = ''app1'' \<and>
   (\<exists>w'. Component (methods env0 (Suc (Suc 0))) env0 1 None (Some (ParentShim 0 0)) world_dup = Inr (0, w') \<and>
         registry w' ''app1'' = Some 1 \<and>
         RegisterComponent ''app1'' 1 \<in> set (added world_dup w'))"
  by (simp add: method_app prim_app world_dup_def world0_def module0_def added_def)

theorem registered_under_uid_witness:
  "Component (methods env0 (Suc (Suc 0))) env0 1 None (Some (ParentShim 0 0)) world0 = Inr (0, world1) \<and>
   n_uid (nodes world0 1) = ''app1'' \<and>
   (\<exists>w2. initialize (methods env0 (Suc (Suc 0))) env0 0 w2 = Inr ((), world1) \<and>
         registry w2 ''app1'' = Some 0) \<and>
   (\<exists>ls rest. added world0 world1 =
      RegisterComponent ''app1'' 0 # StatesOn 0 ''behavior-update'' #
      map (CreateBehaviorListener 0) ls @ TriggerLifecycleEvent PRELOAD_KEY ''app1'' # rest) \<and>
   registry world1 ''app1'' = Some 0"
proof -
  have u: "n_uid (nodes world0 1) = ''app1''" by (simp add: world0_def)
  have a: "added world0 world1 = trace1" by (simp add: added_def world0_def)
  have h: "\<forall>c'. RegisterComponent (n_uid (nodes world0 1)) c' \<in> set (added world0 world1) \<longrightarrow> c' = 0"
    unfolding u a by (simp add: trace1_def)
  from registered_under_uid [OF construct_app] h construct_app u show ?thesis by simp
qed

text \<open>
  Claim C4 (repeat-info round trip). If the root node of the component carries the
  carrier attribute and its text parses to an object with \<^verbatim>\<open>$index\<close> \<open>i\<close> and
  \<^verbatim>\<open>$repeatPayload\<close> \<open>p\<close>, then when \<^verbatim>\<open>_processDOMMessages\<close> returns the state
  holds \<open>i\<close> and \<open>p\<close> under the two keys, \<open>p\<close> was sent as messages to the
  component first, the blueprint was stripped last, and the attribute is gone from the
  root node. If the attribute is absent, the state holds \<open>0\<close> and \<^verbatim>\<open>null\<close>. Setting
  the two keys notifies the behaviors that listen to them, which are routed between the
  message and the stripping; when no behavior of the component listens to either key,
  \<^verbatim>\<open>_processDOMMessages\<close> returns, and adds nothing else to the trace. The same
  holds of a whole construction: when the constructor is given an existing node that
  carries the carrier and returns, the new component has that node as its root, its
  state holds \<open>i\<close> and \<open>p\<close>, \<open>p\<close> is among the messages sent during the
  construction, and the node no longer carries the attribute; given an existing node
  without the attribute, the state holds \<open>0\<close> and \<^verbatim>\<open>null\<close>. The steps of
  \<^verbatim>\<open>_initialize\<close> after \<^verbatim>\<open>_processDOMMessages\<close> set no state and write no carrier.
\<close>

theorem repeat_info_seeds_state:
  "(processDOMMessages (methods E n) E c w = Inr ((), w') \<and>
    c < next_cid w \<and> t_rootNode (c_tree (comps w c)) < next_nid w \<and>
    n_attributes (nodes w (t_rootNode (c_tree (comps w c)))) REPEAT_INFO_KEY = Some s \<and> s \<noteq> [] \<and>
    JSON_parse E s = Some (JObj kvs) \<and> map_of kvs INDEX_KEY = Some i \<and>
    map_of kvs REPEAT_PAYLOAD_KEY = Some p \<longrightarrow>
      States_get w' c INDEX_KEY = Some (Val i) \<and>
      States_get w' c REPEAT_PAYLOAD_KEY = Some (Val p) \<and>
      (\<exists>ev. added w w' = SendMessages (Val p) (c_uid (comps w c)) # ev @ [StripExpandedBlueprintMessages c]) \<and>
      n_attributes (nodes w' (t_rootNode (c_tree (comps w' c)))) REPEAT_INFO_KEY = None) \<and>
   (processDOMMessages (methods E n) E c w = Inr ((), w') \<and>
    c < next_cid w \<and> t_rootNode (c_tree (comps w c)) < next_nid w \<and>
    n_attributes (nodes w (t_rootNode (c_tree (comps w c)))) REPEAT_INFO_KEY = None \<longrightarrow>
      States_get w' c INDEX_KEY = Some (Val (JNum 0)) \<and>
      States_get w' c REPEAT_PAYLOAD_KEY = Some (Val JNull) \<and>
      (\<exists>ev. added w w' = ev @ [StripExpandedBlueprintMessages c]) \<and>
      n_attributes (nodes w' (t_rootNode (c_tree (comps w' c)))) REPEAT_INFO_KEY = None) \<and>
   ((\<forall>b. BehaviorListener b \<in> set (c_listeners (comps w c)) \<longrightarrow>
          INDEX_KEY \<notin> set (b_params b) \<and> REPEAT_PAYLOAD_KEY \<notin> set (b_params b)) \<and>
    n_attributes (nodes w (t_rootNode (c_tree (comps w c)))) REPEAT_INFO_KEY = Some s \<and> s \<noteq> [] \<and>
    JSON_parse E s = Some (JObj kvs) \<and> map_of kvs INDEX_KEY = Some i \<and>
    map_of kvs REPEAT_PAYLOAD_KEY = Some p \<longrightarrow>
      processDOMMessages K E c w =
        Inr ((), upd_comp c (\<lambda>x. x\<lparr>c_states := assign REPEAT_PAYLOAD_KEY (Val p)
                                       (assign INDEX_KEY (Val i) (c_states x))\<rparr>)
              (upd_node (t_rootNode (c_tree (comps w c)))
                 (\<lambda>x. x\<lparr>n_attributes := (n_attributes x)(REPEAT_INFO_KEY := None)\<rparr>)
                 (w\<lparr>trace := trace w @ [SendMessages (Val p) (c_uid (comps w c)),
                                      StripExpandedBlueprintMessages c]\<rparr>)))) \<and>
   ((\<forall>b. BehaviorListener b \<in> set (c_listeners (comps w c)) \<longrightarrow>
          INDEX_KEY \<notin> set (b_params b) \<and> REPEAT_PAYLOAD_KEY \<notin> set (b_params b)) \<and>
    n_attributes (nodes w (t_rootNode (c_tree (comps w c)))) REPEAT_INFO_KEY = None \<longrightarrow>
      processDOMMessages K E c w =
        Inr ((), upd_comp c (\<lambda>x. x\<lparr>c_states := assign REPEAT_PAYLOAD_KEY (Val JNull)
                                       (assign INDEX_KEY (Val (JNum 0)) (c_states x))\<rparr>)
              (w\<lparr>trace := trace w @ [StripExpandedBlueprintMessages c]\<rparr>))) \<and>
   (Component (methods E n) E d sr pa v = Inr (k, v') \<and> d < next_nid v \<and>
    n_attributes (nodes v d) REPEAT_INFO_KEY = Some s \<and> s \<noteq> [] \<and>
    JSON_parse E s = Some (JObj kvs) \<and> map_of kvs INDEX_KEY = Some i \<and>
    map_of kvs REPEAT_PAYLOAD_KEY = Some p \<longrightarrow>
      States_get v' k INDEX_KEY = Some (Val i) \<and>
      States_get v' k REPEAT_PAYLOAD_KEY = Some (Val p) \<and>
      SendMessages (Val p) (n_uid (nodes v d)) \<in> set (added v v') \<and>
      t_rootNode (c_tree (comps v' k)) = d \<and>
      n_attributes (nodes v' d) REPEAT_INFO_KEY = None) \<and>
   (Component (methods E n) E d sr pa v = Inr (k, v') \<and> d < next_nid v \<and>
    n_attributes (nodes v d) REPEAT_INFO_KEY = None \<longrightarrow>
      States_get v' k INDEX_KEY = Some (Val (JNum 0)) \<and>
      States_get v' k REPEAT_PAYLOAD_KEY = Some (Val JNull) \<and>
      t_rootNode (c_tree (comps v' k)) = d \<and>
      n_attributes (nodes v' d) REPEAT_INFO_KEY = None)"
proof -
  note K = gentle_methods [of E n] and G = good_methods [of E n]
  have c1: "processDOMMessages (methods E n) E c w = Inr ((), w') \<and>
    c < next_cid w \<and> t_rootNode (c_tree (comps w c)) < next_nid w \<and>
    n_attributes (nodes w (t_rootNode (c_tree (comps w c)))) REPEAT_INFO_KEY = Some s \<and> s \<noteq> [] \<and>
    JSON_parse E s = Some (JObj kvs) \<and> map_of kvs INDEX_KEY = Some i \<and>
    map_of kvs REPEAT_PAYLOAD_KEY = Some p \<longrightarrow>
      States_get w' c INDEX_KEY = Some (Val i) \<and>
      States_get w' c REPEAT_PAYLOAD_KEY = Some (Val p) \<and>
      (\<exists>ev. added w w' = SendMessages (Val p) (c_uid (comps w c)) # ev @ [StripExpandedBlueprintMessages c]) \<and>
      n_attributes (nodes w' (t_rootNode (c_tree (comps w' c)))) REPEAT_INFO_KEY = None"
  proof (rule impI)
    assume a: "processDOMMessages (methods E n) E c w = Inr ((), w') \<and>
      c < next_cid w \<and> t_rootNode (c_tree (comps w c)) < next_nid w \<and>
      n_attributes (nodes w (t_rootNode (c_tree (comps w c)))) REPEAT_INFO_KEY = Some s \<and> s \<noteq> [] \<and>
      JSON_parse E s = Some (JObj kvs) \<and> map_of kvs INDEX_KEY = Some i \<and>
      map_of kvs REPEAT_PAYLOAD_KEY = Some p"
    then have r: "processDOMMessages (methods E n) E c w = Inr ((), w')" and
      c: "c < next_cid w" and d: "t_rootNode (c_tree (comps w c)) < next_nid w" and
      p: "n_attributes (nodes w (t_rootNode (c_tree (comps w c)))) REPEAT_INFO_KEY = Some s" "s \<noteq> []"
        "JSON_parse E s = Some (JObj kvs)" "map_of kvs INDEX_KEY = Some i"
        "map_of kvs REPEAT_PAYLOAD_KEY = Some p"
      by simp_all
    note l = processDOMMessages_present_Inr [OF K G r c d p]
    have st: "c_states (comps w' c) =
        assign REPEAT_PAYLOAD_KEY (Val p) (assign INDEX_KEY (Val i) (c_states (comps w c)))"
      using l by (rule conjunct1)
    have rt: "t_rootNode (c_tree (comps w' c)) = t_rootNode (c_tree (comps w c))"
      using l [THEN conjunct2] by (rule conjunct1)
    have at: "n_attributes (nodes w' (t_rootNode (c_tree (comps w c)))) REPEAT_INFO_KEY = None"
      using l [THEN conjunct2, THEN conjunct2] by (rule conjunct1)
    have ad: "\<exists>ev. added w w' = SendMessages (Val p) (c_uid (comps w c)) # ev @ [StripExpandedBlueprintMessages c]"
      using l [THEN conjunct2, THEN conjunct2, THEN conjunct2] by (rule conjunct2)
    have 1: "States_get w' c INDEX_KEY = Some (Val i)" "States_get w' c REPEAT_PAYLOAD_KEY = Some (Val p)"
      unfolding States_get_def st by (simp_all add: map_of_assign)
    have 2: "n_attributes (nodes w' (t_rootNode (c_tree (comps w' c)))) REPEAT_INFO_KEY = None"
      unfolding rt by (rule at)
    show "States_get w' c INDEX_KEY = Some (Val i) \<and>
      States_get w' c REPEAT_PAYLOAD_KEY = Some (Val p) \<and>
      (\<exists>ev. added w w' = SendMessages (Val p) (c_uid (comps w c)) # ev @ [StripExpandedBlueprintMessages c]) \<and>
      n_attributes (nodes w' (t_rootNode (c_tree (comps w' c)))) REPEAT_INFO_KEY = None"
      by (intro conjI) (rule 1(1), rule 1(2), rule ad, rule 2)
  qed
  have c2: "processDOMMessages (methods E n) E c w = Inr ((), w') \<and>
    c < next_cid w \<and> t_rootNode (c_tree (comps w c)) < next_nid w \<and>
    n_attributes (nodes w (t_rootNode (c_tree (comps w c)))) REPEAT_INFO_KEY = None \<longrightarrow>
      States_get w' c INDEX_KEY = Some (Val (JNum 0)) \<and>
      States_get w' c REPEAT_PAYLOAD_KEY = Some (Val JNull) \<and>
      (\<exists>ev. added w w' = ev @ [StripExpandedBlueprintMessages c]) \<and>
      n_attributes (nodes w' (t_rootNode (c_tree (comps w' c)))) REPEAT_INFO_KEY = None"
  proof (rule impI)
    assume a: "processDOMMessages (methods E n) E c w = Inr ((), w') \<and>
      c < next_cid w \<and> t_rootNode (c_tree (comps w c)) < next_nid w \<and>
      n_attributes (nodes w (t_rootNode (c_tree (comps w c)))) REPEAT_INFO_KEY = None"
    then have r: "processDOMMessages (methods E n) E c w = Inr ((), w')" and
      c: "c < next_cid w" and d: "t_rootNode (c_tree (comps w c)) < next_nid w" and
      p: "n_attributes (nodes w (t_rootNode (c_tree (comps w c)))) REPEAT_INFO_KEY = None"
      by simp_all
    note l = processDOMMessages_absent_Inr [OF K G r c d p]
    have st: "c_states (comps w' c) =
        assign REPEAT_PAYLOAD_KEY (Val JNull) (assign INDEX_KEY (Val (JNum 0)) (c_states (comps w c)))"
      using l by (rule conjunct1)
    have rt: "t_rootNode (c_tree (comps w' c)) = t_rootNode (c_tree (comps w c))"
      using l [THEN conjunct2] by (rule conjunct1)
    have at: "n_attributes (nodes w' (t_rootNode (c_tree (comps w c)))) REPEAT_INFO_KEY = None"
      using l [THEN conjunct2, THEN conjunct2] by (rule conjunct1)
    have ad: "\<exists>ev. added w w' = ev @ [StripExpandedBlueprintMessages c]"
      using l [THEN conjunct2, THEN conjunct2, THEN conjunct2] by (rule conjunct2)
    have 1: "States_get w' c INDEX_KEY = Some (Val (JNum 0))" "States_get w' c REPEAT_PAYLOAD_KEY = Some (Val JNull)"
      unfolding States_get_def st by (simp_all add: map_of_assign)
    have 2: "n_attributes (nodes w' (t_rootNode (c_tree (comps w' c)))) REPEAT_INFO_KEY = None"
      unfolding rt by (rule at)
    show "States_get w' c INDEX_KEY = Some (Val (JNum 0)) \<and>
      States_get w' c REPEAT_PAYLOAD_KEY = Some (Val JNull) \<and>
      (\<exists>ev. added w w' = ev @ [StripExpandedBlueprintMessages c]) \<and>
      n_attributes (nodes w' (t_rootNode (c_tree (comps w' c)))) REPEAT_INFO_KEY = None"
      by (intro conjI) (rule 1(1), rule 1(2), rule ad, rule 2)
  qed
  have c3: "(\<forall>b. BehaviorListener b \<in> set (c_listeners (comps w c)) \<longrightarrow>
          INDEX_KEY \<notin> set (b_params b) \<and> REPEAT_PAYLOAD_KEY \<notin> set (b_params b)) \<and>
    n_attributes (nodes w (t_rootNode (c_tree (comps w c)))) REPEAT_INFO_KEY = Some s \<and> s \<noteq> [] \<and>
    JSON_parse E s = Some (JObj kvs) \<and> map_of kvs INDEX_KEY = Some i \<and>
    map_of kvs REPEAT_PAYLOAD_KEY = Some p \<longrightarrow>
      processDOMMessages K E c w =
        Inr ((), upd_comp c (\<lambda>x. x\<lparr>c_states := assign REPEAT_PAYLOAD_KEY (Val p)
                                       (assign INDEX_KEY (Val i) (c_states x))\<rparr>)
              (upd_node (t_rootNode (c_tree (comps w c)))
                 (\<lambda>x. x\<lparr>n_attributes := (n_attributes x)(REPEAT_INFO_KEY := None)\<rparr>)
                 (w\<lparr>trace := trace w @ [SendMessages (Val p) (c_uid (comps w c)),
                                      StripExpandedBlueprintMessages c]\<rparr>)))"
  proof (rule impI)
    assume a: "(\<forall>b. BehaviorListener b \<in> set (c_listeners (comps w c)) \<longrightarrow>
          INDEX_KEY \<notin> set (b_params b) \<and> REPEAT_PAYLOAD_KEY \<notin> set (b_params b)) \<and>
      n_attributes (nodes w (t_rootNode (c_tree (comps w c)))) REPEAT_INFO_KEY = Some s \<and> s \<noteq> [] \<and>
      JSON_parse E s = Some (JObj kvs) \<and> map_of kvs INDEX_KEY = Some i \<and>
      map_of kvs REPEAT_PAYLOAD_KEY = Some p"
    then have q: "\<forall>b. BehaviorListener b \<in> set (c_listeners (comps w c)) \<longrightarrow>
          INDEX_KEY \<notin> set (b_params b) \<and> REPEAT_PAYLOAD_KEY \<notin> set (b_params b)" and
      p: "n_attributes (nodes w (t_rootNode (c_tree (comps w c)))) REPEAT_INFO_KEY = Some s" "s \<noteq> []"
        "JSON_parse E s = Some (JObj kvs)" "map_of kvs INDEX_KEY = Some i"
        "map_of kvs REPEAT_PAYLOAD_KEY = Some p"
      by blast+
    show "processDOMMessages K E c w =
        Inr ((), upd_comp c (\<lambda>x. x\<lparr>c_states := assign REPEAT_PAYLOAD_KEY (Val p)
                                       (assign INDEX_KEY (Val i) (c_states x))\<rparr>)
              (upd_node (t_rootNode (c_tree (comps w c)))
                 (\<lambda>x. x\<lparr>n_attributes := (n_attributes x)(REPEAT_INFO_KEY := None)\<rparr>)
                 (w\<lparr>trace := trace w @ [SendMessages (Val p) (c_uid (comps w c)),
                                      StripExpandedBlueprintMessages c]\<rparr>)))"
      by (rule processDOMMessages_quiet_present [OF q p])
  qed
  have c4: "(\<forall>b. BehaviorListener b \<in> set (c_listeners (comps w c)) \<longrightarrow>
          INDEX_KEY \<notin> set (b_params b) \<and> REPEAT_PAYLOAD_KEY \<notin> set (b_params b)) \<and>
    n_attributes (nodes w (t_rootNode (c_tree (comps w c)))) REPEAT_INFO_KEY = None \<longrightarrow>
      processDOMMessages K E c w =
        Inr ((), upd_comp c (\<lambda>x. x\<lparr>c_states := assign REPEAT_PAYLOAD_KEY (Val JNull)
                                       (assign INDEX_KEY (Val (JNum 0)) (c_states x))\<rparr>)
              (w\<lparr>trace := trace w @ [StripExpandedBlueprintMessages c]\<rparr>))"
  proof (rule impI)
    assume a: "(\<forall>b. BehaviorListener b \<in> set (c_listeners (comps w c)) \<longrightarrow>
          INDEX_KEY \<notin> set (b_params b) \<and> REPEAT_PAYLOAD_KEY \<notin> set (b_params b)) \<and>
      n_attributes (nodes w (t_rootNode (c_tree (comps w c)))) REPEAT_INFO_KEY = None"
    then have q: "\<forall>b. BehaviorListener b \<in> set (c_listeners (comps w c)) \<longrightarrow>
          INDEX_KEY \<notin> set (b_params b) \<and> REPEAT_PAYLOAD_KEY \<notin> set (b_params b)" and
      p: "\<not> truthy (n_attributes (nodes w (t_rootNode (c_tree (comps w c)))) REPEAT_INFO_KEY)"
      by (simp_all add: truthy_def)
    show "processDOMMessages K E c w =
        Inr ((), upd_comp c (\<lambda>x. x\<lparr>c_states := assign REPEAT_PAYLOAD_KEY (Val JNull)
                                       (assign INDEX_KEY (Val (JNum 0)) (c_states x))\<rparr>)
              (w\<lparr>trace := trace w @ [StripExpandedBlueprintMessages c]\<rparr>))"
      by (rule processDOMMessages_quiet_absent [OF q p])
  qed
  have c5: "Component (methods E n) E d sr pa v = Inr (k, v') \<and> d < next_nid v \<and>
    n_attributes (nodes v d) REPEAT_INFO_KEY = Some s \<and> s \<noteq> [] \<and>
    JSON_parse E s = Some (JObj kvs) \<and> map_of kvs INDEX_KEY = Some i \<and>
    map_of kvs REPEAT_PAYLOAD_KEY = Some p \<longrightarrow>
      States_get v' k INDEX_KEY = Some (Val i) \<and>
      States_get v' k REPEAT_PAYLOAD_KEY = Some (Val p) \<and>
      SendMessages (Val p) (n_uid (nodes v d)) \<in> set (added v v') \<and>
      t_rootNode (c_tree (comps v' k)) = d \<and>
      n_attributes (nodes v' d) REPEAT_INFO_KEY = None"
  proof (rule impI)
    assume a: "Component (methods E n) E d sr pa v = Inr (k, v') \<and> d < next_nid v \<and>
      n_attributes (nodes v d) REPEAT_INFO_KEY = Some s \<and> s \<noteq> [] \<and>
      JSON_parse E s = Some (JObj kvs) \<and> map_of kvs INDEX_KEY = Some i \<and>
      map_of kvs REPEAT_PAYLOAD_KEY = Some p"
    then have r: "Component (methods E n) E d sr pa v = Inr (k, v')" and d: "d < next_nid v" and
      p: "n_attributes (nodes v d) REPEAT_INFO_KEY = Some s" "s \<noteq> []"
        "JSON_parse E s = Some (JObj kvs)" "map_of kvs INDEX_KEY = Some i"
        "map_of kvs REPEAT_PAYLOAD_KEY = Some p"
      by simp_all
    from Component_carrier [OF r d] obtain w3 w4 pre post where
      dm: "processDOMMessages (methods E n) E k w3 = Inr ((), w4)" and
      k3: "k < next_cid w3" and d3: "d < next_nid w3" and
      r3: "t_rootNode (c_tree (comps w3 k)) = d" and u3: "c_uid (comps w3 k) = n_uid (nodes v d)" and
      a3: "n_attributes (nodes w3 d) REPEAT_INFO_KEY = n_attributes (nodes v d) REPEAT_INFO_KEY" and
      k4: "keeps {} {} w4 v'" and
      t3: "trace w3 = trace v @ pre" and t4: "trace v' = trace w4 @ post"
      by (elim exE conjE) (rule that)
    have d3': "t_rootNode (c_tree (comps w3 k)) < next_nid w3" using d3 r3 by simp
    have p3: "n_attributes (nodes w3 (t_rootNode (c_tree (comps w3 k)))) REPEAT_INFO_KEY = Some s"
      using p(1) a3 r3 by simp
    note l = processDOMMessages_present_Inr [OF K G dm k3 d3' p3 p(2) p(3) p(4) p(5)]
    have st: "c_states (comps w4 k) =
        assign REPEAT_PAYLOAD_KEY (Val p) (assign INDEX_KEY (Val i) (c_states (comps w3 k)))"
      using l by (rule conjunct1)
    have rt: "t_rootNode (c_tree (comps w4 k)) = d"
      using l [THEN conjunct2, THEN conjunct1] r3 by simp
    have at: "n_attributes (nodes w4 d) REPEAT_INFO_KEY = None"
      using l [THEN conjunct2, THEN conjunct2, THEN conjunct1] r3 by simp
    have tr: "trace w4 = trace w3 @ added w3 w4"
      using l [THEN conjunct2, THEN conjunct2, THEN conjunct2] by (rule conjunct1)
    from l [THEN conjunct2, THEN conjunct2, THEN conjunct2, THEN conjunct2] obtain ev where
      ad: "added w3 w4 = SendMessages (Val p) (c_uid (comps w3 k)) # ev @ [StripExpandedBlueprintMessages k]"
      ..
    have n34: "next_nid w3 \<le> next_nid w4 \<and> next_cid w3 \<le> next_cid w4"
      using processDOMMessages_keeps [OF K dm] by (rule keepsD_next)
    have k4': "k < next_cid w4" and d4: "d < next_nid w4" using n34 k3 d3 by simp_all
    have 1: "States_get v' k INDEX_KEY = Some (Val i)" "States_get v' k REPEAT_PAYLOAD_KEY = Some (Val p)"
      unfolding States_get_def using keepsD_states [OF k4 k4'] st by (simp_all add: map_of_assign)
    have 2: "t_rootNode (c_tree (comps v' k)) = d"
      using keepsD_comp [OF k4 k4'] rt by simp
    have 3: "n_attributes (nodes v' d) REPEAT_INFO_KEY = None"
      using keepsD_attr [OF k4 d4] at by simp
    have "trace v' = trace v @ pre @ SendMessages (Val p) (n_uid (nodes v d)) # ev @
                       [StripExpandedBlueprintMessages k] @ post"
      unfolding t4 tr ad t3 u3 by simp
    then have "added v v' = pre @ SendMessages (Val p) (n_uid (nodes v d)) # ev @
                       [StripExpandedBlueprintMessages k] @ post"
      by (rule added_cons)
    then have 4: "SendMessages (Val p) (n_uid (nodes v d)) \<in> set (added v v')" by simp
    show "States_get v' k INDEX_KEY = Some (Val i) \<and>
      States_get v' k REPEAT_PAYLOAD_KEY = Some (Val p) \<and>
      SendMessages (Val p) (n_uid (nodes v d)) \<in> set (added v v') \<and>
      t_rootNode (c_tree (comps v' k)) = d \<and>
      n_attributes (nodes v' d) REPEAT_INFO_KEY = None"
      by (intro conjI) (rule 1(1), rule 1(2), rule 4, rule 2, rule 3)
  qed
  have c6: "Component (methods E n) E d sr pa v = Inr (k, v') \<and> d < next_nid v \<and>
    n_attributes (nodes v d) REPEAT_INFO_KEY = None \<longrightarrow>
      States_get v' k INDEX_KEY = Some (Val (JNum 0)) \<and>
      States_get v' k REPEAT_PAYLOAD_KEY = Some (Val JNull) \<and>
      t_rootNode (c_tree (comps v' k)) = d \<and>
      n_attributes (nodes v' d) REPEAT_INFO_KEY = None"
  proof (rule impI)
    assume a: "Component (methods E n) E d sr pa v = Inr (k, v') \<and> d < next_nid v \<and>
      n_attributes (nodes v d) REPEAT_INFO_KEY = None"
    then have r: "Component (methods E n) E d sr pa v = Inr (k, v')" and d: "d < next_nid v" and
      p: "n_attributes (nodes v d) REPEAT_INFO_KEY = None"
      by simp_all
    from Component_carrier [OF r d] obtain w3 w4 where
      dm: "processDOMMessages (methods E n) E k w3 = Inr ((), w4)" and
      k3: "k < next_cid w3" and d3: "d < next_nid w3" and
      r3: "t_rootNode (c_tree (comps w3 k)) = d" and
      a3: "n_attributes (nodes w3 d) REPEAT_INFO_KEY = n_attributes (nodes v d) REPEAT_INFO_KEY" and
      k4: "keeps {} {} w4 v'"
      by (elim exE conjE) (rule that)
    have d3': "t_rootNode (c_tree (comps w3 k)) < next_nid w3" using d3 r3 by simp
    have p3: "n_attributes (nodes w3 (t_rootNode (c_tree (comps w3 k)))) REPEAT_INFO_KEY = None"
      using p a3 r3 by simp
    note l = processDOMMessages_absent_Inr [OF K G dm k3 d3' p3]
    have st: "c_states (comps w4 k) =
        assign REPEAT_PAYLOAD_KEY (Val JNull) (assign INDEX_KEY (Val (JNum 0)) (c_states (comps w3 k)))"
      using l by (rule conjunct1)
    have rt: "t_rootNode (c_tree (comps w4 k)) = d"
      using l [THEN conjunct2, THEN conjunct1] r3 by simp
    have at: "n_attributes (nodes w4 d) REPEAT_INFO_KEY = None"
      using l [THEN conjunct2, THEN conjunct2, THEN conjunct1] r3 by simp
    have n34: "next_nid w3 \<le> next_nid w4 \<and> next_cid w3 \<le> next_cid w4"
      using processDOMMessages_keeps [OF K dm] by (rule keepsD_next)
    have k4': "k < next_cid w4" and d4: "d < next_nid w4" using n34 k3 d3 by simp_all
    have 1: "States_get v' k INDEX_KEY = Some (Val (JNum 0))" "States_get v' k REPEAT_PAYLOAD_KEY = Some (Val JNull)"
      unfolding States_get_def using keepsD_states [OF k4 k4'] st by (simp_all add: map_of_assign)
    have 2: "t_rootNode (c_tree (comps v' k)) = d"
      using keepsD_comp [OF k4 k4'] rt by simp
    have 3: "n_attributes (nodes v' d) REPEAT_INFO_KEY = None"
      using keepsD_attr [OF k4 d4] at by simp
    show "States_get v' k INDEX_KEY = Some (Val (JNum 0)) \<and>
      States_get v' k REPEAT_PAYLOAD_KEY = Some (Val JNull) \<and>
      t_rootNode (c_tree (comps v' k)) = d \<and>
      n_attributes (nodes v' d) REPEAT_INFO_KEY = None"
      by (intro conjI) (rule 1(1), rule 1(2), rule 2, rule 3)
  qed
  show ?thesis
    by (intro conjI) (rule c1, rule c2, rule c3, rule c4, rule c5, rule c6)
qed

theorem repeat_info_seeds_state_witness:
  "n_attributes (nodes world_child (t_rootNode (c_tree (comps world_child 1)))) REPEAT_INFO_KEY = Some CARRIER \<and>
   JSON_parse env0 CARRIER = Some (JObj [(INDEX_KEY, JNum 2), (REPEAT_PAYLOAD_KEY, JObj [(''x'', JNum 7)])]) \<and>
   (\<exists>w'. processDOMMessages (methods env0 (Suc 0)) env0 1 world_child = Inr ((), w') \<and>
         States_get w' 1 INDEX_KEY = Some (Val (JNum 2)) \<and>
         States_get w' 1 REPEAT_PAYLOAD_KEY = Some (Val (JObj [(''x'', JNum 7)])) \<and>
         (\<exists>ev. added world_child w' =
            SendMessages (Val (JObj [(''x'', JNum 7)])) ''item1'' # ev @ [StripExpandedBlueprintMessages 1]) \<and>
         added world_child w' =
            [SendMessages (Val (JObj [(''x'', JNum 7)])) ''item1'', Route b_label 1 False,
             StripExpandedBlueprintMessages 1] \<and>
         n_attributes (nodes w' (t_rootNode (c_tree (comps w' 1)))) REPEAT_INFO_KEY = None) \<and>
   n_attributes (nodes world1 (t_rootNode (c_tree (comps world1 0)))) REPEAT_INFO_KEY = None \<and>
   (\<exists>w'. processDOMMessages (methods env0 (Suc 0)) env0 0 world1 = Inr ((), w') \<and>
         States_get w' 0 INDEX_KEY = Some (Val (JNum 0)) \<and>
         States_get w' 0 REPEAT_PAYLOAD_KEY = Some (Val JNull) \<and>
         (\<exists>ev. added world1 w' = ev @ [StripExpandedBlueprintMessages 0]) \<and>
         n_attributes (nodes w' (t_rootNode (c_tree (comps w' 0)))) REPEAT_INFO_KEY = None) \<and>
   processDOMMessages (methods env0 0) env0 0
       (world1\<lparr>nodes := nodes1(1 := (nodes1 1)\<lparr>n_attributes := [REPEAT_INFO_KEY \<mapsto> CARRIER]\<rparr>)\<rparr>) =
     Inr ((), upd_comp 0 (\<lambda>x. x\<lparr>c_states := assign REPEAT_PAYLOAD_KEY (Val (JObj [(''x'', JNum 7)]))
                                       (assign INDEX_KEY (Val (JNum 2)) (c_states x))\<rparr>)
              (upd_node 1 (\<lambda>x. x\<lparr>n_attributes := (n_attributes x)(REPEAT_INFO_KEY := None)\<rparr>)
                 (world1\<lparr>nodes := nodes1(1 := (nodes1 1)\<lparr>n_attributes := [REPEAT_INFO_KEY \<mapsto> CARRIER]\<rparr>),
                         trace := trace1 @ [SendMessages (Val (JObj [(''x'', JNum 7)])) ''app1'',
                                            StripExpandedBlueprintMessages 0]\<rparr>))) \<and>
   processDOMMessages (methods env0 0) env0 0 world1 =
     Inr ((), upd_comp 0 (\<lambda>x. x\<lparr>c_states := assign REPEAT_PAYLOAD_KEY (Val JNull)
                                       (assign INDEX_KEY (Val (JNum 0)) (c_states x))\<rparr>)
              (world1\<lparr>trace := trace1 @ [StripExpandedBlueprintMessages 0]\<rparr>)) \<and>
   4 < next_nid world0 \<and> n_attributes (nodes world0 4) REPEAT_INFO_KEY = Some CARRIER \<and>
   (\<exists>w'. Component (methods env0 (Suc 0)) env0 4 None (Some (ParentShim 0 0)) world0 = Inr (0, w') \<and>
         States_get w' 0 INDEX_KEY = Some (Val (JNum 2)) \<and>
         States_get w' 0 REPEAT_PAYLOAD_KEY = Some (Val (JObj [(''x'', JNum 7)])) \<and>
         SendMessages (Val (JObj [(''x'', JNum 7)])) ''item1'' \<in> set (added world0 w') \<and>
         t_rootNode (c_tree (comps w' 0)) = 4 \<and>
         n_attributes (nodes w' 4) REPEAT_INFO_KEY = None) \<and>
   1 < next_nid world0 \<and> n_attributes (nodes world0 1) REPEAT_INFO_KEY = None \<and>
   Component (methods env0 (Suc (Suc 0))) env0 1 None (Some (ParentShim 0 0)) world0 = Inr (0, world1) \<and>
   States_get world1 0 INDEX_KEY = Some (Val (JNum 0)) \<and>
   States_get world1 0 REPEAT_PAYLOAD_KEY = Some (Val JNull) \<and>
   t_rootNode (c_tree (comps world1 0)) = 1 \<and>
   n_attributes (nodes world1 1) REPEAT_INFO_KEY = None"
proof -
  let ?kvs = "[(INDEX_KEY, JNum 2), (REPEAT_PAYLOAD_KEY, JObj [(''x'', JNum 7)])]"
  let ?p = "JObj [(''x'', JNum 7)]"
  let ?wq = "world1\<lparr>nodes := nodes1(1 := (nodes1 1)\<lparr>n_attributes := [REPEAT_INFO_KEY \<mapsto> CARRIER]\<rparr>)\<rparr>"
  have 1: "n_attributes (nodes world_child (t_rootNode (c_tree (comps world_child 1)))) REPEAT_INFO_KEY = Some CARRIER"
    by simp
  have 2: "JSON_parse env0 CARRIER = Some (JObj ?kvs)"
    by simp
  have 3: "n_attributes (nodes world1 (t_rootNode (c_tree (comps world1 0)))) REPEAT_INFO_KEY = None"
    by simp
  have u: "c_uid (comps world_child 1) = ''item1''" by (simp add: item1_component_def)
  have 4: "4 < next_nid world0" "n_attributes (nodes world0 4) REPEAT_INFO_KEY = Some CARRIER"
    "n_uid (nodes world0 4) = ''item1''"
    "1 < next_nid world0" "n_attributes (nodes world0 1) REPEAT_INFO_KEY = None"
    by (simp_all add: world0_def)
  have m: "map_of ?kvs INDEX_KEY = Some (JNum 2)" "map_of ?kvs REPEAT_PAYLOAD_KEY = Some ?p" "CARRIER \<noteq> []"
    by simp_all
  from dom_item1 obtain wa where
    da: "processDOMMessages (methods env0 (Suc 0)) env0 1 world_child = Inr ((), wa)" and
    ta: "added world_child wa =
            [SendMessages (Val ?p) ''item1'', Route b_label 1 False, StripExpandedBlueprintMessages 1]"
    by (elim exE conjE) (rule that)
  have ha: "processDOMMessages (methods env0 (Suc 0)) env0 1 world_child = Inr ((), wa) \<and>
    1 < next_cid world_child \<and> t_rootNode (c_tree (comps world_child 1)) < next_nid world_child \<and>
    n_attributes (nodes world_child (t_rootNode (c_tree (comps world_child 1)))) REPEAT_INFO_KEY = Some CARRIER \<and>
    CARRIER \<noteq> [] \<and>
    JSON_parse env0 CARRIER = Some (JObj ?kvs) \<and> map_of ?kvs INDEX_KEY = Some (JNum 2) \<and>
    map_of ?kvs REPEAT_PAYLOAD_KEY = Some ?p"
    using da by simp
  have ra: "States_get wa 1 INDEX_KEY = Some (Val (JNum 2)) \<and>
      States_get wa 1 REPEAT_PAYLOAD_KEY = Some (Val ?p) \<and>
      (\<exists>ev. added world_child wa = SendMessages (Val ?p) (c_uid (comps world_child 1)) # ev @
               [StripExpandedBlueprintMessages 1]) \<and>
      n_attributes (nodes wa (t_rootNode (c_tree (comps wa 1)))) REPEAT_INFO_KEY = None"
    using repeat_info_seeds_state
         [where w = world_child and c = 1 and s = CARRIER and E = env0 and kvs = ?kvs and n = "Suc 0"
            and w' = wa and i = "JNum 2" and p = ?p, THEN conjunct1] ha
    by (rule mp)
  have a: "\<exists>w'. processDOMMessages (methods env0 (Suc 0)) env0 1 world_child = Inr ((), w') \<and>
         States_get w' 1 INDEX_KEY = Some (Val (JNum 2)) \<and>
         States_get w' 1 REPEAT_PAYLOAD_KEY = Some (Val ?p) \<and>
         (\<exists>ev. added world_child w' =
            SendMessages (Val ?p) ''item1'' # ev @ [StripExpandedBlueprintMessages 1]) \<and>
         added world_child w' =
            [SendMessages (Val ?p) ''item1'', Route b_label 1 False, StripExpandedBlueprintMessages 1] \<and>
         n_attributes (nodes w' (t_rootNode (c_tree (comps w' 1)))) REPEAT_INFO_KEY = None"
    apply (rule exI [of _ wa])
    apply (intro conjI)
         apply (rule da)
        apply (rule ra [THEN conjunct1])
       apply (rule ra [THEN conjunct2, THEN conjunct1])
      apply (rule ra [THEN conjunct2, THEN conjunct2, THEN conjunct1, unfolded u])
     apply (rule ta)
    apply (rule ra [THEN conjunct2, THEN conjunct2, THEN conjunct2])
    done
  from dom_app obtain wb where
    db: "processDOMMessages (methods env0 (Suc 0)) env0 0 world1 = Inr ((), wb)" ..
  have hb: "processDOMMessages (methods env0 (Suc 0)) env0 0 world1 = Inr ((), wb) \<and>
    0 < next_cid world1 \<and> t_rootNode (c_tree (comps world1 0)) < next_nid world1 \<and>
    n_attributes (nodes world1 (t_rootNode (c_tree (comps world1 0)))) REPEAT_INFO_KEY = None"
    using db by simp
  have rb: "States_get wb 0 INDEX_KEY = Some (Val (JNum 0)) \<and>
      States_get wb 0 REPEAT_PAYLOAD_KEY = Some (Val JNull) \<and>
      (\<exists>ev. added world1 wb = ev @ [StripExpandedBlueprintMessages 0]) \<and>
      n_attributes (nodes wb (t_rootNode (c_tree (comps wb 0)))) REPEAT_INFO_KEY = None"
    using repeat_info_seeds_state
         [where w = world1 and c = 0 and E = env0 and n = "Suc 0" and w' = wb,
          THEN conjunct2, THEN conjunct1] hb
    by (rule mp)
  have b: "\<exists>w'. processDOMMessages (methods env0 (Suc 0)) env0 0 world1 = Inr ((), w') \<and>
         States_get w' 0 INDEX_KEY = Some (Val (JNum 0)) \<and>
         States_get w' 0 REPEAT_PAYLOAD_KEY = Some (Val JNull) \<and>
         (\<exists>ev. added world1 w' = ev @ [StripExpandedBlueprintMessages 0]) \<and>
         n_attributes (nodes w' (t_rootNode (c_tree (comps w' 0)))) REPEAT_INFO_KEY = None"
    apply (rule exI [of _ wb])
    apply (intro conjI)
        apply (rule db)
       apply (rule rb [THEN conjunct1])
      apply (rule rb [THEN conjunct2, THEN conjunct1])
     apply (rule rb [THEN conjunct2, THEN conjunct2, THEN conjunct1])
    apply (rule rb [THEN conjunct2, THEN conjunct2, THEN conjunct2])
    done
  have q1: "\<forall>b. BehaviorListener b \<in> set (c_listeners (comps world1 0)) \<longrightarrow>
          INDEX_KEY \<notin> set (b_params b) \<and> REPEAT_PAYLOAD_KEY \<notin> set (b_params b)"
    by auto
  have hq: "(\<forall>b. BehaviorListener b \<in> set (c_listeners (comps ?wq 0)) \<longrightarrow>
          INDEX_KEY \<notin> set (b_params b) \<and> REPEAT_PAYLOAD_KEY \<notin> set (b_params b)) \<and>
    n_attributes (nodes ?wq (t_rootNode (c_tree (comps ?wq 0)))) REPEAT_INFO_KEY = Some CARRIER \<and> CARRIER \<noteq> [] \<and>
    JSON_parse env0 CARRIER = Some (JObj ?kvs) \<and> map_of ?kvs INDEX_KEY = Some (JNum 2) \<and>
    map_of ?kvs REPEAT_PAYLOAD_KEY = Some ?p"
    by auto
  have cq: "processDOMMessages (methods env0 0) env0 0 ?wq =
        Inr ((), upd_comp 0 (\<lambda>x. x\<lparr>c_states := assign REPEAT_PAYLOAD_KEY (Val ?p)
                                       (assign INDEX_KEY (Val (JNum 2)) (c_states x))\<rparr>)
              (upd_node (t_rootNode (c_tree (comps ?wq 0)))
                 (\<lambda>x. x\<lparr>n_attributes := (n_attributes x)(REPEAT_INFO_KEY := None)\<rparr>)
                 (?wq\<lparr>trace := trace ?wq @ [SendMessages (Val ?p) (c_uid (comps ?wq 0)),
                                      StripExpandedBlueprintMessages 0]\<rparr>)))"
    using repeat_info_seeds_state
         [where w = ?wq and c = 0 and E = env0 and K = "methods env0 0" and s = CARRIER and kvs = ?kvs
            and i = "JNum 2" and p = ?p,
          THEN conjunct2, THEN conjunct2, THEN conjunct1] hq
    by (rule mp)
  have cq': "processDOMMessages (methods env0 0) env0 0 ?wq =
     Inr ((), upd_comp 0 (\<lambda>x. x\<lparr>c_states := assign REPEAT_PAYLOAD_KEY (Val ?p)
                                       (assign INDEX_KEY (Val (JNum 2)) (c_states x))\<rparr>)
              (upd_node 1 (\<lambda>x. x\<lparr>n_attributes := (n_attributes x)(REPEAT_INFO_KEY := None)\<rparr>)
                 (world1\<lparr>nodes := nodes1(1 := (nodes1 1)\<lparr>n_attributes := [REPEAT_INFO_KEY \<mapsto> CARRIER]\<rparr>),
                         trace := trace1 @ [SendMessages (Val ?p) ''app1'',
                                            StripExpandedBlueprintMessages 0]\<rparr>)))"
    using cq by simp
  have hr: "(\<forall>b. BehaviorListener b \<in> set (c_listeners (comps world1 0)) \<longrightarrow>
          INDEX_KEY \<notin> set (b_params b) \<and> REPEAT_PAYLOAD_KEY \<notin> set (b_params b)) \<and>
    n_attributes (nodes world1 (t_rootNode (c_tree (comps world1 0)))) REPEAT_INFO_KEY = None"
    using q1 3 by (rule conjI)
  have cr: "processDOMMessages (methods env0 0) env0 0 world1 =
        Inr ((), upd_comp 0 (\<lambda>x. x\<lparr>c_states := assign REPEAT_PAYLOAD_KEY (Val JNull)
                                       (assign INDEX_KEY (Val (JNum 0)) (c_states x))\<rparr>)
              (world1\<lparr>trace := trace world1 @ [StripExpandedBlueprintMessages 0]\<rparr>))"
    using repeat_info_seeds_state
         [where w = world1 and c = 0 and E = env0 and K = "methods env0 0",
          THEN conjunct2, THEN conjunct2, THEN conjunct2, THEN conjunct1] hr
    by (rule mp)
  have cr': "processDOMMessages (methods env0 0) env0 0 world1 =
     Inr ((), upd_comp 0 (\<lambda>x. x\<lparr>c_states := assign REPEAT_PAYLOAD_KEY (Val JNull)
                                       (assign INDEX_KEY (Val (JNum 0)) (c_states x))\<rparr>)
              (world1\<lparr>trace := trace1 @ [StripExpandedBlueprintMessages 0]\<rparr>))"
    using cr by simp
  from construct_item obtain v' where
    c: "Component (methods env0 (Suc 0)) env0 4 None (Some (ParentShim 0 0)) world0 = Inr (0, v')" ..
  have hc: "Component (methods env0 (Suc 0)) env0 4 None (Some (ParentShim 0 0)) world0 = Inr (0, v') \<and>
    4 < next_nid world0 \<and>
    n_attributes (nodes world0 4) REPEAT_INFO_KEY = Some CARRIER \<and> CARRIER \<noteq> [] \<and>
    JSON_parse env0 CARRIER = Some (JObj ?kvs) \<and> map_of ?kvs INDEX_KEY = Some (JNum 2) \<and>
    map_of ?kvs REPEAT_PAYLOAD_KEY = Some ?p"
    using c 4 2 m by simp
  have c': "States_get v' 0 INDEX_KEY = Some (Val (JNum 2)) \<and>
         States_get v' 0 REPEAT_PAYLOAD_KEY = Some (Val ?p) \<and>
         SendMessages (Val ?p) (n_uid (nodes world0 4)) \<in> set (added world0 v') \<and>
         t_rootNode (c_tree (comps v' 0)) = 4 \<and>
         n_attributes (nodes v' 4) REPEAT_INFO_KEY = None"
    using repeat_info_seeds_state
         [where E = env0 and n = "Suc 0" and d = 4 and sr = None and pa = "Some (ParentShim 0 0)"
            and v = world0 and k = 0 and v' = v' and s = CARRIER and kvs = ?kvs
            and i = "JNum 2" and p = ?p,
          THEN conjunct2, THEN conjunct2, THEN conjunct2, THEN conjunct2, THEN conjunct1] hc
    by (rule mp)
  have c'': "\<exists>w'. Component (methods env0 (Suc 0)) env0 4 None (Some (ParentShim 0 0)) world0 = Inr (0, w') \<and>
         States_get w' 0 INDEX_KEY = Some (Val (JNum 2)) \<and>
         States_get w' 0 REPEAT_PAYLOAD_KEY = Some (Val ?p) \<and>
         SendMessages (Val ?p) ''item1'' \<in> set (added world0 w') \<and>
         t_rootNode (c_tree (comps w' 0)) = 4 \<and>
         n_attributes (nodes w' 4) REPEAT_INFO_KEY = None"
    apply (rule exI [of _ v'])
    apply (intro conjI)
         apply (rule c)
        apply (rule c' [THEN conjunct1])
       apply (rule c' [THEN conjunct2, THEN conjunct1])
      apply (rule c' [THEN conjunct2, THEN conjunct2, THEN conjunct1, unfolded 4(3)])
     apply (rule c' [THEN conjunct2, THEN conjunct2, THEN conjunct2, THEN conjunct1])
    apply (rule c' [THEN conjunct2, THEN conjunct2, THEN conjunct2, THEN conjunct2])
    done
  have hd: "Component (methods env0 (Suc (Suc 0))) env0 1 None (Some (ParentShim 0 0)) world0 = Inr (0, world1) \<and>
    1 < next_nid world0 \<and> n_attributes (nodes world0 1) REPEAT_INFO_KEY = None"
    using construct_app 4 by simp
  have d': "States_get world1 0 INDEX_KEY = Some (Val (JNum 0)) \<and>
   States_get world1 0 REPEAT_PAYLOAD_KEY = Some (Val JNull) \<and>
   t_rootNode (c_tree (comps world1 0)) = 1 \<and>
   n_attributes (nodes world1 1) REPEAT_INFO_KEY = None"
    using repeat_info_seeds_state
         [where E = env0 and n = "Suc (Suc 0)" and d = 1 and sr = None and pa = "Some (ParentShim 0 0)"
            and v = world0 and k = 0 and v' = world1,
          THEN conjunct2, THEN conjunct2, THEN conjunct2, THEN conjunct2, THEN conjunct2] hd
    by (rule mp)
  show ?thesis
    apply (intro conjI)
                    apply (rule 1)
                   apply (rule 2)
                  apply (rule a)
                 apply (rule 3)
                apply (rule b)
               apply (rule cq')
              apply (rule cr')
             apply (rule 4(1))
            apply (rule 4(2))
           apply (rule c'')
          apply (rule 4(4))
         apply (rule 4(5))
        apply (rule construct_app)
       apply (rule d' [THEN conjunct1])
      apply (rule d' [THEN conjunct2, THEN conjunct1])
     apply (rule d' [THEN conjunct2, THEN conjunct2, THEN conjunct1])
    apply (rule d' [THEN conjunct2, THEN conjunct2, THEN conjunct2])
    done
qed

text \<open>
  Claim C5 (the marker is cleared). The claim includes the unrecognized-message error
  among the outcomes after which the marker is cleared. The loop clears the marker
  after \<^verbatim>\<open>_processControlFlowMessage\<close> has returned (line 217), and nothing catches
  what it throws. Amended: when the scan has processed a node and gone on, the marker is
  off that node, and when a scan of existing nodes returns, the marker is off every
  node it scanned; when processing a node throws, the scan ends there with the same
  error, in the world of the throw: the marker of that node is not cleared by the loop,
  and no later node is processed.
\<close>

theorem marker_cleared_when_processed:
  "(processControlFlowMessages_loop K E bp (pre @ [n]) cr w = Inr (cr', w') \<longrightarrow>
      n_attributes (nodes w' n) CONTROL_FLOW_ACTION_KEY = None) \<and>
   (processControlFlowMessages_loop (methods E m) E bp ns cr w = Inr (cr', w') \<and>
    (\<forall>k\<in>set ns. k < next_nid w) \<longrightarrow>
      (\<forall>k\<in>set ns. n_attributes (nodes w' k) CONTROL_FLOW_ACTION_KEY = None)) \<and>
   (processControlFlowMessages_loop K E bp pre cr w = Inr (crb, wb) \<and>
    processControlFlowMessage K E n bp wb = Inl (e, we) \<longrightarrow>
      processControlFlowMessages_loop K E bp (pre @ n # rest) cr w = Inl (e, we))"
proof -
  have c1: "processControlFlowMessages_loop K E bp (pre @ [n]) cr w = Inr (cr', w') \<longrightarrow>
      n_attributes (nodes w' n) CONTROL_FLOW_ACTION_KEY = None"
  proof (rule impI)
    assume a: "processControlFlowMessages_loop K E bp (pre @ [n]) cr w = Inr (cr', w')"
    then show "n_attributes (nodes w' n) CONTROL_FLOW_ACTION_KEY = None"
      unfolding loop_append
      apply (elim bind_InrE)
      apply (simp add: )
      apply (elim bind_InrE)
      apply (auto simp add: removeAttribute_def modify_def return_def upd_node_def)
      done
  qed
  have c2: "processControlFlowMessages_loop (methods E m) E bp ns cr w = Inr (cr', w') \<and>
    (\<forall>k\<in>set ns. k < next_nid w) \<longrightarrow>
      (\<forall>k\<in>set ns. n_attributes (nodes w' k) CONTROL_FLOW_ACTION_KEY = None)"
  proof (rule impI)
    assume a: "processControlFlowMessages_loop (methods E m) E bp ns cr w = Inr (cr', w') \<and>
      (\<forall>k\<in>set ns. k < next_nid w)"
    then have 1: "processControlFlowMessages_loop (methods E m) E bp ns cr w = Inr (cr', w')"
      and 2: "\<forall>k\<in>set ns. k < next_nid w" by simp_all
    from loop_markers [OF gentle_methods 1] 2
    show "\<forall>k\<in>set ns. n_attributes (nodes w' k) CONTROL_FLOW_ACTION_KEY = None" by simp
  qed
  have c3: "processControlFlowMessages_loop K E bp pre cr w = Inr (crb, wb) \<and>
    processControlFlowMessage K E n bp wb = Inl (e, we) \<longrightarrow>
      processControlFlowMessages_loop K E bp (pre @ n # rest) cr w = Inl (e, we)"
    by (simp add: loop_append bind_def)
  show ?thesis
    by (intro conjI) (rule c1, rule c2, rule c3)
qed

text \<open>
  The counterexample: three nodes are scanned in \<open>world2\<close>. The first is deleted and its
  marker cleared; the second carries the message \<^verbatim>\<open>bogus\<close>, and after the throw it
  still carries its marker, as does the third.
\<close>

theorem marker_cleared_counterexample:
  "VirtualDOM_queryAttribute env0 world2 (t_expandedBlueprint (c_tree (comps world2 0)))
     CONTROL_FLOW_ACTION_KEY = [4, 5, 6] \<and>
   n_attributes (nodes world2 5) CONTROL_FLOW_ACTION_KEY = Some BOGUS_MARKER \<and>
   processControlFlowMessages (methods env0 (Suc 0)) env0 0 world2 =
     Inl (InvalidControlFlowMessage (Val (JStr ''bogus'')), world3) \<and>
   n_attributes (nodes world3 5) CONTROL_FLOW_ACTION_KEY = Some BOGUS_MARKER \<and>
   n_attributes (nodes world3 6) CONTROL_FLOW_ACTION_KEY = Some CREATE_MARKER"
  using scan_bogus [of "methods env0 (Suc 0)"] by simp

theorem marker_cleared_when_processed_witness:
  "processControlFlowMessages_loop (methods env0 (Suc 0)) env0 (Some 3) ([] @ [4]) None world2 = Inr (None, world3) \<and>
   n_attributes (nodes world2 4) CONTROL_FLOW_ACTION_KEY = Some DELETE_MARKER \<and>
   n_attributes (nodes world3 4) CONTROL_FLOW_ACTION_KEY = None \<and>
   4 < next_nid world2 \<and> 6 < next_nid world2 \<and>
   n_attributes (nodes world2 6) CONTROL_FLOW_ACTION_KEY = Some CREATE_MARKER \<and>
   (\<exists>w'. processControlFlowMessages_loop (methods env0 (Suc (Suc 0))) env0 (Some 3) [4, 6] None world2 =
            Inr (Some 2, w') \<and>
         n_attributes (nodes w' 4) CONTROL_FLOW_ACTION_KEY = None \<and>
         n_attributes (nodes w' 6) CONTROL_FLOW_ACTION_KEY = None) \<and>
   processControlFlowMessage (methods env0 (Suc 0)) env0 5 (Some 3) world3 =
     Inl (InvalidControlFlowMessage (Val (JStr ''bogus'')), world3) \<and>
   processControlFlowMessages_loop (methods env0 (Suc 0)) env0 (Some 3) ([4] @ 5 # [6]) None world2 =
     Inl (InvalidControlFlowMessage (Val (JStr ''bogus'')), world3)"
proof -
  let ?K = "methods env0 (Suc 0)"
  let ?e = "InvalidControlFlowMessage (Val (JStr ''bogus''))"
  have a: "processControlFlowMessages_loop ?K env0 (Some 3) ([] @ [4]) None world2 = Inr (None, world3)"
    using scan_delete [of ?K] by simp
  have b: "processControlFlowMessages_loop ?K env0 (Some 3) [4] None world2 = Inr (None, world3) \<and>
           processControlFlowMessage ?K env0 5 (Some 3) world3 = Inl (?e, world3)"
    using scan_delete [of ?K] bogus_message [of ?K] by simp
  have 0: "n_attributes (nodes world2 4) CONTROL_FLOW_ACTION_KEY = Some DELETE_MARKER"
    "4 < next_nid world2" "6 < next_nid world2"
    "n_attributes (nodes world2 6) CONTROL_FLOW_ACTION_KEY = Some CREATE_MARKER"
    by simp_all
  from scan_two obtain v where
    s: "processControlFlowMessages_loop (methods env0 (Suc (Suc 0))) env0 (Some 3) [4, 6] None world2 =
          Inr (Some 2, v)" ..
  have 1: "n_attributes (nodes world3 4) CONTROL_FLOW_ACTION_KEY = None"
    using marker_cleared_when_processed
            [where K = ?K and E = env0 and bp = "Some 3" and pre = "[]" and n = 4 and cr = None
               and w = world2 and cr' = None and w' = world3, THEN conjunct1] a
    by simp
  have 2: "n_attributes (nodes v 4) CONTROL_FLOW_ACTION_KEY = None \<and>
           n_attributes (nodes v 6) CONTROL_FLOW_ACTION_KEY = None"
    using marker_cleared_when_processed
            [where E = env0 and m = "Suc (Suc 0)" and bp = "Some 3" and ns = "[4, 6]" and cr = None
               and w = world2 and cr' = "Some 2" and w' = v, THEN conjunct2, THEN conjunct1] s
    by simp
  have 3: "processControlFlowMessages_loop ?K env0 (Some 3) ([4] @ 5 # [6]) None world2 = Inl (?e, world3)"
    using marker_cleared_when_processed
            [where K = ?K and E = env0 and bp = "Some 3" and pre = "[4]" and n = 5 and cr = None
               and w = world2 and crb = None and wb = world3 and e = ?e and we = world3 and rest = "[6]",
             THEN conjunct2, THEN conjunct2] b
    by simp
  from s 2 have 4: "\<exists>w'. processControlFlowMessages_loop (methods env0 (Suc (Suc 0))) env0 (Some 3) [4, 6] None world2 =
            Inr (Some 2, w') \<and>
         n_attributes (nodes w' 4) CONTROL_FLOW_ACTION_KEY = None \<and>
         n_attributes (nodes w' 6) CONTROL_FLOW_ACTION_KEY = None"
    by (intro exI [of _ v]) simp
  show ?thesis
    apply (intro conjI)
            apply (rule a)
           apply (rule 0(1))
          apply (rule 1)
         apply (rule 0(2))
        apply (rule 0(3))
       apply (rule 0(4))
      apply (rule 4)
     apply (rule b [THEN conjunct2])
    apply (rule 3)
    done
qed

text \<open>
  Claim C6 (unrecognized control-flow message). If the marker of a node parses to a
  value whose \<^verbatim>\<open>message\<close> is neither \<^verbatim>\<open>create\<close> nor \<^verbatim>\<open>delete\<close>, then
  \<^verbatim>\<open>_processControlFlowMessage\<close> throws the error with that message and changes
  nothing; a scan that reaches the node ends with that error in the world it had
  reached, whatever nodes remain, and so does \<^verbatim>\<open>_processControlFlowMessages\<close>, which
  neither catches the error nor runs the behaviors again.
\<close>

theorem invalid_message_aborts:
  assumes marker: "n_attributes (nodes w1 node) CONTROL_FLOW_ACTION_KEY = Some s" "s \<noteq> []"
      "JSON_parse E s = Some j" "getProp j ''message'' w1 = Inr (m, w1)"
      "m \<noteq> Val (JStr CREATE_KEY)" "m \<noteq> Val (JStr DELETE_KEY)"
    and pre: "processControlFlowMessages_loop K E (t_expandedBlueprint (c_tree (comps w c))) pre None w = Inr (cr, w1)"
    and scanned: "VirtualDOM_queryAttribute E w (t_expandedBlueprint (c_tree (comps w c))) CONTROL_FLOW_ACTION_KEY = pre @ node # rest"
  shows "processControlFlowMessage K E node bp w1 = Inl (InvalidControlFlowMessage m, w1) \<and>
         processControlFlowMessages_loop K E (t_expandedBlueprint (c_tree (comps w c))) (pre @ node # rest) None w =
           Inl (InvalidControlFlowMessage m, w1) \<and>
         processControlFlowMessages K E c w = Inl (InvalidControlFlowMessage m, w1)"
proof -
  have 1: "processControlFlowMessage K E node bp w1 = Inl (InvalidControlFlowMessage m, w1)" for bp
    using marker
    by (simp add: processControlFlowMessage_def bind_def gets_def VirtualDOM_getAttribute_def
        truthy_def parseJSON_def return_def throw_def)
  have 2: "processControlFlowMessages_loop K E (t_expandedBlueprint (c_tree (comps w c))) (pre @ node # rest) None w =
           Inl (InvalidControlFlowMessage m, w1)"
    using pre 1 by (simp add: loop_append bind_def)
  have 3: "processControlFlowMessages K E c w = Inl (InvalidControlFlowMessage m, w1)"
    using 2 scanned
    by (simp add: processControlFlowMessages_def Tree_getExpandedBlueprint_def bind_def gets_def)
  show ?thesis using 1 2 3 by simp
qed

theorem invalid_message_aborts_witness:
  "n_attributes (nodes world3 5) CONTROL_FLOW_ACTION_KEY = Some BOGUS_MARKER \<and>
   JSON_parse env0 BOGUS_MARKER = Some (JObj [(''message'', JStr ''bogus''), (''parentUID'', JStr ''app1'')]) \<and>
   processControlFlowMessages_loop (methods env0 (Suc 0)) env0 (Some 3) [4] None world2 = Inr (None, world3) \<and>
   VirtualDOM_queryAttribute env0 world2 (Some 3) CONTROL_FLOW_ACTION_KEY = [4] @ 5 # [6] \<and>
   processControlFlowMessage (methods env0 (Suc 0)) env0 5 (Some 3) world3 =
     Inl (InvalidControlFlowMessage (Val (JStr ''bogus'')), world3) \<and>
   processControlFlowMessages_loop (methods env0 (Suc 0)) env0 (Some 3) ([4] @ 5 # [6]) None world2 =
     Inl (InvalidControlFlowMessage (Val (JStr ''bogus'')), world3) \<and>
   processControlFlowMessages (methods env0 (Suc 0)) env0 0 world2 =
     Inl (InvalidControlFlowMessage (Val (JStr ''bogus'')), world3) \<and>
   n_attributes (nodes world3 6) CONTROL_FLOW_ACTION_KEY = Some CREATE_MARKER \<and>
   next_cid world3 = next_cid world2"
proof -
  let ?K = "methods env0 (Suc 0)"
  have bp: "t_expandedBlueprint (c_tree (comps world2 0)) = Some 3" by simp
  have 1: "n_attributes (nodes world3 5) CONTROL_FLOW_ACTION_KEY = Some BOGUS_MARKER" by simp
  have 2: "BOGUS_MARKER \<noteq> []" by simp
  have 3: "JSON_parse env0 BOGUS_MARKER = Some (JObj [(''message'', JStr ''bogus''), (''parentUID'', JStr ''app1'')])"
    by simp
  have 4: "getProp (JObj [(''message'', JStr ''bogus''), (''parentUID'', JStr ''app1'')]) ''message'' world3 =
             Inr (Val (JStr ''bogus''), world3)"
    by (simp add: return_def)
  have 5: "Val (JStr ''bogus'') \<noteq> Val (JStr CREATE_KEY)" "Val (JStr ''bogus'') \<noteq> Val (JStr DELETE_KEY)"
    by simp_all
  have 6: "processControlFlowMessages_loop ?K env0 (t_expandedBlueprint (c_tree (comps world2 0))) [4] None world2 =
             Inr (None, world3)"
    unfolding bp by (rule scan_delete)
  have 7: "VirtualDOM_queryAttribute env0 world2 (t_expandedBlueprint (c_tree (comps world2 0))) CONTROL_FLOW_ACTION_KEY =
             [4] @ 5 # [6]"
    by simp
  from invalid_message_aborts [OF 1 2 3 4 5 6 7, of "Some 3"] 1 3 6 7
  show ?thesis unfolding bp by simp
qed

text \<open>
  Claim C7 (lifecycle order). The calls a construction that returns adds to the trace
  are, in order: the registration, the wiring of the listeners, pre-load, then what the
  five steps of \<^verbatim>\<open>_initialize\<close> add, each run from the world the one before left:
  the resolution of control flow (which starts with the self-contained flows and holds
  the constructions of the children), the repeat-info processing (which ends with the
  stripping of the expanded blueprint), the behavior run without argument (the eligible
  behaviors of the component, in order, each routed with \<^verbatim>\<open>blockControlFlow\<close> set),
  the attachments (attach messages only); then the initialization of the descendant
  events over the expanded blueprint, and post-load last. Nothing but the registration
  and the wiring comes before pre-load.
\<close>

theorem lifecycle_order:
  assumes r: "Component (methods E n) E d s p w = Inr (c, w')"
  shows "\<exists>ls w1 w2 w3 w4 w5.
      trace w1 = trace w @ RegisterComponent (n_uid (nodes w d)) c # StatesOn c ''behavior-update'' #
                   map (CreateBehaviorListener c) ls @ [TriggerLifecycleEvent PRELOAD_KEY (n_uid (nodes w d))] \<and>
      initializeControlFlow (methods E n) E c w1 = Inr ((), w2) \<and>
      processDOMMessages (methods E n) E c w2 = Inr ((), w3) \<and>
      k_runBehaviors (methods E n) c False w3 = Inr ((), w4) \<and>
      executeAttachments E c w4 = Inr ((), w5) \<and>
      added w w' =
        RegisterComponent (n_uid (nodes w d)) c # StatesOn c ''behavior-update'' #
        map (CreateBehaviorListener c) ls @
        TriggerLifecycleEvent PRELOAD_KEY (n_uid (nodes w d)) #
        added w1 w2 @ added w2 w3 @ added w3 w4 @ added w4 w5 @
        [InitializeDescendantEvents (t_expandedBlueprint (c_tree (comps w' c))) (n_uid (nodes w d)),
         TriggerLifecycleEvent POSTLOAD_KEY (n_uid (nodes w d))] \<and>
      (\<exists>cf. added w1 w2 = InitializeSelfContainedFlows (t_blueprint (c_tree (comps w1 c))) (n_uid (nodes w d)) # cf) \<and>
      (\<exists>dm. added w2 w3 = dm @ [StripExpandedBlueprintMessages c]) \<and>
      added w3 w4 = map (\<lambda>b. Route b c True) (routed w3 c) \<and>
      (\<forall>e\<in>set (added w4 w5).
         \<exists>m t bp. e = SendMessage ''attach'' m t \<or> e = ProcessPassThroughEvents ''attach'' m bp)"
proof -
  let ?u = "n_uid (nodes w d)"
  from Component_shape [OF r] obtain ls w0 w1 w2 w3 w4 w5 where
    i: "initialize (methods E n) E c w0 = Inr ((), w')" and g: "registry w0 ?u = Some c" and
    t1: "trace w1 = trace w @ RegisterComponent ?u c # StatesOn c ''behavior-update'' #
                   map (CreateBehaviorListener c) ls @ [TriggerLifecycleEvent PRELOAD_KEY ?u]" and
    1: "initializeControlFlow (methods E n) E c w1 = Inr ((), w2)" and
    2: "processDOMMessages (methods E n) E c w2 = Inr ((), w3)" and
    3: "k_runBehaviors (methods E n) c False w3 = Inr ((), w4)" and
    4: "w4 = upd_comp c (\<lambda>x. x\<lparr>c_blockControlFlow := False\<rparr>)
             (w3\<lparr>trace := trace w3 @ map (\<lambda>b. Route b c True) (routed w3 c)\<rparr>)" and
    5: "executeAttachments E c w4 = Inr ((), w5)" and
    a: "added w w' =
        RegisterComponent ?u c # StatesOn c ''behavior-update'' #
        map (CreateBehaviorListener c) ls @
        TriggerLifecycleEvent PRELOAD_KEY ?u #
        added w1 w2 @ added w2 w3 @ added w3 w4 @ added w4 w5 @
        [InitializeDescendantEvents (t_expandedBlueprint (c_tree (comps w' c))) ?u,
         TriggerLifecycleEvent POSTLOAD_KEY ?u]" and
    cf: "added w1 w2 = InitializeSelfContainedFlows (t_blueprint (c_tree (comps w1 c))) ?u # tl (added w1 w2)" and
    dm: "added w2 w3 = butlast (added w2 w3) @ [StripExpandedBlueprintMessages c]" and
    rb: "added w3 w4 = map (\<lambda>b. Route b c True) (routed w3 c)" and
    at: "\<forall>e\<in>set (added w4 w5).
         \<exists>m t bp. e = SendMessage ''attach'' m t \<or> e = ProcessPassThroughEvents ''attach'' m bp"
    by (elim exE conjE) (rule that)
  show ?thesis
    apply (rule exI [of _ ls])
    apply (rule exI [of _ w1])
    apply (rule exI [of _ w2])
    apply (rule exI [of _ w3])
    apply (rule exI [of _ w4])
    apply (rule exI [of _ w5])
    apply (intro conjI)
             apply (rule t1)
            apply (rule 1)
           apply (rule 2)
          apply (rule 3)
         apply (rule 5)
        apply (rule a)
       apply (rule exI, rule cf)
      apply (rule exI, rule dm)
     apply (rule rb)
    apply (rule at)
    done
qed

theorem lifecycle_order_witness:
  "Component (methods env0 (Suc (Suc 0))) env0 1 None (Some (ParentShim 0 0)) world0 = Inr (0, world1) \<and>
   (\<exists>ls w1 w2 w3 w4 w5.
      initializeControlFlow (methods env0 (Suc (Suc 0))) env0 0 w1 = Inr ((), w2) \<and>
      processDOMMessages (methods env0 (Suc (Suc 0))) env0 0 w2 = Inr ((), w3) \<and>
      k_runBehaviors (methods env0 (Suc (Suc 0))) 0 False w3 = Inr ((), w4) \<and>
      executeAttachments env0 0 w4 = Inr ((), w5) \<and>
      added world0 world1 =
        RegisterComponent ''app1'' 0 # StatesOn 0 ''behavior-update'' #
        map (CreateBehaviorListener 0) ls @
        TriggerLifecycleEvent PRELOAD_KEY ''app1'' #
        added w1 w2 @ added w2 w3 @ added w3 w4 @ added w4 w5 @
        [InitializeDescendantEvents (Some 3) ''app1'', TriggerLifecycleEvent POSTLOAD_KEY ''app1''] \<and>
      added w3 w4 = map (\<lambda>b. Route b 0 True) (routed w3 0)) \<and>
   added world0 world1 = trace1"
proof -
  have u: "n_uid (nodes world0 1) = ''app1''" by (simp add: world0_def)
  have b: "t_expandedBlueprint (c_tree (comps world1 0)) = Some 3" by simp
  have a: "added world0 world1 = trace1" by (simp add: added_def world0_def)
  from lifecycle_order [OF construct_app] obtain ls w1 w2 w3 w4 w5 where
    1: "initializeControlFlow (methods env0 (Suc (Suc 0))) env0 0 w1 = Inr ((), w2)" and
    2: "processDOMMessages (methods env0 (Suc (Suc 0))) env0 0 w2 = Inr ((), w3)" and
    3: "k_runBehaviors (methods env0 (Suc (Suc 0))) 0 False w3 = Inr ((), w4)" and
    4: "executeAttachments env0 0 w4 = Inr ((), w5)" and
    5: "added world0 world1 =
        RegisterComponent (n_uid (nodes world0 1)) 0 # StatesOn 0 ''behavior-update'' #
        map (CreateBehaviorListener 0) ls @
        TriggerLifecycleEvent PRELOAD_KEY (n_uid (nodes world0 1)) #
        added w1 w2 @ added w2 w3 @ added w3 w4 @ added w4 w5 @
        [InitializeDescendantEvents (t_expandedBlueprint (c_tree (comps world1 0))) (n_uid (nodes world0 1)),
         TriggerLifecycleEvent POSTLOAD_KEY (n_uid (nodes world0 1))]" and
    6: "added w3 w4 = map (\<lambda>b. Route b 0 True) (routed w3 0)"
    by (elim exE conjE) (rule that)
  have e: "\<exists>ls w1 w2 w3 w4 w5.
      initializeControlFlow (methods env0 (Suc (Suc 0))) env0 0 w1 = Inr ((), w2) \<and>
      processDOMMessages (methods env0 (Suc (Suc 0))) env0 0 w2 = Inr ((), w3) \<and>
      k_runBehaviors (methods env0 (Suc (Suc 0))) 0 False w3 = Inr ((), w4) \<and>
      executeAttachments env0 0 w4 = Inr ((), w5) \<and>
      added world0 world1 =
        RegisterComponent ''app1'' 0 # StatesOn 0 ''behavior-update'' #
        map (CreateBehaviorListener 0) ls @
        TriggerLifecycleEvent PRELOAD_KEY ''app1'' #
        added w1 w2 @ added w2 w3 @ added w3 w4 @ added w4 w5 @
        [InitializeDescendantEvents (Some 3) ''app1'', TriggerLifecycleEvent POSTLOAD_KEY ''app1''] \<and>
      added w3 w4 = map (\<lambda>b. Route b 0 True) (routed w3 0)"
    apply (rule exI [of _ ls])
    apply (rule exI [of _ w1])
    apply (rule exI [of _ w2])
    apply (rule exI [of _ w3])
    apply (rule exI [of _ w4])
    apply (rule exI [of _ w5])
    apply (intro conjI)
         apply (rule 1)
        apply (rule 2)
       apply (rule 3)
      apply (rule 4)
     apply (rule 5 [unfolded u b])
    apply (rule 6)
    done
  show ?thesis
    apply (intro conjI)
      apply (rule construct_app)
     apply (rule e)
    apply (rule a)
    done
qed

text \<open>
  Claim C8 (what \<^verbatim>\<open>_remove\<close> changes). When \<^verbatim>\<open>_remove\<close> returns, the parent
  component was resolved before the root node was detached, and the world differs from
  the one before in this only: the root node is out of its parent node (if it had one),
  the scene-graph handle is out of the children of the parent's handle, and pre-unload
  and post-unload are in the trace. The registry and every component (its listeners
  among its fields) are as before, and so is every node but the root node and its
  former parent.
\<close>

theorem remove_effects:
  assumes r: "remove E c w = Inr ((), w')"
  shows "(\<exists>pc. Utilities_getParentComponent E
                 (w\<lparr>trace := trace w @ [TriggerLifecycleEvent PREUNLOAD_KEY (c_uid (comps w c))]\<rparr>)
                 (t_rootNode (c_tree (comps w c))) = Some pc \<and>
           w' = (case n_parentNode (nodes w (t_rootNode (c_tree (comps w c)))) of
                   None \<Rightarrow> w
                 | Some q \<Rightarrow>
                     upd_node (t_rootNode (c_tree (comps w c))) (\<lambda>x. x\<lparr>n_parentNode := None\<rparr>)
                       (upd_node q (\<lambda>x. x\<lparr>n_childNodes :=
                           removeAll (t_rootNode (c_tree (comps w c))) (n_childNodes x)\<rparr>) w))
                \<lparr>famous := (famous w)(c_famousNode (comps w pc) :=
                     removeAll (c_famousNode (comps w c)) (famous w (c_famousNode (comps w pc)))),
                 trace := trace w @ [TriggerLifecycleEvent PREUNLOAD_KEY (c_uid (comps w c)),
                                     TriggerLifecycleEvent POSTUNLOAD_KEY (c_uid (comps w c))]\<rparr>) \<and>
         registry w' = registry w \<and> comps w' = comps w \<and> next_cid w' = next_cid w \<and>
         added w w' = [TriggerLifecycleEvent PREUNLOAD_KEY (c_uid (comps w c)),
                       TriggerLifecycleEvent POSTUNLOAD_KEY (c_uid (comps w c))] \<and>
         n_parentNode (nodes w' (t_rootNode (c_tree (comps w c)))) = None \<and>
         (\<forall>k. k \<noteq> t_rootNode (c_tree (comps w c)) \<and>
              Some k \<noteq> n_parentNode (nodes w (t_rootNode (c_tree (comps w c)))) \<longrightarrow>
              nodes w' k = nodes w k)"
proof -
  let ?r = "t_rootNode (c_tree (comps w c))"
  let ?w0 = "w\<lparr>trace := trace w @ [TriggerLifecycleEvent PREUNLOAD_KEY (c_uid (comps w c))]\<rparr>"
  obtain pc where pc: "Utilities_getParentComponent E ?w0 ?r = Some pc"
    using r
    by (cases "Utilities_getParentComponent E ?w0 ?r")
       (auto simp add: remove_def bind_def gets_def logEvent_def modify_def getParentComponent_def
          getRootNode_def throw_def return_def Node_removeChild_def split: option.splits)
  have w': "w' = (case n_parentNode (nodes w ?r) of
                   None \<Rightarrow> w
                 | Some q \<Rightarrow>
                     upd_node ?r (\<lambda>x. x\<lparr>n_parentNode := None\<rparr>)
                       (upd_node q (\<lambda>x. x\<lparr>n_childNodes := removeAll ?r (n_childNodes x)\<rparr>) w))
                \<lparr>famous := (famous w)(c_famousNode (comps w pc) :=
                     removeAll (c_famousNode (comps w c)) (famous w (c_famousNode (comps w pc)))),
                 trace := trace w @ [TriggerLifecycleEvent PREUNLOAD_KEY (c_uid (comps w c)),
                                     TriggerLifecycleEvent POSTUNLOAD_KEY (c_uid (comps w c))]\<rparr>"
    using r pc
    by (auto simp add: remove_def bind_def gets_def logEvent_def modify_def getParentComponent_def
          getRootNode_def throw_def return_def Node_removeChild_def Famous_removeChild_def
          upd_node_def split: option.splits)
  show ?thesis
    apply (intro conjI exI [of _ pc])
           apply (rule pc)
          apply (rule w')
         apply (simp_all add: w' added_def upd_node_def split: option.splits)
    done
qed

theorem remove_effects_witness:
  "\<exists>w'. remove env0 1 world1 = Inr ((), w') \<and>
        registry w' = registry world1 \<and> comps w' = comps world1 \<and> next_cid w' = next_cid world1 \<and>
        registry w' ''item1'' = Some 1 \<and>
        added world1 w' = [TriggerLifecycleEvent PREUNLOAD_KEY ''item1'',
                           TriggerLifecycleEvent POSTUNLOAD_KEY ''item1''] \<and>
        n_parentNode (nodes world1 9) = Some 1 \<and> n_parentNode (nodes w' 9) = None \<and>
        famous world1 1 = [2] \<and> famous w' 1 = []"
proof -
  from remove_item1 obtain w' where r: "remove env0 1 world1 = Inr ((), w')" ..
  from remove_effects [OF r] r show ?thesis
    by (intro exI [of _ w']) auto
qed

text \<open>
  Claim C9 (the first behavior run is blocked). \<^verbatim>\<open>_initialize\<close> calls
  \<^verbatim>\<open>_runBehaviors()\<close> without argument, right after \<^verbatim>\<open>_processDOMMessages\<close> has
  stripped the expanded blueprint. That run sets \<^verbatim>\<open>blockControlFlow\<close>, hands the
  eligible behaviors of the component to the router in order, each with the flag set,
  and clears the flag; it changes nothing else, so no control flow is triggered. What
  \<^verbatim>\<open>_initialize\<close> adds to the trace after the run holds no routing at all. A run
  without argument that returns is always of this form, and it returns whenever the
  router fails on none of the eligible behaviors.
\<close>

theorem first_run_blocked:
  "(initialize (methods E n) E c w = Inr ((), w') \<longrightarrow>
      (\<exists>pre w3 w4 post.
         trace w3 = trace w @ pre @ [StripExpandedBlueprintMessages c] \<and>
         k_runBehaviors (methods E n) c False w3 = Inr ((), w4) \<and>
         w4 = upd_comp c (\<lambda>x. x\<lparr>c_blockControlFlow := False\<rparr>)
                (w3\<lparr>trace := trace w3 @ map (\<lambda>b. Route b c True) (routed w3 c)\<rparr>) \<and>
         added w w' = pre @ StripExpandedBlueprintMessages c #
                        map (\<lambda>b. Route b c True) (routed w3 c) @ post \<and>
         (\<forall>b k f. Route b k f \<notin> set post))) \<and>
   (runBehaviors K E c False w = Inr (u, w') \<longrightarrow>
      w' = upd_comp c (\<lambda>x. x\<lparr>c_blockControlFlow := False\<rparr>)
             (w\<lparr>trace := trace w @ map (\<lambda>b. Route b c True) (routed w c)\<rparr>)) \<and>
   ((\<forall>b\<in>set (routed w c). \<forall>v. BehaviorRouter_raises E v b c = None) \<longrightarrow>
      runBehaviors K E c False w =
        Inr ((), upd_comp c (\<lambda>x. x\<lparr>c_blockControlFlow := False\<rparr>)
                   (w\<lparr>trace := trace w @ map (\<lambda>b. Route b c True) (routed w c)\<rparr>)))"
proof (intro conjI impI)
  assume r: "initialize (methods E n) E c w = Inr ((), w')"
  let ?w1 = "w\<lparr>trace := trace w @ [TriggerLifecycleEvent PRELOAD_KEY (c_uid (comps w c))]\<rparr>"
  from initialize_shape [OF r] obtain w2 w3 w4 w5 where
    3: "k_runBehaviors (methods E n) c False w3 = Inr ((), w4)" and
    4: "w4 = upd_comp c (\<lambda>x. x\<lparr>c_blockControlFlow := False\<rparr>)
             (w3\<lparr>trace := trace w3 @ map (\<lambda>b. Route b c True) (routed w3 c)\<rparr>)" and
    a: "added w w' =
        TriggerLifecycleEvent PRELOAD_KEY (c_uid (comps w c)) #
        added ?w1 w2 @ added w2 w3 @ added w3 w4 @ added w4 w5 @
        [InitializeDescendantEvents (t_expandedBlueprint (c_tree (comps w5 c))) (c_uid (comps w c)),
         TriggerLifecycleEvent POSTLOAD_KEY (c_uid (comps w c))]" and
    dm: "added w2 w3 = butlast (added w2 w3) @ [StripExpandedBlueprintMessages c]" and
    rb: "added w3 w4 = map (\<lambda>b. Route b c True) (routed w3 c)" and
    at: "\<forall>e\<in>set (added w4 w5).
         \<exists>m t bp. e = SendMessage ''attach'' m t \<or> e = ProcessPassThroughEvents ''attach'' m bp" and
    t2: "trace w2 = trace ?w1 @ added ?w1 w2" and
    t3: "trace w3 = trace w2 @ added w2 w3"
    by (elim exE conjE) (rule that)
  let ?pre = "TriggerLifecycleEvent PRELOAD_KEY (c_uid (comps w c)) # added ?w1 w2 @ butlast (added w2 w3)"
  let ?post = "added w4 w5 @
        [InitializeDescendantEvents (t_expandedBlueprint (c_tree (comps w5 c))) (c_uid (comps w c)),
         TriggerLifecycleEvent POSTLOAD_KEY (c_uid (comps w c))]"
  have "trace w3 = trace w2 @ butlast (added w2 w3) @ [StripExpandedBlueprintMessages c]"
    using t3 dm by simp
  then have p1: "trace w3 = trace w @ ?pre @ [StripExpandedBlueprintMessages c]"
    using t2 by simp
  have "added w w' =
        TriggerLifecycleEvent PRELOAD_KEY (c_uid (comps w c)) #
        added ?w1 w2 @ (butlast (added w2 w3) @ [StripExpandedBlueprintMessages c]) @
        map (\<lambda>b. Route b c True) (routed w3 c) @ ?post"
    using a dm rb by simp
  then have p2: "added w w' = ?pre @ StripExpandedBlueprintMessages c #
                        map (\<lambda>b. Route b c True) (routed w3 c) @ ?post"
    by simp
  have p3: "\<forall>b k f. Route b k f \<notin> set ?post" using at by auto
  show "\<exists>pre w3 w4 post.
         trace w3 = trace w @ pre @ [StripExpandedBlueprintMessages c] \<and>
         k_runBehaviors (methods E n) c False w3 = Inr ((), w4) \<and>
         w4 = upd_comp c (\<lambda>x. x\<lparr>c_blockControlFlow := False\<rparr>)
                (w3\<lparr>trace := trace w3 @ map (\<lambda>b. Route b c True) (routed w3 c)\<rparr>) \<and>
         added w w' = pre @ StripExpandedBlueprintMessages c #
                        map (\<lambda>b. Route b c True) (routed w3 c) @ post \<and>
         (\<forall>b k f. Route b k f \<notin> set post)"
    apply (rule exI [of _ ?pre])
    apply (rule exI [of _ w3])
    apply (rule exI [of _ w4])
    apply (rule exI [of _ ?post])
    apply (intro conjI)
        apply (rule p1)
       apply (rule 3)
      apply (rule 4)
     apply (rule p2)
    apply (rule p3)
    done
next
  assume "runBehaviors K E c False w = Inr (u, w')"
  then show "w' = upd_comp c (\<lambda>x. x\<lparr>c_blockControlFlow := False\<rparr>)
             (w\<lparr>trace := trace w @ map (\<lambda>b. Route b c True) (routed w c)\<rparr>)"
    by (rule runBehaviors_False_Inr)
next
  assume "\<forall>b\<in>set (routed w c). \<forall>v. BehaviorRouter_raises E v b c = None"
  then show "runBehaviors K E c False w =
        Inr ((), upd_comp c (\<lambda>x. x\<lparr>c_blockControlFlow := False\<rparr>)
                   (w\<lparr>trace := trace w @ map (\<lambda>b. Route b c True) (routed w c)\<rparr>))"
    by (rule runBehaviors_False_total)
qed

theorem first_run_blocked_witness:
  "(\<exists>w' pre w3 w4 post.
      initialize (methods env0 (Suc 0)) env0 1 world_child = Inr ((), w') \<and>
      trace w3 = trace world_child @ pre @ [StripExpandedBlueprintMessages 1] \<and>
      k_runBehaviors (methods env0 (Suc 0)) 1 False w3 = Inr ((), w4) \<and>
      added world_child w' = pre @ StripExpandedBlueprintMessages 1 #
                        map (\<lambda>b. Route b 1 True) (routed w3 1) @ post \<and>
      (\<forall>b k f. Route b k f \<notin> set post) \<and>
      added world_child w' =
          [TriggerLifecycleEvent PRELOAD_KEY ''item1'',
           InitializeSelfContainedFlows 8 ''item1'',
           InitializeParentDefinedFlows (Some 8) (Some 4),
           SendMessages (Val (JObj [(''x'', JNum 7)])) ''item1'',
           Route b_label 1 False,
           StripExpandedBlueprintMessages 1,
           Route b_label 1 True,
           InitializeDescendantEvents (Some 8) ''item1'',
           TriggerLifecycleEvent POSTLOAD_KEY ''item1'']) \<and>
   routed world1 0 = [b_repeat, b_size] \<and>
   runBehaviors (methods env0 0) env0 0 False world1 =
     Inr ((), upd_comp 0 (\<lambda>x. x\<lparr>c_blockControlFlow := False\<rparr>)
                (world1\<lparr>trace := trace world1 @ [Route b_repeat 0 True, Route b_size 0 True]\<rparr>))"
proof -
  from initialize_item1 obtain w' where
    i: "initialize (methods env0 (Suc 0)) env0 1 world_child = Inr ((), w')" and
    a: "added world_child w' =
          [TriggerLifecycleEvent PRELOAD_KEY ''item1'',
           InitializeSelfContainedFlows 8 ''item1'',
           InitializeParentDefinedFlows (Some 8) (Some 4),
           SendMessages (Val (JObj [(''x'', JNum 7)])) ''item1'',
           Route b_label 1 False,
           StripExpandedBlueprintMessages 1,
           Route b_label 1 True,
           InitializeDescendantEvents (Some 8) ''item1'',
           TriggerLifecycleEvent POSTLOAD_KEY ''item1'']"
    by (elim exE conjE) (rule that)
  have "\<exists>pre w3 w4 post.
         trace w3 = trace world_child @ pre @ [StripExpandedBlueprintMessages 1] \<and>
         k_runBehaviors (methods env0 (Suc 0)) 1 False w3 = Inr ((), w4) \<and>
         w4 = upd_comp 1 (\<lambda>x. x\<lparr>c_blockControlFlow := False\<rparr>)
                (w3\<lparr>trace := trace w3 @ map (\<lambda>b. Route b 1 True) (routed w3 1)\<rparr>) \<and>
         added world_child w' = pre @ StripExpandedBlueprintMessages 1 #
                        map (\<lambda>b. Route b 1 True) (routed w3 1) @ post \<and>
         (\<forall>b k f. Route b k f \<notin> set post)"
    using first_run_blocked [where E = env0 and n = "Suc 0" and c = 1 and w = world_child and w' = w',
        THEN conjunct1] i
    by (rule mp)
  then obtain pre w3 w4 post where
    1: "trace w3 = trace world_child @ pre @ [StripExpandedBlueprintMessages 1]" and
    2: "k_runBehaviors (methods env0 (Suc 0)) 1 False w3 = Inr ((), w4)" and
    3: "added world_child w' = pre @ StripExpandedBlueprintMessages 1 #
                        map (\<lambda>b. Route b 1 True) (routed w3 1) @ post" and
    4: "\<forall>b k f. Route b k f \<notin> set post"
    by (elim exE conjE) (rule that)
  have e: "\<exists>w' pre w3 w4 post.
      initialize (methods env0 (Suc 0)) env0 1 world_child = Inr ((), w') \<and>
      trace w3 = trace world_child @ pre @ [StripExpandedBlueprintMessages 1] \<and>
      k_runBehaviors (methods env0 (Suc 0)) 1 False w3 = Inr ((), w4) \<and>
      added world_child w' = pre @ StripExpandedBlueprintMessages 1 #
                        map (\<lambda>b. Route b 1 True) (routed w3 1) @ post \<and>
      (\<forall>b k f. Route b k f \<notin> set post) \<and>
      added world_child w' =
          [TriggerLifecycleEvent PRELOAD_KEY ''item1'',
           InitializeSelfContainedFlows 8 ''item1'',
           InitializeParentDefinedFlows (Some 8) (Some 4),
           SendMessages (Val (JObj [(''x'', JNum 7)])) ''item1'',
           Route b_label 1 False,
           StripExpandedBlueprintMessages 1,
           Route b_label 1 True,
           InitializeDescendantEvents (Some 8) ''item1'',
           TriggerLifecycleEvent POSTLOAD_KEY ''item1'']"
    apply (rule exI [of _ w'])
    apply (rule exI [of _ pre])
    apply (rule exI [of _ w3])
    apply (rule exI [of _ w4])
    apply (rule exI [of _ post])
    apply (intro conjI)
         apply (rule i)
        apply (rule 1)
       apply (rule 2)
      apply (rule 3)
     apply (rule 4)
    apply (rule a)
    done
  have r: "routed world1 0 = [b_repeat, b_size]"
    by (simp add: routed_def eligible_def shareValue_def)
  have q: "\<forall>b\<in>set (routed world1 0). \<forall>v. BehaviorRouter_raises env0 v b 0 = None" by simp
  have t: "runBehaviors (methods env0 0) env0 0 False world1 =
     Inr ((), upd_comp 0 (\<lambda>x. x\<lparr>c_blockControlFlow := False\<rparr>)
                (world1\<lparr>trace := trace world1 @ [Route b_repeat 0 True, Route b_size 0 True]\<rparr>))"
    using first_run_blocked [where K = "methods env0 0" and E = env0 and c = 0 and w = world1,
        THEN conjunct2, THEN conjunct2] q
    unfolding r by simp
  show ?thesis
    apply (intro conjI)
      apply (rule e)
     apply (rule r)
    apply (rule t)
    done
qed

text \<open>
  Claim C10 (\<^verbatim>\<open>blockControlFlow\<close> is transient). A call of \<^verbatim>\<open>_runBehaviors\<close> that
  returns leaves the flag of the component false, with or without the argument, and
  the flag is set by a run without argument only, which hands the eligible behaviors to
  the router with the flag set and clears it before it returns. The claim says the flag
  is true only inside such a run. Lines 96 to 113 have no \<^verbatim>\<open>try\<close> and
  \<^verbatim>\<open>finally\<close>: when the router throws on a behavior during a run without argument,
  the run ends there with that error and the flag stays set. Amended: from a world
  where no component is blocked, the constructor, \<^verbatim>\<open>_runBehaviors\<close>, the
  behavior-update handler, the two dynamic entry points and \<^verbatim>\<open>_remove\<close>, when
  they return, end in such a world, and \<^verbatim>\<open>_runBehaviors(true)\<close> routes no behavior
  of its component with the flag set; a run without argument that throws leaves the
  flag set.
\<close>

theorem blockControlFlow_transient:
  "(runBehaviors K E c r w = Inr (u, w') \<longrightarrow> \<not> c_blockControlFlow (comps w' c)) \<and>
   (runBehaviors K E c False w = Inr (u, w') \<longrightarrow>
      w' = upd_comp c (\<lambda>x. x\<lparr>c_blockControlFlow := False\<rparr>)
             (w\<lparr>trace := trace w @ map (\<lambda>b. Route b c True) (routed w c)\<rparr>)) \<and>
   (runBehaviors K E c False w = Inl (e, w') \<longrightarrow>
      c_blockControlFlow (comps w' c) \<and>
      (\<exists>k < length (routed w c).
         w' = upd_comp c (\<lambda>x. x\<lparr>c_blockControlFlow := True\<rparr>)
                (w\<lparr>trace := trace w @ map (\<lambda>b. Route b c True) (take (Suc k) (routed w c))\<rparr>) \<and>
         BehaviorRouter_raises E w' (routed w c ! k) c = Some e)) \<and>
   (unblocked w \<longrightarrow>
      (returns (Component (methods E n) E d s p) w \<longrightarrow>
         unblocked (final (Component (methods E n) E d s p) w)) \<and>
      (returns (runBehaviors (methods E n) E c r) w \<longrightarrow>
         unblocked (final (runBehaviors (methods E n) E c r) w)) \<and>
      (returns (handleBehaviorUpdate (methods E n) E c b) w \<longrightarrow>
         unblocked (final (handleBehaviorUpdate (methods E n) E c b) w)) \<and>
      (returns (processDynamicRepeat (methods E n) E c b) w \<longrightarrow>
         unblocked (final (processDynamicRepeat (methods E n) E c b) w)) \<and>
      (returns (processDynamicIf (methods E n) E c b) w \<longrightarrow>
         unblocked (final (processDynamicIf (methods E n) E c b) w)) \<and>
      (returns (remove E c) w \<longrightarrow> unblocked (final (remove E c) w))) \<and>
   (unblocked w \<and> c < next_cid w \<longrightarrow>
      (\<forall>b'. Route b' c True \<notin> set (added w (final (runBehaviors (methods E n) E c True) w))))"
proof -
  have 1: "runBehaviors K E c r w = Inr (u, w') \<longrightarrow> \<not> c_blockControlFlow (comps w' c)"
    by (rule impI) (rule runBehaviors_returns_unblocked)
  have 2: "runBehaviors K E c False w = Inr (u, w') \<longrightarrow>
      w' = upd_comp c (\<lambda>x. x\<lparr>c_blockControlFlow := False\<rparr>)
             (w\<lparr>trace := trace w @ map (\<lambda>b. Route b c True) (routed w c)\<rparr>)"
    by (rule impI) (rule runBehaviors_False_Inr)
  have 3: "runBehaviors K E c False w = Inl (e, w') \<longrightarrow>
      c_blockControlFlow (comps w' c) \<and>
      (\<exists>k < length (routed w c).
         w' = upd_comp c (\<lambda>x. x\<lparr>c_blockControlFlow := True\<rparr>)
                (w\<lparr>trace := trace w @ map (\<lambda>b. Route b c True) (take (Suc k) (routed w c))\<rparr>) \<and>
         BehaviorRouter_raises E w' (routed w c ! k) c = Some e)"
  proof (rule impI)
    assume "runBehaviors K E c False w = Inl (e, w')"
    from runBehaviors_False_Inl [OF this] obtain k where
      k: "k < length (routed w c)"
        "w' = upd_comp c (\<lambda>x. x\<lparr>c_blockControlFlow := True\<rparr>)
                (w\<lparr>trace := trace w @ map (\<lambda>b. Route b c True) (take (Suc k) (routed w c))\<rparr>)"
        "BehaviorRouter_raises E w' (routed w c ! k) c = Some e"
      by blast
    have "c_blockControlFlow (comps w' c)" unfolding k(2) by (simp add: upd_comp_def)
    with k show "c_blockControlFlow (comps w' c) \<and>
      (\<exists>k < length (routed w c).
         w' = upd_comp c (\<lambda>x. x\<lparr>c_blockControlFlow := True\<rparr>)
                (w\<lparr>trace := trace w @ map (\<lambda>b. Route b c True) (take (Suc k) (routed w c))\<rparr>) \<and>
         BehaviorRouter_raises E w' (routed w c ! k) c = Some e)"
      by blast
  qed
  note g = good_methods [of E n]
  have ends: "unblocked (final m w)" if "sat m (frame X Y)" "unblocked w" "returns m w"
    for m :: "'a exec" and X Y
    using satD [OF that(1), of w] that(2,3) by (simp add: frame_def)
  have 4: "unblocked w \<longrightarrow>
      (returns (Component (methods E n) E d s p) w \<longrightarrow>
         unblocked (final (Component (methods E n) E d s p) w)) \<and>
      (returns (runBehaviors (methods E n) E c r) w \<longrightarrow>
         unblocked (final (runBehaviors (methods E n) E c r) w)) \<and>
      (returns (handleBehaviorUpdate (methods E n) E c b) w \<longrightarrow>
         unblocked (final (handleBehaviorUpdate (methods E n) E c b) w)) \<and>
      (returns (processDynamicRepeat (methods E n) E c b) w \<longrightarrow>
         unblocked (final (processDynamicRepeat (methods E n) E c b) w)) \<and>
      (returns (processDynamicIf (methods E n) E c b) w \<longrightarrow>
         unblocked (final (processDynamicIf (methods E n) E c b) w)) \<and>
      (returns (remove E c) w \<longrightarrow> unblocked (final (remove E c) w))"
  proof (intro impI conjI)
    assume u: "unblocked w"
    have s1: "sat (Component (methods E n) E d s p) (frame {} {})"
      by (rule sat_Component) (rule g)
    have s2: "sat (runBehaviors (methods E n) E c r) (frame {c} {c})"
      by (cases r) (simp_all add: sat_runBehaviors_True sat_runBehaviors_False g)
    have s3: "sat (handleBehaviorUpdate (methods E n) E c b) (frame {c} {})"
      by (rule sat_handleBehaviorUpdate) (simp_all add: g)
    have s4: "sat (processDynamicRepeat (methods E n) E c b) (frame {c} {})"
      by (rule sat_processDynamicRepeat) (simp_all add: g)
    have s5: "sat (processDynamicIf (methods E n) E c b) (frame {c} {})"
      by (rule sat_processDynamicIf) (simp_all add: g)
    have s6: "sat (remove E c) (frame {} {})" by (rule sat_remove)
    {
      assume "returns (Component (methods E n) E d s p) w"
      with s1 u show "unblocked (final (Component (methods E n) E d s p) w)" by (rule ends)
    next
      assume "returns (runBehaviors (methods E n) E c r) w"
      with s2 u show "unblocked (final (runBehaviors (methods E n) E c r) w)" by (rule ends)
    next
      assume "returns (handleBehaviorUpdate (methods E n) E c b) w"
      with s3 u show "unblocked (final (handleBehaviorUpdate (methods E n) E c b) w)" by (rule ends)
    next
      assume "returns (processDynamicRepeat (methods E n) E c b) w"
      with s4 u show "unblocked (final (processDynamicRepeat (methods E n) E c b) w)" by (rule ends)
    next
      assume "returns (processDynamicIf (methods E n) E c b) w"
      with s5 u show "unblocked (final (processDynamicIf (methods E n) E c b) w)" by (rule ends)
    next
      assume "returns (remove E c) w"
      with s6 u show "unblocked (final (remove E c) w)" by (rule ends)
    }
  qed
  have 5: "unblocked w \<and> c < next_cid w \<longrightarrow>
      (\<forall>b'. Route b' c True \<notin> set (added w (final (runBehaviors (methods E n) E c True) w)))"
  proof (rule impI)
    assume a: "unblocked w \<and> c < next_cid w"
    have "sat (runBehaviors (methods E n) E c True) (frame {c} {})"
      by (rule sat_runBehaviors_True) (simp_all add: good_methods)
    from satD [OF this, of w]
    have f: "frame {c} {} w (returns (runBehaviors (methods E n) E c True) w)
               (final (runBehaviors (methods E n) E c True) w)" .
    show "\<forall>b'. Route b' c True \<notin> set (added w (final (runBehaviors (methods E n) E c True) w))"
      using frameD_calm [OF f] a by fastforce
  qed
  show ?thesis
    by (intro conjI) (rule 1, rule 2, rule 3, rule 4, rule 5)
qed

text \<open>
  The counterexample: the router of \<open>env_raise\<close> fails on the behavior \<^verbatim>\<open>size\<close>. A
  run without argument in \<open>world1\<close>, where no component is blocked, routes the repeat
  behavior and \<^verbatim>\<open>size\<close> and ends with the error of the router; the flag of the app
  is set in the world it ends in, outside any run, and a behavior update of the repeat
  behavior that follows is routed with the flag set.
\<close>

theorem blockControlFlow_stuck_counterexample:
  "unblocked world1 \<and>
   (\<exists>w'. runBehaviors (methods env_raise (Suc 0)) env_raise 0 False world1 = Inl (RouterError ''size'', w') \<and>
         c_blockControlFlow (comps w' 0) \<and>
         added world1 w' = [Route b_repeat 0 True, Route b_size 0 True] \<and>
         handleBehaviorUpdate (methods env_raise (Suc 0)) env_raise 0 b_repeat w' =
           Inr ((), w'\<lparr>trace := trace w' @ [Route b_repeat 0 True]\<rparr>))"
  by (simp add: method_app prim_app env_raise_def added_def unblocked_def b_size_def b_repeat_def)

theorem blockControlFlow_transient_witness:
  "runBehaviors (methods env0 0) env0 0 False world1 =
     Inr ((), upd_comp 0 (\<lambda>x. x\<lparr>c_blockControlFlow := False\<rparr>)
                (world1\<lparr>trace := trace world1 @ [Route b_repeat 0 True, Route b_size 0 True]\<rparr>)) \<and>
   \<not> c_blockControlFlow (comps (upd_comp 0 (\<lambda>x. x\<lparr>c_blockControlFlow := False\<rparr>)
                (world1\<lparr>trace := trace world1 @ [Route b_repeat 0 True, Route b_size 0 True]\<rparr>)) 0) \<and>
   (\<exists>w'. runBehaviors (methods env_raise 0) env_raise 0 False world1 = Inl (RouterError ''size'', w') \<and>
         c_blockControlFlow (comps w' 0)) \<and>
   unblocked world1 \<and> 0 < next_cid world1 \<and>
   returns (Component (methods env0 (Suc (Suc 0))) env0 6 (Some 6) (Some (ParentComponent 0))) world1 \<and>
   unblocked (final (Component (methods env0 (Suc (Suc 0))) env0 6 (Some 6) (Some (ParentComponent 0))) world1) \<and>
   returns (runBehaviors (methods env0 (Suc (Suc 0))) env0 0 True) world1 \<and>
   unblocked (final (runBehaviors (methods env0 (Suc (Suc 0))) env0 0 True) world1) \<and>
   returns (handleBehaviorUpdate (methods env0 (Suc (Suc 0))) env0 0 b_repeat) world1 \<and>
   unblocked (final (handleBehaviorUpdate (methods env0 (Suc (Suc 0))) env0 0 b_repeat) world1) \<and>
   returns (processDynamicRepeat (methods env0 (Suc (Suc 0))) env0 0 b_repeat) world1 \<and>
   unblocked (final (processDynamicRepeat (methods env0 (Suc (Suc 0))) env0 0 b_repeat) world1) \<and>
   returns (processDynamicIf (methods (env0\<lparr>ControlFlow_processIfBehavior := (\<lambda>w b bp u. [])\<rparr>) (Suc (Suc 0)))
              (env0\<lparr>ControlFlow_processIfBehavior := (\<lambda>w b bp u. [])\<rparr>) 0 b_if) world1 \<and>
   unblocked (final (processDynamicIf (methods (env0\<lparr>ControlFlow_processIfBehavior := (\<lambda>w b bp u. [])\<rparr>) (Suc (Suc 0)))
              (env0\<lparr>ControlFlow_processIfBehavior := (\<lambda>w b bp u. [])\<rparr>) 0 b_if) world1) \<and>
   returns (remove env0 1) world1 \<and>
   unblocked (final (remove env0 1) world1) \<and>
   (\<forall>b'. Route b' 0 True \<notin> set (added world1 (final (runBehaviors (methods env0 (Suc (Suc 0))) env0 0 True) world1)))"
proof -
  let ?wa = "upd_comp 0 (\<lambda>x. x\<lparr>c_blockControlFlow := False\<rparr>)
                (world1\<lparr>trace := trace world1 @ [Route b_repeat 0 True, Route b_size 0 True]\<rparr>)"
  let ?wb = "upd_comp 0 (\<lambda>x. x\<lparr>c_blockControlFlow := True\<rparr>)
            (world1\<lparr>trace := trace world1 @ [Route b_repeat 0 True, Route b_size 0 True]\<rparr>)"
  let ?eif = "env0\<lparr>ControlFlow_processIfBehavior := (\<lambda>w b bp u. [])\<rparr>"
  have r: "routed world1 0 = [b_repeat, b_size]"
    by (simp add: routed_def eligible_def shareValue_def)
  have u: "unblocked world1" by (rule unblocked_world1)
  have n: "0 < next_cid world1" by simp
  have ra: "runBehaviors (methods env0 0) env0 0 False world1 = Inr ((), ?wa)"
    using runBehaviors_False_total [of world1 0 env0 "methods env0 0"] unfolding r by simp
  have 1: "\<not> c_blockControlFlow (comps ?wa 0)"
    using blockControlFlow_transient
        [where K = "methods env0 0" and E = env0 and c = 0 and r = False and w = world1 and u = "()"
           and w' = ?wa, THEN conjunct1] ra
    by (rule mp)
  have 3: "c_blockControlFlow (comps ?wb 0)"
    using blockControlFlow_transient
        [where K = "methods env_raise 0" and E = env_raise and c = 0 and w = world1
           and e = "RouterError ''size''" and w' = ?wb,
         THEN conjunct2, THEN conjunct2, THEN conjunct1, THEN mp, THEN conjunct1] run_raise
    by simp
  have raised: "\<exists>w'. runBehaviors (methods env_raise 0) env_raise 0 False world1 = Inl (RouterError ''size'', w') \<and>
         c_blockControlFlow (comps w' 0)"
    by (rule exI [of _ ?wb]) (rule conjI [OF run_raise 3])
  note t = blockControlFlow_transient
        [where E = env0 and n = "Suc (Suc 0)" and w = world1 and d = 6 and s = "Some 6"
           and p = "Some (ParentComponent 0)" and c = 0 and r = True and b = b_repeat,
         THEN conjunct2, THEN conjunct2, THEN conjunct2, THEN conjunct1, THEN mp, OF u]
  have 4: "unblocked (final (Component (methods env0 (Suc (Suc 0))) env0 6 (Some 6) (Some (ParentComponent 0))) world1)"
    using t [THEN conjunct1] returns_construct by (rule mp)
  have 5: "unblocked (final (runBehaviors (methods env0 (Suc (Suc 0))) env0 0 True) world1)"
    using t [THEN conjunct2, THEN conjunct1] returns_run by (rule mp)
  have 6: "unblocked (final (handleBehaviorUpdate (methods env0 (Suc (Suc 0))) env0 0 b_repeat) world1)"
    using t [THEN conjunct2, THEN conjunct2, THEN conjunct1] returns_update by (rule mp)
  have 7: "unblocked (final (processDynamicRepeat (methods env0 (Suc (Suc 0))) env0 0 b_repeat) world1)"
    using t [THEN conjunct2, THEN conjunct2, THEN conjunct2, THEN conjunct1] returns_repeat by (rule mp)
  have 8: "unblocked (final (processDynamicIf (methods ?eif (Suc (Suc 0))) ?eif 0 b_if) world1)"
    using blockControlFlow_transient
        [where E = ?eif and n = "Suc (Suc 0)" and w = world1 and c = 0 and b = b_if,
         THEN conjunct2, THEN conjunct2, THEN conjunct2, THEN conjunct1, THEN mp, OF u,
         THEN conjunct2, THEN conjunct2, THEN conjunct2, THEN conjunct2, THEN conjunct1]
      returns_if
    by (rule mp)
  have 9: "unblocked (final (remove env0 1) world1)"
    using blockControlFlow_transient
        [where E = env0 and w = world1 and c = 1,
         THEN conjunct2, THEN conjunct2, THEN conjunct2, THEN conjunct1, THEN mp, OF u,
         THEN conjunct2, THEN conjunct2, THEN conjunct2, THEN conjunct2, THEN conjunct2]
      returns_remove
    by (rule mp)
  have 10: "\<forall>b'. Route b' 0 True \<notin> set (added world1 (final (runBehaviors (methods env0 (Suc (Suc 0))) env0 0 True) world1))"
    using blockControlFlow_transient
        [where E = env0 and n = "Suc (Suc 0)" and w = world1 and c = 0,
         THEN conjunct2, THEN conjunct2, THEN conjunct2, THEN conjunct2] u n
    by simp
  show ?thesis
    apply (intro conjI)
                      apply (rule ra)
                     apply (rule 1)
                    apply (rule raised)
                   apply (rule u)
                  apply (rule n)
                 apply (rule returns_construct)
                apply (rule 4)
               apply (rule returns_run)
              apply (rule 5)
             apply (rule returns_update)
            apply (rule 6)
           apply (rule returns_repeat)
          apply (rule 7)
         apply (rule returns_if)
        apply (rule 8)
       apply (rule returns_remove)
      apply (rule 9)
    apply (rule 10)
    done
qed

end
